(* ===== verification/Prelude.thy ===== *)
theory Prelude
  imports Main "HOL-Library.Word" "HOL-Library.Multiset"
begin

text \<open>
  Shared vocabulary of the development: the parts of Rust's language and standard library that
  the harness uses (panics, machine-integer parsing and printing, durations, byte strings), the
  generic lemmas on lists and strings that every component needs, and the three interfaces that
  several components implement: a codec, a length-framed stream and a transition system with
  an inductive invariant.

  A Rust string is modelled by its UTF-8 bytes, so \<^typ>\<open>string\<close> (a list of 8-bit characters)
  and \<open>length\<close> is \<open>str::len\<close>. Byte arrays are lists of \<open>8 word\<close>.
\<close>

named_theorems std_defs \<open>definitions of the standard-library operations\<close>
named_theorems no_panic \<open>facts that discharge an \<open>expect\<close> of the source\<close>

section \<open>Panics\<close>

text \<open>
  \<open>Panic\<close> is the branch taken by \<open>expect\<close>, a failed slice or an arithmetic overflow check.
\<close>

datatype 'a exec = Return 'a | Panic string

fun bind_exec :: "'a exec \<Rightarrow> ('a \<Rightarrow> 'b exec) \<Rightarrow> 'b exec" where
  "bind_exec (Return x) f = f x"
| "bind_exec (Panic m) f = Panic m"

fun expect :: "'a option \<Rightarrow> string \<Rightarrow> 'a exec" where
  "expect (Some x) m = Return x"
| "expect None m = Panic m"

fun returns :: "'a exec \<Rightarrow> bool" where
  "returns (Return x) = True"
| "returns (Panic m) = False"

lemma returns_iff: "returns e \<longleftrightarrow> (\<exists>x. e = Return x)"
  by (cases e) auto

lemma bind_exec_Return_iff:
  "bind_exec e f = Return y \<longleftrightarrow> (\<exists>x. e = Return x \<and> f x = Return y)"
  by (cases e) auto

lemma expect_Return_iff [simp]: "expect v m = Return x \<longleftrightarrow> v = Some x"
  by (cases v) auto

section \<open>Machine integers\<close>

definition u64_max :: nat where "u64_max = 18446744073709551615"
definition u32_max :: nat where "u32_max = 4294967295"
definition i64_max :: int where "i64_max = 9223372036854775807"
definition i64_min :: int where "i64_min = -9223372036854775808"
definition i32_max :: int where "i32_max = 2147483647"

definition checked_add_u64 :: "nat \<Rightarrow> nat \<Rightarrow> nat option" where
  "checked_add_u64 a b = (if a + b \<le> u64_max then Some (a + b) else None)"

definition checked_sub :: "nat \<Rightarrow> nat \<Rightarrow> nat option" where
  "checked_sub a b = (if b \<le> a then Some (a - b) else None)"

lemmas [std_defs] = checked_add_u64_def checked_sub_def

lemma checked_sub_Some_iff: "checked_sub a b = Some c \<longleftrightarrow> b \<le> a \<and> c = a - b"
  by (auto simp: checked_sub_def)

section \<open>Durations\<close>

text \<open>
  \<open>std::time::Duration\<close> counted in nanoseconds. Its range is \<open>u64::MAX\<close> seconds and
  999,999,999 nanoseconds; \<open>saturating_add\<close> stops there and subtraction on \<open>nat\<close> is
  \<open>saturating_sub\<close>.
\<close>

type_synonym duration = nat

definition duration_max :: duration where
  "duration_max = 18446744073709551615 * 1000000000 + 999999999"

definition from_secs :: "nat \<Rightarrow> duration" where "from_secs s = s * 1000000000"
definition from_millis :: "nat \<Rightarrow> duration" where "from_millis s = s * 1000000"
definition as_secs :: "duration \<Rightarrow> nat" where "as_secs d = d div 1000000000"
definition as_millis :: "duration \<Rightarrow> nat" where "as_millis d = d div 1000000"

definition duration_saturating_add :: "duration \<Rightarrow> duration \<Rightarrow> duration" where
  "duration_saturating_add a b = min (a + b) duration_max"

lemmas [std_defs] = from_secs_def from_millis_def as_secs_def as_millis_def
  duration_saturating_add_def

lemma as_millis_zero_iff: "as_millis d = 0 \<longleftrightarrow> d < 1000000"
  by (simp add: as_millis_def div_eq_0_iff)

section \<open>ASCII classes and byte strings\<close>

definition is_ascii_lowercase :: "char \<Rightarrow> bool" where
  "is_ascii_lowercase c \<longleftrightarrow> 97 \<le> (of_char c :: nat) \<and> (of_char c :: nat) \<le> 122"

definition is_ascii_digit :: "char \<Rightarrow> bool" where
  "is_ascii_digit c \<longleftrightarrow> 48 \<le> (of_char c :: nat) \<and> (of_char c :: nat) \<le> 57"

definition is_lower_hex_letter :: "char \<Rightarrow> bool" where
  "is_lower_hex_letter c \<longleftrightarrow> 97 \<le> (of_char c :: nat) \<and> (of_char c :: nat) \<le> 102"

definition is_upper_hex_letter :: "char \<Rightarrow> bool" where
  "is_upper_hex_letter c \<longleftrightarrow> 65 \<le> (of_char c :: nat) \<and> (of_char c :: nat) \<le> 70"

definition is_ascii_hexdigit :: "char \<Rightarrow> bool" where
  "is_ascii_hexdigit c \<longleftrightarrow> is_ascii_digit c \<or> is_lower_hex_letter c \<or> is_upper_hex_letter c"

lemmas [std_defs] = is_ascii_lowercase_def is_ascii_digit_def is_lower_hex_letter_def
  is_upper_hex_letter_def is_ascii_hexdigit_def

lemma of_char_eq_nat: "(of_char c :: nat) = of_char d \<longleftrightarrow> c = d"
  by (metis char_of_char)

lemma of_char_less_256: "(of_char c :: nat) < 256"
  by (metis char_of_char of_char_of mod_less_divisor zero_less_numeral)

text \<open>\<open>str::split\<close> on one character; it always yields at least one piece.\<close>

fun split_char :: "char \<Rightarrow> string \<Rightarrow> string list" where
  "split_char d [] = [[]]"
| "split_char d (c # cs) =
     (if c = d then [] # split_char d cs
      else (case split_char d cs of [] \<Rightarrow> [[c]] | w # ws \<Rightarrow> (c # w) # ws))"

fun join_char :: "char \<Rightarrow> string list \<Rightarrow> string" where
  "join_char d [] = []"
| "join_char d [w] = w"
| "join_char d (w # v # ws) = w @ d # join_char d (v # ws)"

text \<open>\<open>str::split_once\<close>.\<close>

fun split_once :: "char \<Rightarrow> string \<Rightarrow> (string \<times> string) option" where
  "split_once d [] = None"
| "split_once d (c # cs) =
     (if c = d then Some ([], cs)
      else (case split_once d cs of None \<Rightarrow> None | Some (l, r) \<Rightarrow> Some (c # l, r)))"

text \<open>\<open>str::rfind\<close> for one character: the byte index of the last occurrence.\<close>

fun rfind :: "char \<Rightarrow> string \<Rightarrow> nat option" where
  "rfind d [] = None"
| "rfind d (c # cs) =
     (case rfind d cs of Some i \<Rightarrow> Some (Suc i) | None \<Rightarrow> if c = d then Some 0 else None)"

fun strip_prefix :: "string \<Rightarrow> string \<Rightarrow> string option" where
  "strip_prefix [] s = Some s"
| "strip_prefix (p # ps) [] = None"
| "strip_prefix (p # ps) (c # cs) = (if p = c then strip_prefix ps cs else None)"

lemma split_char_nonempty: "split_char d s \<noteq> []"
  by (cases s) (auto split: list.splits)

lemma split_char_single: "d \<notin> set w \<Longrightarrow> split_char d w = [w]"
  by (induction w) auto

lemma split_char_append: "d \<notin> set w \<Longrightarrow> split_char d (w @ d # s) = w # split_char d s"
  by (induction w) auto

lemma split_join_char:
  "ws \<noteq> [] \<Longrightarrow> \<forall>w \<in> set ws. d \<notin> set w \<Longrightarrow> split_char d (join_char d ws) = ws"
  by (induction d ws rule: join_char.induct) (auto simp: split_char_single split_char_append)

lemma split_once_append: "d \<notin> set l \<Longrightarrow> split_once d (l @ d # r) = Some (l, r)"
  by (induction l) auto

lemma split_once_Some_iff:
  "split_once d s = Some (l, r) \<longleftrightarrow> s = l @ d # r \<and> d \<notin> set l"
proof
  show "split_once d s = Some (l, r) \<Longrightarrow> s = l @ d # r \<and> d \<notin> set l"
    by (induction s arbitrary: l) (auto split: option.splits if_splits)
qed (auto simp: split_once_append)

lemma split_once_None_iff: "split_once d s = None \<longleftrightarrow> d \<notin> set s"
  by (induction s) (auto split: option.splits)

lemma strip_prefix_Some_iff: "strip_prefix p s = Some r \<longleftrightarrow> s = p @ r"
  by (induction p s rule: strip_prefix.induct) auto

lemma rfind_None_iff: "rfind d s = None \<longleftrightarrow> d \<notin> set s"
  by (induction s) (auto split: option.splits)

lemma rfind_Some_split:
  "rfind d s = Some i \<Longrightarrow> s = take i s @ d # drop (Suc i) s \<and> d \<notin> set (drop (Suc i) s)"
proof (induction s arbitrary: i)
  case (Cons c cs)
  then show ?case by (auto split: option.splits if_splits simp: rfind_None_iff)
qed simp

lemma rfind_append:
  "d \<notin> set r \<Longrightarrow> rfind d (l @ d # r) = Some (length l)"
  by (induction l) (auto split: option.splits simp: rfind_None_iff[symmetric])

section \<open>Decimal printing and parsing\<close>

definition digit_char :: "nat \<Rightarrow> char" where
  "digit_char n = (char_of (48 + n) :: char)"

text \<open>\<open>Display\<close> of an unsigned and of a signed integer.\<close>

function show_nat :: "nat \<Rightarrow> string" where
  "show_nat n = (if n < 10 then [digit_char n] else show_nat (n div 10) @ [digit_char (n mod 10)])"
  by pat_completeness auto
termination by (relation "measure id") auto

declare show_nat.simps [simp del]

definition show_int :: "int \<Rightarrow> string" where
  "show_int i = (if i < 0 then CHR ''-'' # show_nat (nat (- i)) else show_nat (nat i))"

definition digit_value :: "char \<Rightarrow> nat option" where
  "digit_value c = (if is_ascii_digit c then Some (of_char c - 48) else None)"

fun digits_value :: "nat \<Rightarrow> string \<Rightarrow> nat option" where
  "digits_value acc [] = Some acc"
| "digits_value acc (c # cs) =
     (case digit_value c of None \<Rightarrow> None | Some d \<Rightarrow> digits_value (acc * 10 + d) cs)"

text \<open>
  \<open>u64::from_str\<close> and \<open>i64::from_str\<close>: an empty string or a lone sign is an error, a leading
  \<open>+\<close> is accepted, and a value outside the type's range is an error.
\<close>

definition parse_u64 :: "string \<Rightarrow> nat option" where
  "parse_u64 s =
     (let body = (case s of c # cs \<Rightarrow> if c = CHR ''+'' then cs else s | [] \<Rightarrow> s)
      in if body = [] then None
         else (case digits_value 0 body of
                 None \<Rightarrow> None | Some v \<Rightarrow> if v \<le> u64_max then Some v else None))"

definition parse_i64 :: "string \<Rightarrow> int option" where
  "parse_i64 s =
     (let neg = (case s of c # cs \<Rightarrow> c = CHR ''-'' | [] \<Rightarrow> False);
          body = (case s of c # cs \<Rightarrow> if c = CHR ''-'' \<or> c = CHR ''+'' then cs else s | [] \<Rightarrow> s)
      in if body = [] then None
         else (case digits_value 0 body of
                 None \<Rightarrow> None
               | Some v \<Rightarrow>
                   let i = (if neg then - int v else int v)
                   in if i64_min \<le> i \<and> i \<le> i64_max then Some i else None))"

lemma of_char_digit_char: "n < 10 \<Longrightarrow> (of_char (digit_char n) :: nat) = 48 + n"
  by (simp add: digit_char_def)

lemma digit_value_digit_char [simp]: "n < 10 \<Longrightarrow> digit_value (digit_char n) = Some n"
  by (simp add: digit_value_def is_ascii_digit_def of_char_digit_char)

lemma digits_value_append:
  "digits_value acc (xs @ ys) =
     (case digits_value acc xs of None \<Rightarrow> None | Some v \<Rightarrow> digits_value v ys)"
  by (induction xs arbitrary: acc) (auto split: option.splits)

lemma show_nat_not_Nil [simp]: "show_nat n \<noteq> []"
  by (subst show_nat.simps) simp

lemma show_nat_digits: "c \<in> set (show_nat n) \<Longrightarrow> is_ascii_digit c"
proof (induction n rule: show_nat.induct)
  case (1 n)
  then show ?case
    by (subst (asm) show_nat.simps)
       (auto split: if_splits simp: is_ascii_digit_def of_char_digit_char)
qed

lemma digits_value_show_nat: "digits_value 0 (show_nat n) = Some n"
proof (induction n rule: show_nat.induct)
  case (1 n)
  show ?case
  proof (cases "n < 10")
    case True
    then show ?thesis by (simp add: show_nat.simps)
  next
    case False
    with 1 show ?thesis by (subst show_nat.simps) (simp add: digits_value_append)
  qed
qed

lemma show_nat_free:
  assumes "\<not> is_ascii_digit c" shows "c \<notin> set (show_nat n)"
  using assms show_nat_digits by blast

lemma show_nat_hd: "show_nat n = c # cs \<Longrightarrow> is_ascii_digit c"
  using show_nat_digits[of c n] by simp

lemma parse_u64_show_nat: "n \<le> u64_max \<Longrightarrow> parse_u64 (show_nat n) = Some n"
  using show_nat_hd[of n] digits_value_show_nat[of n]
  by (auto simp: parse_u64_def Let_def is_ascii_digit_def split: list.splits)

lemma parse_i64_show_int:
  assumes "i64_min \<le> i" "i \<le> i64_max" shows "parse_i64 (show_int i) = Some i"
proof (cases "i < 0")
  case True
  with assms show ?thesis
    using digits_value_show_nat[of "nat (- i)"] by (simp add: parse_i64_def show_int_def)
next
  case False
  then obtain c cs where s: "show_nat (nat i) = c # cs" by (cases "show_nat (nat i)") auto
  with show_nat_hd have "c \<noteq> CHR ''-''" "c \<noteq> CHR ''+''" by (fastforce simp: is_ascii_digit_def)+
  with False assms s show ?thesis
    using digits_value_show_nat[of "nat i"] by (simp add: parse_i64_def show_int_def)
qed

lemma parse_u64_bound: "parse_u64 s = Some n \<Longrightarrow> n \<le> u64_max"
  by (auto simp: parse_u64_def Let_def split: if_splits option.splits)

lemma parse_i64_bound: "parse_i64 s = Some i \<Longrightarrow> i64_min \<le> i \<and> i \<le> i64_max"
  by (auto simp: parse_i64_def Let_def split: if_splits option.splits)

lemma show_int_chars: "c \<in> set (show_int i) \<Longrightarrow> c = CHR ''-'' \<or> is_ascii_digit c"
  by (auto simp: show_int_def split: if_splits dest: show_nat_digits)

section \<open>Interfaces\<close>

subsection \<open>Codecs\<close>

text \<open>
  A printer and a parser with the round-trip law. What clients need of it is that a printed
  form identifies the value.
\<close>

locale codec =
  fixes encode :: "'a \<Rightarrow> 'b"
    and decode :: "'b \<Rightarrow> 'a option"
    and valid :: "'a \<Rightarrow> bool"
  assumes decode_encode: "valid x \<Longrightarrow> decode (encode x) = Some x"
begin

lemma encode_inject: "valid x \<Longrightarrow> valid y \<Longrightarrow> encode x = encode y \<longleftrightarrow> x = y"
  by (metis decode_encode option.inject)

lemma encode_inj_on: "inj_on encode {x. valid x}"
  by (auto simp: inj_on_def encode_inject)

end

interpretation u64_text: codec show_nat parse_u64 "\<lambda>n. n \<le> u64_max"
  by unfold_locales (rule parse_u64_show_nat)

interpretation i64_text: codec show_int parse_i64 "\<lambda>i. i64_min \<le> i \<and> i \<le> i64_max"
  by unfold_locales (simp add: parse_i64_show_int)

subsection \<open>Reachable states and inductive invariants\<close>

inductive reachable :: "('s \<Rightarrow> bool) \<Rightarrow> ('s \<Rightarrow> 's \<Rightarrow> bool) \<Rightarrow> 's \<Rightarrow> bool"
  for initial :: "'s \<Rightarrow> bool" and step :: "'s \<Rightarrow> 's \<Rightarrow> bool" where
  reachable_init: "initial s \<Longrightarrow> reachable initial step s"
| reachable_step: "reachable initial step s \<Longrightarrow> step s t \<Longrightarrow> reachable initial step t"

locale invariant_system =
  fixes initial :: "'s \<Rightarrow> bool"
    and step :: "'s \<Rightarrow> 's \<Rightarrow> bool"
    and inv :: "'s \<Rightarrow> bool"
  assumes inv_initial: "initial s \<Longrightarrow> inv s"
    and inv_step: "inv s \<Longrightarrow> step s t \<Longrightarrow> inv t"
begin

lemma reachable_inv: "reachable initial step s \<Longrightarrow> inv s"
  by (induction rule: reachable.induct) (auto intro: inv_initial inv_step)

lemma reachable_step_inv: "reachable initial step s \<Longrightarrow> step s t \<Longrightarrow> inv s \<and> inv t"
  by (meson inv_step reachable_inv)

end

text \<open>
  A simulation: every step of a detailed system is matched by steps of an abstract one under the view
  \<open>abs\<close>. What is proved of the reachable abstract states then holds of the views of the detailed ones.
\<close>

locale forward_simulation = invariant_system initial step inv
  for initial :: "'c \<Rightarrow> bool" and step :: "'c \<Rightarrow> 'c \<Rightarrow> bool" and inv :: "'c \<Rightarrow> bool" +
  fixes abs :: "'c \<Rightarrow> 'a"
    and abs_initial :: "'a \<Rightarrow> bool"
    and abs_step :: "'a \<Rightarrow> 'a \<Rightarrow> bool"
  assumes sim_initial: "initial s \<Longrightarrow> abs_initial (abs s)"
    and sim_step: "inv s \<Longrightarrow> step s t \<Longrightarrow> abs_step\<^sup>*\<^sup>* (abs s) (abs t)"
begin

lemma reachable_abs: "reachable initial step s \<Longrightarrow> reachable abs_initial abs_step (abs s)"
proof (induction rule: reachable.induct)
  case (reachable_init s)
  then show ?case by (intro reachable.reachable_init sim_initial)
next
  case (reachable_step s t)
  have "abs_step\<^sup>*\<^sup>* x y \<Longrightarrow> reachable abs_initial abs_step x \<Longrightarrow> reachable abs_initial abs_step y" for x y
    by (induction rule: rtranclp_induct) (auto intro: reachable.reachable_step)
  with sim_step[OF reachable_inv[OF reachable_step.hyps(1)] reachable_step.hyps(2)] reachable_step.IH
  show ?case by blast
qed

end

end
