(* ===== verification/Errors.thy ===== *)
theory Errors
  imports Prelude
begin

text \<open>
  The error type of the crate (\<open>src/error.rs\<close>): one constructor per variant of \<open>Error\<close>, with the
  variant's fields in source order. An error that comes from another crate is represented by
  what this crate observes of it: a \<open>tokio_postgres::Error\<close> by whether \<open>as_db_error\<close> is
  present and by its message, every other foreign error by its message.
\<close>

record pg_error =
  as_db_error :: bool
  pg_message :: string

datatype error =
    InvalidConfiguration string
  | InvalidProjectName string string
  | InvalidImageReference string
  | InvalidAdminDatabaseUrl string
  | InvalidDatabaseName string
  | Postgres string pg_error
  | PostgresConnectTimeout string duration
  | PostgresOperationTimeout string duration
  | PostgresRuntime string string
  | UnsupportedPostgresVersion int
  | MissingUuidV7
  | ExternalAdminUrlRequired
  | ContainerStart string
  | ContainerStorageStart nat string
  | ContainerReadinessTimeout duration error
  | ContainerExitedBeforeReady "int option"
  | ContainerStorageExhausted nat string
  | ContainerMemoryExhausted nat string
  | ContainerStartupTimeout duration
  | ContainerRemove string
  | ContainerWorkerStart string
  | ContainerWorkerStopped
  | ContainerWorkerPanicked
  | ExitCleanupRegistration
  | BlockingTask string
  | StatePoisoned string
  | ConnectionBudgetClosed
  | InvalidPrewarmCapacity nat nat
  | PrewarmPoolClosed
  | AdminSessionPoolClosed
  | AdminSessionCheckoutTimeout duration
  | CleanupQueueClosed
  | CleanupWorkerStopped
  | CleanupWorkerPanicked
  | DeferredCleanup "deferred_cleanup_failure list"
  | TemplateInitializer string
  | TemplateInitializerAndCleanup string error
  | ManagedDatabaseTagAndCleanup error error
  | InconsistentMetadata string
  | TimeoutOutOfRange duration
  | TemplateConnectionsRemain string
  | CleanupWorkerStart string
  | CleanupAndContainerShutdown error error
  | ContainerStartupAndCleanup error error
and deferred_cleanup_failure = DeferredCleanupFailure string error

text \<open>\<open>Result<T>\<close> of the crate: \<open>Inl\<close> is \<open>Err\<close>, \<open>Inr\<close> is \<open>Ok\<close>.\<close>

type_synonym 'a result = "error + 'a"

fun failure_database_name :: "deferred_cleanup_failure \<Rightarrow> string" where
  "failure_database_name (DeferredCleanupFailure n e) = n"

fun failure_source_error :: "deferred_cleanup_failure \<Rightarrow> error" where
  "failure_source_error (DeferredCleanupFailure n e) = e"

definition Error_postgres :: "string \<Rightarrow> pg_error \<Rightarrow> error" where
  "Error_postgres operation source = Postgres operation source"

definition Error_deferred_cleanup :: "deferred_cleanup_failure list \<Rightarrow> error" where
  "Error_deferred_cleanup failures = DeferredCleanup failures"

section \<open>The question-mark operator\<close>

fun bind_result :: "'a result \<Rightarrow> ('a \<Rightarrow> 'b result) \<Rightarrow> 'b result" where
  "bind_result (Inl e) f = Inl e"
| "bind_result (Inr x) f = f x"

fun ok :: "'a result \<Rightarrow> 'a option" where
  "ok (Inl e) = None"
| "ok (Inr x) = Some x"

fun is_err :: "'a result \<Rightarrow> bool" where
  "is_err (Inl e) = True"
| "is_err (Inr x) = False"

lemma bind_result_Inr_iff:
  "bind_result r f = Inr y \<longleftrightarrow> (\<exists>x. r = Inr x \<and> f x = Inr y)"
  by (cases r) auto

lemma bind_result_Inl_iff:
  "bind_result r f = Inl e \<longleftrightarrow> r = Inl e \<or> (\<exists>x. r = Inr x \<and> f x = Inl e)"
  by (cases r) auto

lemma ok_Some_iff [simp]: "ok r = Some x \<longleftrightarrow> r = Inr x"
  by (cases r) auto

lemma ok_None_iff [simp]: "ok r = None \<longleftrightarrow> is_err r"
  by (cases r) auto

lemma is_err_iff: "is_err r \<longleftrightarrow> (\<exists>e. r = Inl e)"
  by (cases r) auto

end
