(* ===== verification/Config.thy ===== *)
theory Config
  imports Errors
begin

text \<open>
  Configuration (\<open>src/config.rs\<close>): project names, the owned-container profile, the harness
  configuration with its builder methods, the connection-permit policy and image references.
  \<open>std::env::var\<close> is an argument (the environment as a partial map).
\<close>

section \<open>Constants\<close>

definition POSTGRES_TEST_ADMIN_URL_ENV :: string where
  "POSTGRES_TEST_ADMIN_URL_ENV = ''POSTGRES_TEST_ADMIN_URL''"
definition POSTGRES_TEST_IMAGE_ENV :: string where
  "POSTGRES_TEST_IMAGE_ENV = ''POSTGRES_TEST_IMAGE''"
definition DEFAULT_IMAGE :: string where "DEFAULT_IMAGE = ''postgres:18''"
definition DEFAULT_STARTUP_TIMEOUT :: duration where "DEFAULT_STARTUP_TIMEOUT = from_secs 60"
definition DEFAULT_OPERATION_TIMEOUT :: duration where "DEFAULT_OPERATION_TIMEOUT = from_secs 90"
definition DEFAULT_TEMPLATE_WAIT_TIMEOUT :: duration where
  "DEFAULT_TEMPLATE_WAIT_TIMEOUT = from_secs (15 * 60)"
definition DEFAULT_STALE_AFTER :: duration where "DEFAULT_STALE_AFTER = from_secs (60 * 60)"
definition DEFAULT_CONNECTION_BUDGET :: nat where "DEFAULT_CONNECTION_BUDGET = 120"
definition DEFAULT_CONNECTIONS_PER_DATABASE :: nat where "DEFAULT_CONNECTIONS_PER_DATABASE = 11"
definition MAX_PROJECT_NAME_LEN :: nat where "MAX_PROJECT_NAME_LEN = 16"
definition DEFAULT_OWNED_CONTAINER_TMPFS_SIZE_BYTES :: nat where
  "DEFAULT_OWNED_CONTAINER_TMPFS_SIZE_BYTES = 1024 * 1024 * 1024"

section \<open>Owned-container profile\<close>

record owned_container_profile =
  initdb_no_sync :: bool
  tmpfs_size_bytes :: "nat option"

definition performance :: owned_container_profile where
  "performance = \<lparr>initdb_no_sync = True,
     tmpfs_size_bytes = Some DEFAULT_OWNED_CONTAINER_TMPFS_SIZE_BYTES\<rparr>"

definition with_initdb_no_sync :: "owned_container_profile \<Rightarrow> bool \<Rightarrow> owned_container_profile" where
  "with_initdb_no_sync self enabled = self\<lparr>initdb_no_sync := enabled\<rparr>"

definition with_tmpfs_size_bytes ::
  "owned_container_profile \<Rightarrow> nat \<Rightarrow> owned_container_profile result" where
  "with_tmpfs_size_bytes self size_bytes =
     (if size_bytes = 0 \<or> int size_bytes > i64_max
      then Inl (InvalidConfiguration
             ''owned-container tmpfs size must be between 1 and i64::MAX bytes'')
      else Inr (self\<lparr>tmpfs_size_bytes := Some size_bytes\<rparr>))"

definition without_tmpfs :: "owned_container_profile \<Rightarrow> owned_container_profile" where
  "without_tmpfs self = self\<lparr>tmpfs_size_bytes := None\<rparr>"

section \<open>Project names\<close>

datatype project_name = ProjectName (project_as_str: string)

definition project_char :: "char \<Rightarrow> bool" where
  "project_char c \<longleftrightarrow> is_ascii_lowercase c \<or> is_ascii_digit c \<or> c = CHR ''_''"

definition ProjectName_new :: "string \<Rightarrow> project_name result" where
  "ProjectName_new name =
     (if name = [] then Inl (InvalidProjectName name ''the name must not be empty'')
      else if length name > MAX_PROJECT_NAME_LEN
      then Inl (InvalidProjectName name ''the name must be at most 16 ASCII characters'')
      else if \<not> (case name of [] \<Rightarrow> False | byte # _ \<Rightarrow> is_ascii_lowercase byte)
      then Inl (InvalidProjectName name ''the name must start with a lowercase ASCII letter'')
      else if \<not> list_all project_char name
      then Inl (InvalidProjectName name
             ''only lowercase ASCII letters, digits, and underscores are allowed'')
      else Inr (ProjectName name))"

text \<open>The names the type promises: what every value built through \<open>ProjectName::new\<close> satisfies.\<close>

definition wf_project :: "project_name \<Rightarrow> bool" where
  "wf_project p \<longleftrightarrow>
     (\<exists>c cs. project_as_str p = c # cs \<and> is_ascii_lowercase c \<and> list_all project_char cs
        \<and> length cs < 16)"

lemma ProjectName_new_Inr_iff:
  "ProjectName_new name = Inr p \<longleftrightarrow> p = ProjectName name \<and> wf_project p"
  by (cases name)
     (auto simp: ProjectName_new_def wf_project_def MAX_PROJECT_NAME_LEN_def project_char_def)

lemma wf_project_new: "wf_project p \<Longrightarrow> ProjectName_new (project_as_str p) = Inr p"
  by (simp add: ProjectName_new_Inr_iff)

lemma wf_project_chars: "wf_project p \<Longrightarrow> c \<in> set (project_as_str p) \<Longrightarrow> project_char c"
  by (auto simp: wf_project_def list_all_iff project_char_def)

lemma wf_project_length:
  "wf_project p \<Longrightarrow> 0 < length (project_as_str p) \<and> length (project_as_str p) \<le> 16"
  by (auto simp: wf_project_def)

lemma wf_project_free:
  assumes "wf_project p" "\<not> project_char c" shows "c \<notin> set (project_as_str p)"
  using assms wf_project_chars by blast

section \<open>Connection limits\<close>

record connection_limits =
  connection_budget :: nat
  connections_per_database :: nat

text \<open>Integer division; the divisor is positive for every value the configuration yields.\<close>

definition max_simultaneous_leases :: "connection_limits \<Rightarrow> nat" where
  "max_simultaneous_leases self = connection_budget self div connections_per_database self"

definition wf_limits :: "connection_limits \<Rightarrow> bool" where
  "wf_limits l \<longleftrightarrow> 0 < connections_per_database l
     \<and> connections_per_database l \<le> connection_budget l \<and> connection_budget l \<le> u32_max"

lemma wf_limits_leases_pos: "wf_limits l \<Longrightarrow> 0 < max_simultaneous_leases l"
  by (simp add: wf_limits_def max_simultaneous_leases_def div_greater_zero_iff)

lemma max_leases_within_budget:
  "max_simultaneous_leases l * connections_per_database l \<le> connection_budget l"
  by (simp add: max_simultaneous_leases_def)

lemma max_leases_maximal:
  assumes "wf_limits l" "n * connections_per_database l \<le> connection_budget l"
  shows "n \<le> max_simultaneous_leases l"
  using assms by (simp add: max_simultaneous_leases_def wf_limits_def less_eq_div_iff_mult_less_eq)

section \<open>Harness configuration\<close>

record harness_config =
  cfg_project :: project_name
  admin_database_url :: "string option"
  image :: "string option"
  cfg_owned_container_profile :: owned_container_profile
  startup_timeout :: duration
  cfg_operation_timeout :: duration
  cfg_template_wait_timeout :: duration
  cfg_stale_after :: duration
  connection_budget_override :: "nat option"
  connections_per_database_override :: "nat option"
  cfg_cleanup_on_start :: bool

definition HarnessConfig_new :: "string \<Rightarrow> harness_config result" where
  "HarnessConfig_new project =
     bind_result (ProjectName_new project) (\<lambda>p. Inr
       \<lparr>cfg_project = p, admin_database_url = None, image = None,
        cfg_owned_container_profile = performance,
        startup_timeout = DEFAULT_STARTUP_TIMEOUT,
        cfg_operation_timeout = DEFAULT_OPERATION_TIMEOUT,
        cfg_template_wait_timeout = DEFAULT_TEMPLATE_WAIT_TIMEOUT,
        cfg_stale_after = DEFAULT_STALE_AFTER,
        connection_budget_override = None, connections_per_database_override = None,
        cfg_cleanup_on_start = True\<rparr>)"

definition with_admin_database_url :: "harness_config \<Rightarrow> string \<Rightarrow> harness_config" where
  "with_admin_database_url self url = self\<lparr>admin_database_url := Some url\<rparr>"

definition validate_millisecond_timeout :: "duration \<Rightarrow> unit result" where
  "validate_millisecond_timeout timeout =
     (if as_millis timeout = 0 then Inl (TimeoutOutOfRange timeout) else Inr ())"

definition validate_postgres_timeout :: "duration \<Rightarrow> unit result" where
  "validate_postgres_timeout timeout =
     bind_result (validate_millisecond_timeout timeout) (\<lambda>_.
       if int (as_millis timeout) > i32_max then Inl (TimeoutOutOfRange timeout) else Inr ())"

definition with_owned_container_profile ::
  "harness_config \<Rightarrow> owned_container_profile \<Rightarrow> harness_config" where
  "with_owned_container_profile self profile = self\<lparr>cfg_owned_container_profile := profile\<rparr>"

definition with_startup_timeout :: "harness_config \<Rightarrow> duration \<Rightarrow> harness_config result" where
  "with_startup_timeout self timeout =
     bind_result (validate_millisecond_timeout timeout) (\<lambda>_. Inr (self\<lparr>startup_timeout := timeout\<rparr>))"

definition with_operation_timeout :: "harness_config \<Rightarrow> duration \<Rightarrow> harness_config result" where
  "with_operation_timeout self timeout =
     bind_result (validate_postgres_timeout timeout)
       (\<lambda>_. Inr (self\<lparr>cfg_operation_timeout := timeout\<rparr>))"

definition with_template_wait_timeout :: "harness_config \<Rightarrow> duration \<Rightarrow> harness_config result" where
  "with_template_wait_timeout self timeout =
     bind_result (validate_postgres_timeout timeout)
       (\<lambda>_. Inr (self\<lparr>cfg_template_wait_timeout := timeout\<rparr>))"

definition with_stale_after :: "harness_config \<Rightarrow> duration \<Rightarrow> harness_config" where
  "with_stale_after self stale_after = self\<lparr>cfg_stale_after := stale_after\<rparr>"

definition with_connection_budget :: "harness_config \<Rightarrow> nat \<Rightarrow> harness_config result" where
  "with_connection_budget self permits =
     (if permits \<le> u32_max \<and> permits \<noteq> 0
      then Inr (self\<lparr>connection_budget_override := Some permits\<rparr>)
      else Inl (InvalidConfiguration ''the connection budget must fit in a positive u32''))"

text \<open>The argument is a \<open>u32\<close>.\<close>

definition with_connections_per_database :: "harness_config \<Rightarrow> 32 word \<Rightarrow> harness_config result" where
  "with_connections_per_database self permits =
     (if permits \<noteq> 0
      then Inr (self\<lparr>connections_per_database_override := Some (unat permits)\<rparr>)
      else Inl (InvalidConfiguration ''per-database permits must be positive''))"

definition with_cleanup_on_start :: "harness_config \<Rightarrow> bool \<Rightarrow> harness_config" where
  "with_cleanup_on_start self b = self\<lparr>cfg_cleanup_on_start := b\<rparr>"

definition resolve_connection_limits :: "harness_config \<Rightarrow> connection_limits result" where
  "resolve_connection_limits self =
     (let budget = (case connection_budget_override self of
                      None \<Rightarrow> DEFAULT_CONNECTION_BUDGET | Some n \<Rightarrow> n);
          per_database = (case connections_per_database_override self of
                            None \<Rightarrow> min DEFAULT_CONNECTIONS_PER_DATABASE budget | Some n \<Rightarrow> n)
      in if per_database > budget
         then Inl (InvalidConfiguration
                ''per-database permits must be no greater than the connection budget'')
         else Inr \<lparr>connection_budget = budget, connections_per_database = per_database\<rparr>)"

definition resolved_admin_database_url ::
  "(string \<rightharpoonup> string) \<Rightarrow> harness_config \<Rightarrow> string option" where
  "resolved_admin_database_url env self =
     (case admin_database_url self of
        Some url \<Rightarrow> Some url | None \<Rightarrow> env POSTGRES_TEST_ADMIN_URL_ENV)"

section \<open>Image references\<close>

record image_reference =
  repository :: string
  tag :: string

text \<open>
  \<open>char::is_whitespace\<close> over the UTF-8 bytes of a string: the ASCII white space and the encodings
  of the other code points with the Unicode property \<open>White_Space\<close>.
\<close>

fun starts_with_whitespace :: "nat list \<Rightarrow> bool" where
  "starts_with_whitespace (b # bs) \<longleftrightarrow>
     (9 \<le> b \<and> b \<le> 13) \<or> b = 32
     \<or> (b = 194 \<and> bs \<noteq> [] \<and> hd bs \<in> {133, 160})
     \<or> (b = 225 \<and> take 2 bs = [154, 128])
     \<or> (b = 226 \<and> length bs \<ge> 2 \<and> hd bs = 128
          \<and> (bs ! 1 \<le> 138 \<and> 128 \<le> bs ! 1 \<or> bs ! 1 \<in> {168, 169, 175}))
     \<or> (b = 226 \<and> take 2 bs = [129, 159])
     \<or> (b = 227 \<and> take 2 bs = [128, 128])"
| "starts_with_whitespace [] \<longleftrightarrow> False"

fun any_whitespace :: "nat list \<Rightarrow> bool" where
  "any_whitespace [] \<longleftrightarrow> False"
| "any_whitespace (b # bs) \<longleftrightarrow> starts_with_whitespace (b # bs) \<or> any_whitespace bs"

definition has_whitespace :: "string \<Rightarrow> bool" where
  "has_whitespace s = any_whitespace (map of_char s)"

definition ImageReference_parse :: "string \<Rightarrow> image_reference result" where
  "ImageReference_parse img =
     (if img = [] \<or> has_whitespace img
      then Inl (InvalidImageReference ''the image must be non-empty and contain no whitespace'')
      else
        let (name_and_tag, digest) = (case split_once (CHR ''@'') img of
              None \<Rightarrow> (img, None) | Some (name, digest) \<Rightarrow> (name, Some digest))
        in if name_and_tag = [] \<or> digest = Some []
           then Inl (InvalidImageReference
                  ''the repository and optional digest must be non-empty'')
           else
             let last_slash = rfind (CHR ''/'') name_and_tag;
                 tag_separator = (case rfind (CHR '':'') name_and_tag of
                   None \<Rightarrow> None
                 | Some index \<Rightarrow>
                     (case last_slash of
                        None \<Rightarrow> Some index
                      | Some slash \<Rightarrow> if index > slash then Some index else None));
                 (repo, tg) = (case tag_separator of
                   None \<Rightarrow> (name_and_tag, ''latest'')
                 | Some index \<Rightarrow> (take index name_and_tag, drop (Suc index) name_and_tag))
             in if repo = [] \<or> tg = []
                then Inl (InvalidImageReference ''the repository and tag must be non-empty'')
                else Inr \<lparr>repository = repo,
                          tag = (case digest of None \<Rightarrow> tg | Some d \<Rightarrow> tg @ CHR ''@'' # d)\<rparr>)"

definition with_image :: "harness_config \<Rightarrow> string \<Rightarrow> harness_config result" where
  "with_image self img =
     bind_result (ImageReference_parse img) (\<lambda>_. Inr (self\<lparr>image := Some img\<rparr>))"

definition resolved_image :: "(string \<rightharpoonup> string) \<Rightarrow> harness_config \<Rightarrow> image_reference result" where
  "resolved_image env self =
     ImageReference_parse (case image self of
        Some i \<Rightarrow> i
      | None \<Rightarrow> (case env POSTGRES_TEST_IMAGE_ENV of Some i \<Rightarrow> i | None \<Rightarrow> DEFAULT_IMAGE))"

section \<open>Chains of builder calls\<close>

text \<open>A call of one public builder method, and the configuration a chain of calls yields.\<close>

datatype builder_call =
    Admin_database_url string
  | Image string
  | Profile owned_container_profile
  | Startup_timeout duration
  | Operation_timeout duration
  | Template_wait_timeout duration
  | Stale_after duration
  | Connection_budget nat
  | Connections_per_database "32 word"
  | Cleanup_on_start bool

fun apply_builder :: "harness_config \<Rightarrow> builder_call \<Rightarrow> harness_config result" where
  "apply_builder c (Admin_database_url u) = Inr (with_admin_database_url c u)"
| "apply_builder c (Image i) = with_image c i"
| "apply_builder c (Profile p) = Inr (with_owned_container_profile c p)"
| "apply_builder c (Startup_timeout t) = with_startup_timeout c t"
| "apply_builder c (Operation_timeout t) = with_operation_timeout c t"
| "apply_builder c (Template_wait_timeout t) = with_template_wait_timeout c t"
| "apply_builder c (Stale_after t) = Inr (with_stale_after c t)"
| "apply_builder c (Connection_budget n) = with_connection_budget c n"
| "apply_builder c (Connections_per_database n) = with_connections_per_database c n"
| "apply_builder c (Cleanup_on_start b) = Inr (with_cleanup_on_start c b)"

fun apply_builders :: "harness_config \<Rightarrow> builder_call list \<Rightarrow> harness_config result" where
  "apply_builders c [] = Inr c"
| "apply_builders c (b # bs) = bind_result (apply_builder c b) (\<lambda>c'. apply_builders c' bs)"

definition postgres_timeout_ok :: "duration \<Rightarrow> bool" where
  "postgres_timeout_ok t \<longleftrightarrow> 0 < as_millis t \<and> int (as_millis t) \<le> i32_max"

definition wf_config :: "harness_config \<Rightarrow> bool" where
  "wf_config c \<longleftrightarrow> wf_project (cfg_project c)
     \<and> 0 < as_millis (startup_timeout c)
     \<and> postgres_timeout_ok (cfg_operation_timeout c)
     \<and> postgres_timeout_ok (cfg_template_wait_timeout c)
     \<and> (\<forall>i. image c = Some i \<longrightarrow> \<not> is_err (ImageReference_parse i))
     \<and> (\<forall>n. connection_budget_override c = Some n \<longrightarrow> 0 < n \<and> n \<le> u32_max)
     \<and> (\<forall>n. connections_per_database_override c = Some n \<longrightarrow> 0 < n \<and> n \<le> u32_max)"

lemma validate_postgres_timeout_iff:
  "validate_postgres_timeout t = (if postgres_timeout_ok t then Inr () else Inl (TimeoutOutOfRange t))"
  by (auto simp: validate_postgres_timeout_def validate_millisecond_timeout_def postgres_timeout_ok_def)

lemma HarnessConfig_new_wf: "HarnessConfig_new p = Inr c \<Longrightarrow> wf_config c"
  by (auto simp: HarnessConfig_new_def bind_result_Inr_iff ProjectName_new_Inr_iff wf_config_def
      postgres_timeout_ok_def DEFAULT_STARTUP_TIMEOUT_def DEFAULT_OPERATION_TIMEOUT_def
      DEFAULT_TEMPLATE_WAIT_TIMEOUT_def std_defs i32_max_def)

lemma unat_u32_bound: "unat (w :: 32 word) \<le> u32_max"
proof -
  have "unat w < 2 ^ LENGTH(32)" by (rule unsigned_less)
  then show ?thesis by (simp add: u32_max_def)
qed

lemma apply_builder_wf:
  assumes "wf_config c" "apply_builder c b = Inr c'" shows "wf_config c'"
  using assms unat_u32_bound
  by (cases b)
     (auto simp: wf_config_def with_admin_database_url_def with_image_def bind_result_Inr_iff
       with_owned_container_profile_def with_startup_timeout_def with_operation_timeout_def
       with_template_wait_timeout_def with_stale_after_def with_connection_budget_def
       with_connections_per_database_def with_cleanup_on_start_def validate_postgres_timeout_iff
       validate_millisecond_timeout_def unat_gt_0 split: if_splits)

lemma apply_builders_wf:
  "wf_config c \<Longrightarrow> apply_builders c bs = Inr c' \<Longrightarrow> wf_config c'"
  by (induction bs arbitrary: c) (auto simp: bind_result_Inr_iff dest: apply_builder_wf)

lemma resolve_connection_limits_wf:
  assumes "wf_config c" "resolve_connection_limits c = Inr l" shows "wf_limits l"
  using assms
  by (auto simp: resolve_connection_limits_def wf_config_def wf_limits_def Let_def
      DEFAULT_CONNECTION_BUDGET_def DEFAULT_CONNECTIONS_PER_DATABASE_def u32_max_def
      split: option.splits if_splits)

text \<open>The last value a chain gives to each of the two overrides.\<close>

fun last_budget :: "nat option \<Rightarrow> builder_call list \<Rightarrow> nat option" where
  "last_budget o0 [] = o0"
| "last_budget o0 (Connection_budget n # bs) = last_budget (Some n) bs"
| "last_budget o0 (b # bs) = last_budget o0 bs"

fun last_per_database :: "nat option \<Rightarrow> builder_call list \<Rightarrow> nat option" where
  "last_per_database o0 [] = o0"
| "last_per_database o0 (Connections_per_database n # bs) = last_per_database (Some (unat n)) bs"
| "last_per_database o0 (b # bs) = last_per_database o0 bs"

lemma apply_builders_overrides:
  "apply_builders c bs = Inr c' \<Longrightarrow>
     connection_budget_override c' = last_budget (connection_budget_override c) bs
   \<and> connections_per_database_override c' = last_per_database (connections_per_database_override c) bs"
proof (induction bs arbitrary: c)
  case (Cons b bs)
  then obtain d where d: "apply_builder c b = Inr d" "apply_builders d bs = Inr c'"
    by (auto simp: bind_result_Inr_iff)
  then show ?case using Cons.IH[OF d(2)]
    by (cases b)
       (auto simp: with_admin_database_url_def with_image_def bind_result_Inr_iff
         with_owned_container_profile_def with_startup_timeout_def with_operation_timeout_def
         with_template_wait_timeout_def with_stale_after_def with_connection_budget_def
         with_connections_per_database_def with_cleanup_on_start_def split: if_splits)
qed simp

lemma resolve_connection_limits_cong:
  "connection_budget_override c = connection_budget_override d \<Longrightarrow>
   connections_per_database_override c = connections_per_database_override d \<Longrightarrow>
   resolve_connection_limits c = resolve_connection_limits d"
  by (simp add: resolve_connection_limits_def)

section \<open>Image references: what a parse says about its input\<close>

lemma ImageReference_parse_shape:
  assumes "ImageReference_parse img = Inr r"
  obtains nt dg where "img = nt @ (case dg of None \<Rightarrow> [] | Some d \<Rightarrow> CHR ''@'' # d)"
    and "CHR ''@'' \<notin> set nt" and "dg \<noteq> Some []"
    and "(nt = repository r \<and> tag r = ''latest'' @ (case dg of None \<Rightarrow> [] | Some d \<Rightarrow> CHR ''@'' # d))
       \<or> img = repository r @ CHR '':'' # tag r"
    and "repository r \<noteq> []" and "tag r \<noteq> []"
proof -
  obtain nt dg where sp: "(case split_once (CHR ''@'') img of
      None \<Rightarrow> (img, None) | Some (n, d) \<Rightarrow> (n, Some d)) = (nt, dg)" by fastforce
  then have img: "img = nt @ (case dg of None \<Rightarrow> [] | Some d \<Rightarrow> CHR ''@'' # d)" and free: "CHR ''@'' \<notin> set nt"
    by (auto split: option.splits prod.splits simp: split_once_Some_iff split_once_None_iff)
  from assms sp have ne: "dg \<noteq> Some []" and "repository r \<noteq> []" and "tag r \<noteq> []"
    by (auto simp: ImageReference_parse_def Let_def split: if_splits option.splits prod.splits)
  moreover have "(nt = repository r \<and> tag r = ''latest'' @ (case dg of None \<Rightarrow> [] | Some d \<Rightarrow> CHR ''@'' # d))
       \<or> img = repository r @ CHR '':'' # tag r"
    using assms sp img
    by (auto simp: ImageReference_parse_def Let_def split: if_splits option.splits prod.splits
        dest!: rfind_Some_split)
  ultimately show ?thesis using that img free by blast
qed

section \<open>Properties\<close>

text \<open>\<open>ProjectName::new\<close> accepts exactly the strings of 1 to 16 lower-case ASCII letters, digits
  and underscores that start with a letter, and keeps the string; every other string is an error
  that carries the rejected name.\<close>

lemma project_name_exact:
  "ProjectName_new name =
     (if name \<noteq> [] \<and> length name \<le> 16 \<and> is_ascii_lowercase (hd name)
         \<and> list_all (\<lambda>c. is_ascii_lowercase c \<or> is_ascii_digit c \<or> c = CHR ''_'') name
      then Inr (ProjectName name)
      else Inl (InvalidProjectName name
        (if name = [] then ''the name must not be empty''
         else if length name > 16 then ''the name must be at most 16 ASCII characters''
         else if \<not> is_ascii_lowercase (hd name) then ''the name must start with a lowercase ASCII letter''
         else ''only lowercase ASCII letters, digits, and underscores are allowed'')))"
  by (cases name) (auto simp: ProjectName_new_def MAX_PROJECT_NAME_LEN_def project_char_def list_all_iff)

text \<open>The limits resolved after any chain of builder calls depend only on the last budget and the
  last per-database value, in whichever order the calls come: the defaults are 120 and the smaller
  of 11 and the budget. They are positive and within 32 bits, at least one lease fits, and the
  leases that fit never need more connections than the budget.\<close>

lemma builder_chain_limits:
  assumes "HarnessConfig_new p = Inr c0" "apply_builders c0 bs = Inr c"
    and "resolve_connection_limits c = Inr l"
  shows "connection_budget l = (case last_budget None bs of None \<Rightarrow> 120 | Some n \<Rightarrow> n)
     \<and> connections_per_database l =
         (case last_per_database None bs of None \<Rightarrow> min 11 (connection_budget l) | Some n \<Rightarrow> n)
     \<and> wf_limits l \<and> 0 < max_simultaneous_leases l
     \<and> max_simultaneous_leases l * connections_per_database l \<le> connection_budget l"
proof -
  have "wf_limits l"
    using assms HarnessConfig_new_wf apply_builders_wf resolve_connection_limits_wf by metis
  moreover have "connection_budget_override c0 = None" "connections_per_database_override c0 = None"
    using assms(1) by (auto simp: HarnessConfig_new_def bind_result_Inr_iff)
  ultimately show ?thesis
    using apply_builders_overrides[OF assms(2)] assms(3) wf_limits_leases_pos max_leases_within_budget
    by (auto simp: resolve_connection_limits_def Let_def DEFAULT_CONNECTION_BUDGET_def
        DEFAULT_CONNECTIONS_PER_DATABASE_def split: option.splits if_splits)
qed

text \<open>A parsed image reference loses nothing: either the input is the repository, a colon and the
  tag (with its digest), or it is the repository followed by an optional digest and the tag is
  \<open>latest\<close> with that digest. Repository and tag are never empty.\<close>

lemma image_reference_reconstructs:
  assumes "ImageReference_parse img = Inr r"
  shows "repository r \<noteq> [] \<and> tag r \<noteq> []
     \<and> (img = repository r @ CHR '':'' # tag r
        \<or> (\<exists>d. img = repository r @ d \<and> tag r = ''latest'' @ d
             \<and> (d = [] \<or> (\<exists>h. d = CHR ''@'' # h \<and> h \<noteq> []))))"
  using assms by (rule ImageReference_parse_shape) (auto split: option.splits)

end
