(* ===== verification/Admission.thy ===== *)
theory Admission
  imports Config
begin

text \<open>
  Server-scoped database admission (\<open>src/admission.rs\<close>). The semaphore is \<open>tokio::sync::Semaphore\<close>:
  its operations are a record that every definition takes as an argument, and
  \<open>semaphore_laws\<close> names what its documentation promises.
\<close>

section \<open>The semaphore interface\<close>

text \<open>One poll of \<open>acquire_many_owned\<close>; a pending acquisition leaves the caller waiting.\<close>

datatype 's acquire_poll = Acquired 's | Acquire_closed | Acquire_pending

record 's semaphore =
  sem_new :: "nat \<Rightarrow> 's"
  sem_acquire :: "nat \<Rightarrow> 's \<Rightarrow> 's acquire_poll"
  sem_add_permits :: "nat \<Rightarrow> 's \<Rightarrow> 's"
  sem_close :: "'s \<Rightarrow> 's"
  sem_is_closed :: "'s \<Rightarrow> bool"
  sem_available :: "'s \<Rightarrow> nat"

text \<open>
  The documented behaviour: a new semaphore is open and holds its permits; an acquisition that
  succeeds takes its permits from an open semaphore that has them, and fails exactly when the
  semaphore is closed; returning permits (an \<open>OwnedSemaphorePermit\<close> dropped, or \<open>add_permits\<close>)
  adds them and does not reopen; \<open>close\<close> is terminal and keeps the permits.
\<close>

definition semaphore_laws :: "'s semaphore \<Rightarrow> bool" where
  "semaphore_laws sem \<longleftrightarrow>
     (\<forall>n. \<not> sem_is_closed sem (sem_new sem n) \<and> sem_available sem (sem_new sem n) = n)
   \<and> (\<forall>n s s'. sem_acquire sem n s = Acquired s' \<longrightarrow>
        \<not> sem_is_closed sem s \<and> \<not> sem_is_closed sem s' \<and> n \<le> sem_available sem s
        \<and> sem_available sem s' = sem_available sem s - n)
   \<and> (\<forall>n s. sem_acquire sem n s = Acquire_closed \<longleftrightarrow> sem_is_closed sem s)
   \<and> (\<forall>n s. sem_is_closed sem (sem_add_permits sem n s) = sem_is_closed sem s
        \<and> sem_available sem (sem_add_permits sem n s) = sem_available sem s + n)
   \<and> (\<forall>s. sem_is_closed sem (sem_close sem s)
        \<and> sem_available sem (sem_close sem s) = sem_available sem s)"

lemma semaphore_lawsD:
  assumes "semaphore_laws sem"
  shows "\<not> sem_is_closed sem (sem_new sem n)" "sem_available sem (sem_new sem n) = n"
    and "sem_acquire sem n s = Acquired s' \<Longrightarrow> \<not> sem_is_closed sem s \<and> \<not> sem_is_closed sem s'
        \<and> n \<le> sem_available sem s \<and> sem_available sem s' = sem_available sem s - n"
    and "sem_acquire sem n s = Acquire_closed \<longleftrightarrow> sem_is_closed sem s"
    and "sem_is_closed sem (sem_add_permits sem n s) = sem_is_closed sem s"
    and "sem_available sem (sem_add_permits sem n s) = sem_available sem s + n"
    and "sem_is_closed sem (sem_close sem s)"
    and "sem_available sem (sem_close sem s) = sem_available sem s"
  using assms by (simp_all add: semaphore_laws_def)

text \<open>
  A counting semaphore that satisfies the laws. It is used only to exhibit concrete instances.
\<close>

definition counting_semaphore :: "(nat \<times> bool) semaphore" where
  "counting_semaphore = \<lparr>
     sem_new = (\<lambda>n. (n, False)),
     sem_acquire = (\<lambda>n (a, c). if c then Acquire_closed
                               else if n \<le> a then Acquired (a - n, False) else Acquire_pending),
     sem_add_permits = (\<lambda>n (a, c). (a + n, c)),
     sem_close = (\<lambda>(a, c). (a, True)),
     sem_is_closed = snd,
     sem_available = fst\<rparr>"

lemma counting_semaphore_laws: "semaphore_laws counting_semaphore"
  by (auto simp: semaphore_laws_def counting_semaphore_def split: if_splits)

section \<open>Database admission\<close>

datatype managed_database_creation_failure =
    CreationNoResidual error
  | CreationResidualPossible error

fun into_error :: "managed_database_creation_failure \<Rightarrow> error" where
  "into_error (CreationNoResidual error) = error"
| "into_error (CreationResidualPossible error) = error"

definition DatabaseAdmission_new :: "'s semaphore \<Rightarrow> nat \<Rightarrow> 's" where
  "DatabaseAdmission_new sem permits = sem_new sem permits"

text \<open>\<open>None\<close> is a caller that still waits; \<open>Some\<close> is the result of the finished future.\<close>

definition admission_acquire :: "'s semaphore \<Rightarrow> nat \<Rightarrow> 's \<Rightarrow> (nat result \<times> 's) option" where
  "admission_acquire sem permits self =
     (case sem_acquire sem permits self of
        Acquired s \<Rightarrow> Some (Inr permits, s)
      | Acquire_closed \<Rightarrow> Some (Inl ConnectionBudgetClosed, self)
      | Acquire_pending \<Rightarrow> None)"

definition ensure_open :: "'s semaphore \<Rightarrow> 's \<Rightarrow> unit result" where
  "ensure_open sem self =
     (if sem_is_closed sem self then Inl ConnectionBudgetClosed else Inr ())"

definition admission_close :: "'s semaphore \<Rightarrow> 's \<Rightarrow> 's" where
  "admission_close sem self = sem_close sem self"

definition admission_is_closed :: "'s semaphore \<Rightarrow> 's \<Rightarrow> bool" where
  "admission_is_closed sem self = sem_is_closed sem self"

text \<open>
  The creation closure runs on the server's state \<open>'w\<close>; it is not run when the gate is closed.
\<close>

definition attempt_managed_creation ::
  "'s semaphore \<Rightarrow> ('w \<Rightarrow> (managed_database_creation_failure + unit) \<times> 'w)
     \<Rightarrow> 's \<Rightarrow> 'w \<Rightarrow> (managed_database_creation_failure + unit) \<times> 's \<times> 'w" where
  "attempt_managed_creation sem operation self w =
     (case ensure_open sem self of
        Inl error \<Rightarrow> (Inl (CreationNoResidual error), self, w)
      | Inr _ \<Rightarrow>
          let (result, w') = operation w
          in (result,
              (case result of
                 Inl (CreationResidualPossible _) \<Rightarrow> admission_close sem self
               | _ \<Rightarrow> self),
              w'))"

text \<open>A sequence of creations through the same gate, with the results in order.\<close>

fun run_creations ::
  "'s semaphore \<Rightarrow> ('w \<Rightarrow> (managed_database_creation_failure + unit) \<times> 'w) list
     \<Rightarrow> 's \<Rightarrow> 'w \<Rightarrow> (managed_database_creation_failure + unit) list \<times> 's \<times> 'w" where
  "run_creations sem [] s w = ([], s, w)"
| "run_creations sem (op # ops) s w =
     (let (r, s', w') = attempt_managed_creation sem op s w;
          (rs, s'', w'') = run_creations sem ops s' w'
      in (r # rs, s'', w''))"

lemma attempt_closed:
  "sem_is_closed sem s \<Longrightarrow>
   attempt_managed_creation sem op s w = (Inl (CreationNoResidual ConnectionBudgetClosed), s, w)"
  by (simp add: attempt_managed_creation_def ensure_open_def)

lemma run_creations_closed:
  "sem_is_closed sem s \<Longrightarrow>
   run_creations sem ops s w =
     (replicate (length ops) (Inl (CreationNoResidual ConnectionBudgetClosed)), s, w)"
  by (induction ops) (auto simp: attempt_closed)

lemma run_creations_append:
  "run_creations sem (xs @ ys) s w =
     (let (rs, s', w') = run_creations sem xs s w; (rs', s'', w'') = run_creations sem ys s' w'
      in (rs @ rs', s'', w''))"
  by (induction xs arbitrary: s w) (auto simp: Let_def split: prod.splits)

lemma attempt_residual_closes:
  assumes "semaphore_laws sem" "attempt_managed_creation sem op s w = (Inl (CreationResidualPossible e), s', w')"
  shows "sem_is_closed sem s'"
  using assms
  by (auto simp: attempt_managed_creation_def admission_close_def semaphore_lawsD
      split: sum.splits prod.splits managed_database_creation_failure.splits)

lemma attempt_keeps_closed:
  assumes "semaphore_laws sem" "attempt_managed_creation sem op s w = (r, s', w')" "sem_is_closed sem s"
  shows "sem_is_closed sem s'"
  using assms by (simp add: attempt_closed)

lemma run_creations_keeps_closed:
  assumes "semaphore_laws sem" "sem_is_closed sem s" "run_creations sem ops s w = (rs, s', w')"
  shows "sem_is_closed sem s'"
  using assms by (simp add: run_creations_closed)

lemma run_creations_residual_closed:
  assumes "semaphore_laws sem" "run_creations sem ops s w = (rs, s', w')"
    and "Inl (CreationResidualPossible e) \<in> set rs"
  shows "sem_is_closed sem s'"
  using assms(2,3)
proof (induction ops arbitrary: s w rs)
  case (Cons op ops)
  obtain r s1 w1 where a: "attempt_managed_creation sem op s w = (r, s1, w1)" by (metis prod_cases3)
  obtain rs2 where b: "run_creations sem ops s1 w1 = (rs2, s', w')" and rs: "rs = r # rs2"
    using Cons.prems(1) a by (auto split: prod.splits)
  show ?case
  proof (cases "r = Inl (CreationResidualPossible e)")
    case True
    with a assms(1) b show ?thesis
      by (meson attempt_residual_closes run_creations_keeps_closed)
  next
    case False
    with Cons.prems(2) rs have "Inl (CreationResidualPossible e) \<in> set rs2" by auto
    with Cons.IH[OF b] show ?thesis by blast
  qed
qed simp

section \<open>Properties\<close>

text \<open>After a creation that may have left a database behind, the gate is closed for good: every later
  creation of the sequence fails with the closed error and its operation is not run, so the server's
  state is what it was when the gate closed.\<close>

lemma residual_creation_is_terminal:
  assumes "semaphore_laws sem" "run_creations sem before s w = (rs, s', w')"
    and "Inl (CreationResidualPossible e) \<in> set rs"
  shows "run_creations sem (before @ later) s w =
     (rs @ replicate (length later) (Inl (CreationNoResidual ConnectionBudgetClosed)), s', w')"
  using assms run_creations_residual_closed[OF assms]
  by (simp add: run_creations_append run_creations_closed)

end
