(* ===== verification/Cleanup.thy ===== *)
theory Cleanup
  imports Admission
begin

text \<open>
  The server-scoped cleanup queue (\<open>src/cleanup.rs\<close>): submission with backpressure, completion
  tracking by sequence number, and exactly-once delivery of failures. Each definition is the
  critical section one thread executes under the queue's mutexes; a result \<open>None\<close> means that
  the condition-variable loop of the source goes back to waiting with the state unchanged. The
  interleaving of these sections is the step relation of \<open>Cleanup_System\<close>.

  A cleanup operation is a closure of the caller; here it is represented by its outcome (\<open>None\<close>
  when it panics). Permits are the number of semaphore permits an \<open>OwnedSemaphorePermit\<close> holds.
\<close>

section \<open>Outcomes\<close>

datatype cleanup_outcome =
    Succeeded
  | NoResidual error
  | ResidualPossible error

fun from_cleanup_result :: "unit result \<Rightarrow> cleanup_outcome" where
  "from_cleanup_result (Inr _) = Succeeded"
| "from_cleanup_result (Inl error) = ResidualPossible error"

fun may_leave_residual :: "cleanup_outcome \<Rightarrow> bool" where
  "may_leave_residual (ResidualPossible _) = True"
| "may_leave_residual _ = False"

fun into_result :: "cleanup_outcome \<Rightarrow> unit result" where
  "into_result Succeeded = Inr ()"
| "into_result (NoResidual error) = Inl error"
| "into_result (ResidualPossible error) = Inl error"

section \<open>State\<close>

datatype cleanup_completion = Awaited | Deferred
datatype cleanup_admission = Backpressured | NonblockingFallback

record cleanup_job =
  job_sequence :: nat
  job_database_name :: string
  job_completion :: cleanup_completion
  job_permit :: "nat option"

record sequenced_failure =
  sf_sequence :: nat
  sf_failure :: deferred_cleanup_failure

record 's cleanup_queue =
  q_capacity :: nat
  q_jobs :: "cleanup_job list"
  q_next_sequence :: nat
  q_closed :: bool
  q_completed_through :: nat
  q_out_of_order :: "nat list"
  q_failures :: "sequenced_failure list"
  q_delivery_in_flight :: bool
  q_admission :: 's

definition new_queue :: "nat \<Rightarrow> 's \<Rightarrow> 's cleanup_queue" where
  "new_queue queue_capacity database_admission =
     \<lparr>q_capacity = max queue_capacity 1, q_jobs = [], q_next_sequence = 0, q_closed = False,
      q_completed_through = 0, q_out_of_order = [], q_failures = [],
      q_delivery_in_flight = False, q_admission = database_admission\<rparr>"

text \<open>Dropping an \<open>Option<OwnedSemaphorePermit>\<close>.\<close>

definition drop_permit :: "'s semaphore \<Rightarrow> nat option \<Rightarrow> 's cleanup_queue \<Rightarrow> 's cleanup_queue" where
  "drop_permit sem permit q =
     (case permit of
        None \<Rightarrow> q | Some n \<Rightarrow> q\<lparr>q_admission := sem_add_permits sem n (q_admission q)\<rparr>)"

section \<open>Submission\<close>

definition submission_close :: "'s cleanup_queue \<Rightarrow> nat \<times> 's cleanup_queue" where
  "submission_close q = (q_next_sequence q, q\<lparr>q_closed := True\<rparr>)"

definition current_target :: "'s cleanup_queue \<Rightarrow> nat" where
  "current_target q = q_next_sequence q"

text \<open>
  \<open>DatabaseCleanupQueue::new\<close> with the results of the thread spawns as an argument (one per
  worker index): the first spawn that fails closes the queue and is returned as an error.
\<close>

fun spawn_workers :: "nat \<Rightarrow> (nat \<Rightarrow> string option) \<Rightarrow> nat \<Rightarrow> nat result" where
  "spawn_workers 0 spawn index = Inr index"
| "spawn_workers (Suc n) spawn index =
     (case spawn index of
        None \<Rightarrow> spawn_workers n spawn (Suc index)
      | Some source \<Rightarrow> Inl (CleanupWorkerStart source))"

definition DatabaseCleanupQueue_new ::
  "nat \<Rightarrow> nat \<Rightarrow> 's \<Rightarrow> (nat \<Rightarrow> string option) \<Rightarrow> (nat \<times> 's cleanup_queue) result" where
  "DatabaseCleanupQueue_new worker_count queue_capacity database_admission spawn =
     bind_result (spawn_workers (max worker_count 1) spawn 0)
       (\<lambda>workers. Inr (workers, new_queue queue_capacity database_admission))"

text \<open>
  \<open>enqueue\<close>: the permit travels with the job; on every other exit it is dropped.
\<close>

definition enqueue ::
  "'s semaphore \<Rightarrow> string \<Rightarrow> cleanup_completion \<Rightarrow> nat option \<Rightarrow> cleanup_admission
     \<Rightarrow> 's cleanup_queue \<Rightarrow> (unit result exec \<times> 's cleanup_queue) option" where
  "enqueue sem database_name completion permit admission q =
     (if admission = Backpressured \<and> length (q_jobs q) \<ge> q_capacity q \<and> \<not> q_closed q then None
      else if q_closed q then Some (Return (Inl CleanupQueueClosed), drop_permit sem permit q)
      else
        (case checked_add_u64 (q_next_sequence q) 1 of
           None \<Rightarrow> Some (Panic ''a process cannot submit u64::MAX database cleanups'',
                         drop_permit sem permit q)
         | Some sequence \<Rightarrow>
             Some (Return (Inr ()),
               q\<lparr>q_next_sequence := sequence,
                 q_jobs := q_jobs q @
                   [\<lparr>job_sequence = sequence, job_database_name = database_name,
                     job_completion = completion, job_permit = permit\<rparr>]\<rparr>)))"

definition submit_awaited_outcome ::
  "'s semaphore \<Rightarrow> string \<Rightarrow> nat \<Rightarrow> 's cleanup_queue \<Rightarrow> (unit result exec \<times> 's cleanup_queue) option" where
  "submit_awaited_outcome sem database_name permit q =
     enqueue sem database_name Awaited (Some permit) Backpressured q"

text \<open>The permit is handed back only after the bounded queue has decided.\<close>

definition submit_deferred_outcome ::
  "'s semaphore \<Rightarrow> string \<Rightarrow> nat option \<Rightarrow> 's cleanup_queue
     \<Rightarrow> (unit result exec \<times> 's cleanup_queue) option" where
  "submit_deferred_outcome sem database_name permit q =
     map_option (\<lambda>(r, q'). (r, drop_permit sem permit q'))
       (enqueue sem database_name Deferred None Backpressured q)"

definition submit_fallback_outcome ::
  "'s semaphore \<Rightarrow> string \<Rightarrow> nat \<Rightarrow> 's cleanup_queue \<Rightarrow> (unit result exec \<times> 's cleanup_queue) option" where
  "submit_fallback_outcome sem database_name permit q =
     enqueue sem database_name Deferred (Some permit) NonblockingFallback q"

definition submit_prewarmer ::
  "'s semaphore \<Rightarrow> string \<Rightarrow> 's cleanup_queue \<Rightarrow> (unit result exec \<times> 's cleanup_queue) option" where
  "submit_prewarmer sem database_name q =
     enqueue sem database_name Deferred None NonblockingFallback q"

text \<open>
  \<open>next_job\<close> of a worker: \<open>Some (Some job, _)\<close> takes a job, \<open>Some (None, _)\<close> ends the worker.
\<close>

definition next_job :: "'s cleanup_queue \<Rightarrow> (cleanup_job option \<times> 's cleanup_queue) option" where
  "next_job q =
     (case q_jobs q of
        job # rest \<Rightarrow> Some (Some job, q\<lparr>q_jobs := rest\<rparr>)
      | [] \<Rightarrow> if q_closed q then Some (None, q) else None)"

section \<open>Completion\<close>

function catch_up :: "nat \<Rightarrow> nat list \<Rightarrow> nat \<times> nat list" where
  "catch_up completed_through out_of_order =
     (if Suc completed_through \<in> set out_of_order
      then catch_up (Suc completed_through) (removeAll (Suc completed_through) out_of_order)
      else (completed_through, out_of_order))"
  by pat_completeness auto
termination
  by (relation "measure (\<lambda>(_, xs). length xs)") (auto simp: length_removeAll_less)

declare catch_up.simps [simp del]

definition complete ::
  "nat \<Rightarrow> deferred_cleanup_failure option \<Rightarrow> 's cleanup_queue \<Rightarrow> 's cleanup_queue" where
  "complete sequence failure q =
     (let q1 = (case failure of
                  None \<Rightarrow> q
                | Some f \<Rightarrow>
                    q\<lparr>q_failures := q_failures q @ [\<lparr>sf_sequence = sequence, sf_failure = f\<rparr>]\<rparr>)
      in if sequence = q_completed_through q1 + 1
         then let (through, rest) = catch_up sequence (q_out_of_order q1)
              in q1\<lparr>q_completed_through := through, q_out_of_order := rest\<rparr>
         else if sequence > q_completed_through q1
         then q1\<lparr>q_out_of_order := List.insert sequence (q_out_of_order q1)\<rparr>
         else q1)"

definition record_late_failure ::
  "nat \<Rightarrow> deferred_cleanup_failure \<Rightarrow> 's cleanup_queue \<Rightarrow> 's cleanup_queue" where
  "record_late_failure sequence failure q =
     q\<lparr>q_failures := q_failures q @ [\<lparr>sf_sequence = sequence, sf_failure = failure\<rparr>]\<rparr>"

text \<open>
  \<open>wait_and_take\<close>; the returned list is the payload of a \<open>CleanupDrainOutcome\<close> (\<open>None\<close> when
  there is nothing to deliver). Sequence numbers of retained failures are distinct (a theorem of
  \<open>Cleanup_System\<close>), so the unstable sort of the source has one possible result.
\<close>

definition wait_and_take ::
  "nat \<Rightarrow> 's cleanup_queue \<Rightarrow> (sequenced_failure list option \<times> 's cleanup_queue) option" where
  "wait_and_take target q =
     (if q_completed_through q < target \<or> q_delivery_in_flight q then None
      else
        let reported = filter (\<lambda>f. sf_sequence f \<le> target) (q_failures q);
            retained = filter (\<lambda>f. \<not> sf_sequence f \<le> target) (q_failures q);
            failures = sort_key sf_sequence reported;
            q1 = q\<lparr>q_failures := retained\<rparr>
        in if failures = [] then Some (None, q1)
           else Some (Some failures, q1\<lparr>q_delivery_in_flight := True\<rparr>))"

definition acknowledge_delivery :: "'s cleanup_queue \<Rightarrow> 's cleanup_queue" where
  "acknowledge_delivery q = q\<lparr>q_delivery_in_flight := False\<rparr>"

definition restore_delivery :: "sequenced_failure list \<Rightarrow> 's cleanup_queue \<Rightarrow> 's cleanup_queue" where
  "restore_delivery failures q =
     q\<lparr>q_failures := q_failures q @ failures, q_delivery_in_flight := False\<rparr>"

definition drain_finish ::
  "sequenced_failure list option \<Rightarrow> 's cleanup_queue \<Rightarrow> unit result \<times> 's cleanup_queue" where
  "drain_finish outcome q =
     (case outcome of
        None \<Rightarrow> (Inr (), q)
      | Some failures \<Rightarrow>
          (Inl (Error_deferred_cleanup (map sf_failure failures)), acknowledge_delivery q))"

definition drain_drop :: "sequenced_failure list option \<Rightarrow> 's cleanup_queue \<Rightarrow> 's cleanup_queue" where
  "drain_drop outcome q =
     (case outcome of None \<Rightarrow> q | Some failures \<Rightarrow> restore_delivery failures q)"

section \<open>Awaited outcomes\<close>

text \<open>The queue guard of the source keeps the queue alive; the model's queue always is.\<close>

record awaited_outcome =
  aw_result :: "unit result option"
  aw_sequence :: nat
  aw_database_name :: "string option"

definition AwaitedCleanupOutcome_new :: "unit result \<Rightarrow> nat \<Rightarrow> string \<Rightarrow> awaited_outcome" where
  "AwaitedCleanupOutcome_new result sequence database_name =
     \<lparr>aw_result = Some result, aw_sequence = sequence,
      aw_database_name = (if is_err result then Some database_name else None)\<rparr>"

definition awaited_finish :: "awaited_outcome \<Rightarrow> unit result exec" where
  "awaited_finish self =
     expect (aw_result self) ''an awaited cleanup result is consumed at most once''"

definition awaited_drop :: "awaited_outcome \<Rightarrow> 's cleanup_queue \<Rightarrow> 's cleanup_queue exec" where
  "awaited_drop self q =
     (case aw_result self of
        Some (Inl error) \<Rightarrow>
          bind_exec (expect (aw_database_name self)
              ''an unconsumed cleanup error retains its database name'')
            (\<lambda>database_name. Return (record_late_failure (aw_sequence self)
                 (DeferredCleanupFailure database_name error) q))
      | _ \<Rightarrow> Return q)"

section \<open>Workers\<close>

text \<open>
  \<open>run_cleanup_job\<close> up to \<open>complete\<close>: close admission on a residual risk, release the permit,
  send the awaited outcome. \<open>receiver\<close> says whether the \<open>oneshot\<close> receiver still exists; when it
  does not, \<open>send\<close> gives the outcome back and it is dropped. The result is the failure to hand to
  \<open>complete\<close> and the outcome left in the channel, if any.
\<close>

definition settle_job ::
  "'s semaphore \<Rightarrow> cleanup_job \<Rightarrow> cleanup_outcome option \<Rightarrow> bool \<Rightarrow> 's cleanup_queue
     \<Rightarrow> (deferred_cleanup_failure option \<times> awaited_outcome option \<times> 's cleanup_queue) exec" where
  "settle_job sem job operation receiver q =
     (let outcome = (case operation of
            Some outcome \<Rightarrow> outcome | None \<Rightarrow> ResidualPossible CleanupWorkerPanicked);
          q1 = (if may_leave_residual outcome
                then q\<lparr>q_admission := admission_close sem (q_admission q)\<rparr> else q);
          result = into_result outcome;
          q2 = drop_permit sem (job_permit job) q1
      in case job_completion job of
           Awaited \<Rightarrow>
             (let sent = AwaitedCleanupOutcome_new result (job_sequence job) (job_database_name job)
              in if receiver then Return (None, Some sent, q2)
                 else bind_exec (awaited_drop sent q2) (\<lambda>q3. Return (None, None, q3)))
         | Deferred \<Rightarrow>
             Return (case result of
                       Inl error \<Rightarrow> Some (DeferredCleanupFailure (job_database_name job) error)
                     | Inr _ \<Rightarrow> None, None, q2))"

definition run_cleanup_job ::
  "'s semaphore \<Rightarrow> cleanup_job \<Rightarrow> cleanup_outcome option \<Rightarrow> bool \<Rightarrow> 's cleanup_queue
     \<Rightarrow> (awaited_outcome option \<times> 's cleanup_queue) exec" where
  "run_cleanup_job sem job operation receiver q =
     bind_exec (settle_job sem job operation receiver q)
       (\<lambda>(failure, sent, q'). Return (sent, complete (job_sequence job) failure q'))"

section \<open>Completion tracking as a set\<close>

text \<open>The sequence numbers that have completed, and the form the two fields keep them in.\<close>

definition completed :: "'s cleanup_queue \<Rightarrow> nat set" where
  "completed q = {1..q_completed_through q} \<union> set (q_out_of_order q)"

definition tracking_inv :: "'s cleanup_queue \<Rightarrow> bool" where
  "tracking_inv q \<longleftrightarrow> distinct (q_out_of_order q)
     \<and> (\<forall>x \<in> set (q_out_of_order q). q_completed_through q + 1 < x)"

lemma catch_up_correct:
  assumes "catch_up n xs = (m, ys)" "distinct xs" "\<forall>x \<in> set xs. n < x"
  shows "{1..m} \<union> set ys = {1..n} \<union> set xs \<and> distinct ys \<and> (\<forall>x \<in> set ys. m + 1 < x) \<and> n \<le> m"
  using assms
proof (induction n xs arbitrary: m ys rule: catch_up.induct)
  case (1 n xs)
  show ?case
  proof (cases "Suc n \<in> set xs")
    case True
    let ?xs = "removeAll (Suc n) xs"
    from True "1.prems"(1) have "catch_up (Suc n) ?xs = (m, ys)"
      by (simp add: catch_up.simps[of n xs])
    moreover have "distinct ?xs" using "1.prems"(2) by (simp add: distinct_removeAll)
    moreover have "\<forall>x \<in> set ?xs. Suc n < x" using "1.prems"(3) by (auto simp: Suc_lessI)
    ultimately have "{1..m} \<union> set ys = {1..Suc n} \<union> set ?xs \<and> distinct ys
        \<and> (\<forall>x \<in> set ys. m + 1 < x) \<and> Suc n \<le> m" using "1.IH"[OF True] by blast
    moreover have "{1..Suc n} \<union> set ?xs = {1..n} \<union> set xs"
      using True by (auto simp: le_Suc_eq)
    ultimately show ?thesis by auto
  next
    case False
    with "1.prems" show ?thesis
      by (auto simp: catch_up.simps[of n xs]) (metis Suc_lessI)
  qed
qed

lemma complete_failures:
  "q_failures (complete n f q) =
     q_failures q @ (case f of None \<Rightarrow> [] | Some x \<Rightarrow> [\<lparr>sf_sequence = n, sf_failure = x\<rparr>])"
  by (auto simp: complete_def Let_def split: option.splits prod.splits)

lemma complete_frame [simp]:
  "q_capacity (complete n f q) = q_capacity q" "q_jobs (complete n f q) = q_jobs q"
  "q_next_sequence (complete n f q) = q_next_sequence q" "q_closed (complete n f q) = q_closed q"
  "q_delivery_in_flight (complete n f q) = q_delivery_in_flight q"
  "q_admission (complete n f q) = q_admission q"
  by (auto simp: complete_def Let_def split: option.splits prod.splits)

lemma complete_tracking:
  assumes "tracking_inv q" "n \<notin> completed q" "0 < n"
  shows "tracking_inv (complete n f q) \<and> completed (complete n f q) = insert n (completed q)
     \<and> q_completed_through q \<le> q_completed_through (complete n f q)"
proof -
  let ?t = "q_completed_through q" and ?o = "q_out_of_order q"
  consider (adjacent) "n = Suc ?t" | (later) "n > Suc ?t"
    using assms(2,3) by (fastforce simp: completed_def)
  then show ?thesis
  proof cases
    case adjacent
    obtain m ys where c: "catch_up n ?o = (m, ys)" by fastforce
    have fields: "q_completed_through (complete n f q) = m" "q_out_of_order (complete n f q) = ys"
      using adjacent c by (auto simp: complete_def Let_def split: option.splits)
    have "\<forall>x \<in> set ?o. n < x" using assms(1) adjacent by (auto simp: tracking_inv_def)
    from catch_up_correct[OF c _ this] assms(1) fields adjacent show ?thesis
      by (auto simp: tracking_inv_def completed_def atLeastAtMostSuc_conv)
  next
    case later
    have fields: "q_completed_through (complete n f q) = ?t"
      "q_out_of_order (complete n f q) = List.insert n ?o"
      using later by (auto simp: complete_def Let_def split: option.splits)
    from assms(1,2) fields later show ?thesis by (auto simp: tracking_inv_def completed_def)
  qed
qed

lemma completed_initial_segment:
  assumes "tracking_inv q" "{1..n} \<subseteq> completed q" shows "n \<le> q_completed_through q"
proof (rule ccontr)
  assume "\<not> n \<le> q_completed_through q"
  then have "Suc (q_completed_through q) \<in> {1..n}" by simp
  with assms show False by (force simp: tracking_inv_def completed_def)
qed

end
