(* ===== verification/Cleanup_System.thy ===== *)
theory Cleanup_System
  imports Cleanup
begin

text \<open>
  The cleanup queue under all interleavings of lease holders, workers and drains: a step is one
  critical section of \<open>Cleanup\<close> executed by some thread. Besides the queue, the state holds what
  the threads own between critical sections (running jobs, jobs about to be completed, awaited
  outcomes in their channels, an unacknowledged failure delivery, the target of the drain that
  holds the \<open>drain\<close> mutex, permits of live leases and of calls that are creating one) and four histories that no operation reads:
  the failures produced, the failures reported, whether a residual database was possible, and the
  sequence numbers that were admitted without waiting for queue capacity.
\<close>

record 's cleanup_system =
  sys_queue :: "'s cleanup_queue"
  sys_running :: "cleanup_job list"
  sys_finishing :: "(nat \<times> deferred_cleanup_failure option) list"
  sys_channel :: "awaited_outcome list"
  sys_drain :: "nat option"
  sys_delivery :: "sequenced_failure list option"
  sys_held :: "nat list"
  sys_produced :: "sequenced_failure list"
  sys_reported :: "sequenced_failure list"
  sys_residual :: bool
  sys_bypass :: "nat list"

definition initial_system :: "'s semaphore \<Rightarrow> nat \<Rightarrow> nat \<Rightarrow> 's cleanup_system" where
  "initial_system sem budget queue_capacity =
     \<lparr>sys_queue = new_queue queue_capacity (DatabaseAdmission_new sem budget),
      sys_running = [], sys_finishing = [], sys_channel = [], sys_drain = None,
      sys_delivery = None, sys_held = [], sys_produced = [], sys_reported = [],
      sys_residual = False, sys_bypass = []\<rparr>"

definition residual_outcome :: "cleanup_outcome option \<Rightarrow> bool" where
  "residual_outcome operation \<longleftrightarrow> (case operation of None \<Rightarrow> True | Some out \<Rightarrow> may_leave_residual out)"

text \<open>The failures a step adds to the queue's list.\<close>

definition new_failures :: "'s cleanup_queue \<Rightarrow> 's cleanup_queue \<Rightarrow> sequenced_failure list" where
  "new_failures q q' = drop (length (q_failures q)) (q_failures q')"

text \<open>The number a submission was given, if it was accepted.\<close>

definition issued :: "'s cleanup_queue \<Rightarrow> 's cleanup_queue \<Rightarrow> nat list" where
  "issued q q' = (if q_next_sequence q' = q_next_sequence q then [] else [q_next_sequence q'])"

inductive cleanup_step :: "'s semaphore \<Rightarrow> 's cleanup_system \<Rightarrow> 's cleanup_system \<Rightarrow> bool"
  for sem :: "'s semaphore" where
  acquire:
    "admission_acquire sem n (q_admission (sys_queue s)) = Some (Inr m, a) \<Longrightarrow>
     cleanup_step sem s
       (s\<lparr>sys_queue := (sys_queue s)\<lparr>q_admission := a\<rparr>, sys_held := m # sys_held s\<rparr>)"
| submit_awaited:
    "sys_held s = h1 @ n # h2 \<Longrightarrow>
     submit_awaited_outcome sem name n (sys_queue s) = Some (r, q) \<Longrightarrow>
     cleanup_step sem s (s\<lparr>sys_queue := q, sys_held := h1 @ h2\<rparr>)"
| submit_deferred:
    "sys_held s = h1 @ n # h2 \<Longrightarrow>
     submit_deferred_outcome sem name (Some n) (sys_queue s) = Some (r, q) \<Longrightarrow>
     cleanup_step sem s (s\<lparr>sys_queue := q, sys_held := h1 @ h2\<rparr>)"
| submit_fallback:
    "sys_held s = h1 @ n # h2 \<Longrightarrow>
     submit_fallback_outcome sem name n (sys_queue s) = Some (r, q) \<Longrightarrow>
     cleanup_step sem s (s\<lparr>sys_queue := q, sys_held := h1 @ h2,
       sys_bypass := issued (sys_queue s) q @ sys_bypass s\<rparr>)"
| submit_prewarm:
    "submit_prewarmer sem name (sys_queue s) = Some (r, q) \<Longrightarrow>
     cleanup_step sem s (s\<lparr>sys_queue := q,
       sys_bypass := issued (sys_queue s) q @ sys_bypass s\<rparr>)"
| take_job:
    "next_job (sys_queue s) = Some (Some job, q) \<Longrightarrow>
     cleanup_step sem s (s\<lparr>sys_queue := q, sys_running := job # sys_running s\<rparr>)"
| settle:
    "sys_running s = r1 @ job # r2 \<Longrightarrow>
     settle_job sem job operation receiver (sys_queue s) = Return (failure, sent, q) \<Longrightarrow>
     cleanup_step sem s
       (s\<lparr>sys_queue := q, sys_running := r1 @ r2,
         sys_finishing := (job_sequence job, failure) # sys_finishing s,
         sys_channel := (case sent of None \<Rightarrow> [] | Some out \<Rightarrow> [out]) @ sys_channel s,
         sys_produced := sys_produced s @ new_failures (sys_queue s) q,
         sys_residual := sys_residual s \<or> residual_outcome operation\<rparr>)"
| finish_job:
    "sys_finishing s = f1 @ (n, failure) # f2 \<Longrightarrow> q = complete n failure (sys_queue s) \<Longrightarrow>
     cleanup_step sem s
       (s\<lparr>sys_queue := q, sys_finishing := f1 @ f2,
         sys_produced := sys_produced s @ new_failures (sys_queue s) q\<rparr>)"
| receive:
    "sys_channel s = c1 @ out # c2 \<Longrightarrow> awaited_finish out = Return r \<Longrightarrow>
     cleanup_step sem s (s\<lparr>sys_channel := c1 @ c2\<rparr>)"
| abandon_awaited:
    "sys_channel s = c1 @ out # c2 \<Longrightarrow> awaited_drop out (sys_queue s) = Return q \<Longrightarrow>
     cleanup_step sem s
       (s\<lparr>sys_queue := q, sys_channel := c1 @ c2,
         sys_produced := sys_produced s @ new_failures (sys_queue s) q\<rparr>)"
| begin_drain:
    "sys_drain s = None \<Longrightarrow>
     cleanup_step sem s (s\<lparr>sys_drain := Some (current_target (sys_queue s))\<rparr>)"
| begin_close:
    "sys_drain s = None \<Longrightarrow> submission_close (sys_queue s) = (target, q) \<Longrightarrow>
     cleanup_step sem s (s\<lparr>sys_queue := q, sys_drain := Some target\<rparr>)"
| drain_return:
    "sys_drain s = Some target \<Longrightarrow> wait_and_take target (sys_queue s) = Some (outcome, q) \<Longrightarrow>
     cleanup_step sem s
       (s\<lparr>sys_queue := q, sys_drain := None,
         sys_delivery := (case outcome of None \<Rightarrow> sys_delivery s | Some fs \<Rightarrow> Some fs)\<rparr>)"
| deliver:
    "sys_delivery s = Some fs \<Longrightarrow> drain_finish (Some fs) (sys_queue s) = (r, q) \<Longrightarrow>
     cleanup_step sem s
       (s\<lparr>sys_queue := q, sys_delivery := None, sys_reported := sys_reported s @ fs\<rparr>)"
| abandon_delivery:
    "sys_delivery s = Some fs \<Longrightarrow>
     cleanup_step sem s (s\<lparr>sys_queue := drain_drop (Some fs) (sys_queue s), sys_delivery := None\<rparr>)"
| release:
    "sys_held s = h1 @ n # h2 \<Longrightarrow>
     cleanup_step sem s (s\<lparr>sys_queue := drop_permit sem (Some n) (sys_queue s), sys_held := h1 @ h2\<rparr>)"
| close_gate:
    "cleanup_step sem s (s\<lparr>sys_queue :=
       (sys_queue s)\<lparr>q_admission := admission_close sem (q_admission (sys_queue s))\<rparr>\<rparr>)"

inductive_cases cleanup_stepE: "cleanup_step sem s t"

lemmas cleanup_step_cases = cleanup_stepE [consumes 1, case_names acquire submit_awaited
  submit_deferred submit_fallback submit_prewarm take_job settle finish_job receive
  abandon_awaited begin_drain begin_close drain_return deliver abandon_delivery release close_gate]

section \<open>Sequence numbers\<close>

definition pending :: "'s cleanup_system \<Rightarrow> nat list" where
  "pending s = map job_sequence (q_jobs (sys_queue s)) @ map job_sequence (sys_running s)
     @ map fst (sys_finishing s)"

text \<open>Issued numbers are pending exactly once or completed, never both.\<close>

definition seq_ok :: "nat list \<Rightarrow> nat set \<Rightarrow> nat \<Rightarrow> bool" where
  "seq_ok pend dn n \<longleftrightarrow> distinct pend \<and> set pend \<inter> dn = {} \<and> set pend \<union> dn = {1..n}"

definition sequence_inv :: "'s cleanup_system \<Rightarrow> bool" where
  "sequence_inv s \<longleftrightarrow> tracking_inv (sys_queue s)
     \<and> seq_ok (pending s) (completed (sys_queue s)) (q_next_sequence (sys_queue s))"

lemma seq_ok_mset: "mset p = mset p' \<Longrightarrow> seq_ok p c n \<longleftrightarrow> seq_ok p' c n"
  unfolding seq_ok_def by (metis mset_eq_imp_distinct_iff mset_eq_setD)

lemma seq_ok_issue:
  assumes "seq_ok p c n" "mset p' = add_mset (Suc n) (mset p)" shows "seq_ok p' c (Suc n)"
proof -
  have "Suc n \<notin> set p \<union> c" using assms(1) by (simp add: seq_ok_def)
  then have "seq_ok (Suc n # p) c (Suc n)"
    using assms(1) by (auto simp: seq_ok_def atLeastAtMostSuc_conv)
  then show ?thesis using seq_ok_mset[of "Suc n # p" p'] assms(2) by simp
qed

lemma seq_ok_complete:
  assumes "seq_ok p c n" "mset p = add_mset x (mset p')"
  shows "seq_ok p' (insert x c) n" "x \<notin> c" "0 < x"
proof -
  have "seq_ok (x # p') c n" using seq_ok_mset[of p "x # p'"] assms by simp
  then have *: "distinct (x # p')" "set (x # p') \<inter> c = {}" "set (x # p') \<union> c = {1..n}"
    by (auto simp: seq_ok_def)
  then show "seq_ok p' (insert x c) n" "x \<notin> c" by (auto simp: seq_ok_def)
  from *(3) have "x \<in> {1..n}" by (metis UnI1 list.set_intros(1))
  then show "0 < x" by simp
qed

text \<open>The queue as the sequence invariant sees it.\<close>

definition same_tracking :: "'s cleanup_queue \<Rightarrow> 's cleanup_queue \<Rightarrow> bool" where
  "same_tracking q q' \<longleftrightarrow> q_completed_through q' = q_completed_through q
     \<and> q_out_of_order q' = q_out_of_order q"

lemma same_tracking_completed:
  "same_tracking q q' \<Longrightarrow> completed q' = completed q \<and> tracking_inv q' = tracking_inv q"
  by (simp add: same_tracking_def completed_def tracking_inv_def)

lemma drop_permit_frame [simp]:
  "q_capacity (drop_permit sem p q) = q_capacity q" "q_jobs (drop_permit sem p q) = q_jobs q"
  "q_next_sequence (drop_permit sem p q) = q_next_sequence q" "q_closed (drop_permit sem p q) = q_closed q"
  "q_completed_through (drop_permit sem p q) = q_completed_through q"
  "q_out_of_order (drop_permit sem p q) = q_out_of_order q"
  "q_failures (drop_permit sem p q) = q_failures q"
  "q_delivery_in_flight (drop_permit sem p q) = q_delivery_in_flight q"
  by (auto simp: drop_permit_def split: option.splits)

lemma enqueue_cases:
  assumes "enqueue sem name c p a q = Some (r, q')"
  obtains (rejected) "q' = drop_permit sem p q" "r = Return (Inl CleanupQueueClosed) \<or> (\<exists>m. r = Panic m)"
  | (accepted) "r = Return (Inr ())" "\<not> q_closed q" "q_next_sequence q + 1 \<le> u64_max"
      "a = Backpressured \<Longrightarrow> length (q_jobs q) < q_capacity q"
      "q' = q\<lparr>q_next_sequence := q_next_sequence q + 1,
               q_jobs := q_jobs q @ [\<lparr>job_sequence = q_next_sequence q + 1, job_database_name = name,
                 job_completion = c, job_permit = p\<rparr>]\<rparr>"
  using assms
  by (auto simp: enqueue_def checked_add_u64_def split: if_splits option.splits)

lemma awaited_drop_cases:
  assumes "awaited_drop out q = Return q'"
  obtains (quiet) "q' = q" | (late) f where "q' = record_late_failure (aw_sequence out) f q"
  using assms
  by (auto simp: awaited_drop_def bind_exec_Return_iff split: option.splits sum.splits)

lemma awaited_drop_frame:
  assumes "awaited_drop out q = Return q'"
  shows "same_tracking q q' \<and> q_jobs q' = q_jobs q \<and> q_next_sequence q' = q_next_sequence q
     \<and> q_admission q' = q_admission q \<and> q_delivery_in_flight q' = q_delivery_in_flight q
     \<and> q_capacity q' = q_capacity q
     \<and> (\<exists>fs. q_failures q' = q_failures q @ fs \<and> map sf_sequence fs \<in> {[], [aw_sequence out]})"
  using assms
  by (cases rule: awaited_drop_cases) (auto simp: same_tracking_def record_late_failure_def)

lemma settle_job_cases:
  assumes "settle_job sem job operation receiver q = Return (failure, sent, q')"
  obtains q2 where "q2 = drop_permit sem (job_permit job)
       (if residual_outcome operation then q\<lparr>q_admission := admission_close sem (q_admission q)\<rparr> else q)"
    and "(q' = q2 \<and> (sent = None \<or> (failure = None \<and> (\<exists>out. sent = Some out \<and> aw_sequence out = job_sequence job))))
       \<or> (failure = None \<and> sent = None \<and> (\<exists>out. aw_sequence out = job_sequence job \<and> awaited_drop out q2 = Return q'))"
proof -
  let ?q2 = "drop_permit sem (job_permit job)
       (if residual_outcome operation then q\<lparr>q_admission := admission_close sem (q_admission q)\<rparr> else q)"
  show thesis
    by (rule that[of ?q2])
       (use assms in \<open>auto simp: settle_job_def Let_def residual_outcome_def bind_exec_Return_iff
          AwaitedCleanupOutcome_new_def split: option.splits if_splits cleanup_completion.splits\<close>)
qed

lemma settle_job_frame:
  assumes "settle_job sem job operation receiver q = Return (failure, sent, q')"
  shows "same_tracking q q' \<and> q_jobs q' = q_jobs q \<and> q_next_sequence q' = q_next_sequence q
     \<and> q_delivery_in_flight q' = q_delivery_in_flight q \<and> q_capacity q' = q_capacity q"
  using assms
proof (cases rule: settle_job_cases)
  case (1 q2)
  then have "same_tracking q q2 \<and> q_jobs q2 = q_jobs q \<and> q_next_sequence q2 = q_next_sequence q
     \<and> q_delivery_in_flight q2 = q_delivery_in_flight q \<and> q_capacity q2 = q_capacity q"
    by (auto simp: same_tracking_def)
  with 1(2) show ?thesis by (auto simp: same_tracking_def dest!: awaited_drop_frame)
qed

lemma sequence_inv_initial: "sequence_inv (initial_system sem b c)"
  by (simp add: sequence_inv_def seq_ok_def initial_system_def new_queue_def tracking_inv_def
      completed_def pending_def)

lemma sequence_inv_same:
  assumes "sequence_inv s" "same_tracking (sys_queue s) (sys_queue t)"
    and "q_next_sequence (sys_queue t) = q_next_sequence (sys_queue s)"
    and "mset (pending t) = mset (pending s)"
  shows "sequence_inv t"
  using assms same_tracking_completed[OF assms(2)] seq_ok_mset[OF assms(4)]
  by (simp add: sequence_inv_def)

lemma sequence_inv_enqueue:
  assumes "sequence_inv s" "enqueue sem name c p a (sys_queue s) = Some (r, q)"
  shows "sequence_inv (s\<lparr>sys_queue := drop_permit sem p' q, sys_held := h, sys_bypass := y\<rparr>)"
  using assms(2)
proof (cases rule: enqueue_cases)
  case rejected
  then show ?thesis
    by (intro sequence_inv_same[OF assms(1)]) (simp_all add: same_tracking_def pending_def)
next
  case accepted
  let ?t = "s\<lparr>sys_queue := drop_permit sem p' q, sys_held := h, sys_bypass := y\<rparr>"
  from accepted have "same_tracking (sys_queue s) (sys_queue ?t)" by (simp add: same_tracking_def)
  moreover from accepted
  have "mset (pending ?t) = add_mset (Suc (q_next_sequence (sys_queue s))) (mset (pending s))"
    by (simp add: pending_def)
  moreover from accepted
  have "q_next_sequence (sys_queue ?t) = Suc (q_next_sequence (sys_queue s))" by simp
  ultimately show ?thesis
    using assms(1) seq_ok_issue same_tracking_completed by (metis sequence_inv_def)
qed

lemma sequence_inv_finish:
  assumes "sequence_inv s" "sys_finishing s = f1 @ (n, failure) # f2"
  shows "sequence_inv (s\<lparr>sys_queue := complete n failure (sys_queue s), sys_finishing := f1 @ f2,
     sys_produced := p\<rparr>)"
proof -
  let ?t = "s\<lparr>sys_queue := complete n failure (sys_queue s), sys_finishing := f1 @ f2,
     sys_produced := p\<rparr>"
  have "mset (pending s) = add_mset n (mset (pending ?t))"
    using assms(2) by (simp add: pending_def)
  note ok = seq_ok_complete[OF assms(1)[unfolded sequence_inv_def, THEN conjunct2] this]
  from complete_tracking[OF assms(1)[unfolded sequence_inv_def, THEN conjunct1] ok(2,3)] ok(1)
  show ?thesis by (simp add: sequence_inv_def)
qed

lemma next_job_cases:
  "next_job q = Some (Some job, q') \<Longrightarrow>
     q_jobs q = job # q_jobs q' \<and> same_tracking q q' \<and> q_next_sequence q' = q_next_sequence q
     \<and> q_failures q' = q_failures q \<and> q_delivery_in_flight q' = q_delivery_in_flight q
     \<and> q_admission q' = q_admission q \<and> q_capacity q' = q_capacity q"
  by (auto simp: next_job_def same_tracking_def split: list.splits if_splits)

lemma sort_key_Nil_iff: "sort_key f xs = [] \<longleftrightarrow> xs = []"
  by (metis length_0_conv length_sort)

lemma wait_and_take_cases:
  assumes "wait_and_take t q = Some (outcome, q')"
  shows "t \<le> q_completed_through q" "\<not> q_delivery_in_flight q"
    and "mset (q_failures q) = mset (q_failures q') + mset (case outcome of None \<Rightarrow> [] | Some fs \<Rightarrow> fs)"
    and "\<forall>f \<in> set (q_failures q'). t < sf_sequence f"
    and "q_delivery_in_flight q' = (outcome \<noteq> None)"
    and "outcome = Some fs \<Longrightarrow> fs \<noteq> [] \<and> sorted (map sf_sequence fs) \<and> (\<forall>f \<in> set fs. sf_sequence f \<le> t)"
    and "same_tracking q q'" "q_jobs q' = q_jobs q" "q_next_sequence q' = q_next_sequence q"
    and "q_admission q' = q_admission q"
proof -
  let ?rep = "filter (\<lambda>f. sf_sequence f \<le> t) (q_failures q)"
  let ?ret = "filter (\<lambda>f. \<not> sf_sequence f \<le> t) (q_failures q)"
  have part: "mset (q_failures q) = mset ?ret + mset ?rep"
    by (simp add: union_commute multiset_partition[symmetric])
  note [simp] = wait_and_take_def Let_def sort_key_Nil_iff
  from assms show "t \<le> q_completed_through q" "\<not> q_delivery_in_flight q"
    "\<forall>f \<in> set (q_failures q'). t < sf_sequence f" "q_delivery_in_flight q' = (outcome \<noteq> None)"
    "same_tracking q q'" "q_jobs q' = q_jobs q" "q_next_sequence q' = q_next_sequence q"
    "q_admission q' = q_admission q"
    by (auto simp: same_tracking_def split: if_splits)
  from assms show "outcome = Some fs \<Longrightarrow> fs \<noteq> [] \<and> sorted (map sf_sequence fs) \<and> (\<forall>f \<in> set fs. sf_sequence f \<le> t)"
    by (auto split: if_splits)
  show "mset (q_failures q) = mset (q_failures q') + mset (case outcome of None \<Rightarrow> [] | Some fs \<Rightarrow> fs)"
  proof (cases "?rep = []")
    case True
    with assms part show ?thesis by (auto split: if_splits)
  next
    case False
    with assms part show ?thesis by (auto split: if_splits)
  qed
qed

lemma sequence_inv_step:
  assumes "sequence_inv s" "cleanup_step sem s t" shows "sequence_inv t"
  using assms(2)
proof (cases rule: cleanup_step_cases)
  case (submit_awaited h1 n h2 name r q)
  with sequence_inv_enqueue[OF assms(1), where p' = None and y = "sys_bypass s"] show ?thesis
    by (simp add: submit_awaited_outcome_def drop_permit_def[of _ None])
next
  case (submit_deferred h1 n h2 name r q)
  then obtain q0 where "enqueue sem name Deferred None Backpressured (sys_queue s) = Some (r, q0)"
    "q = drop_permit sem (Some n) q0" by (auto simp: submit_deferred_outcome_def)
  with sequence_inv_enqueue[OF assms(1) this(1), where y = "sys_bypass s"] submit_deferred(1) show ?thesis by simp
next
  case (submit_fallback h1 n h2 name r q)
  with sequence_inv_enqueue[OF assms(1), where p' = None] show ?thesis
    by (simp add: submit_fallback_outcome_def drop_permit_def[of _ None])
next
  case (submit_prewarm name r q)
  with sequence_inv_enqueue[OF assms(1), where p' = None and h = "sys_held s"] show ?thesis
    by (simp add: submit_prewarmer_def drop_permit_def[of _ None])
next
  case (finish_job f1 n failure f2)
  with sequence_inv_finish[OF assms(1)] show ?thesis by simp
next
  case (take_job job q)
  from next_job_cases[OF take_job(2)] take_job(1) show ?thesis
    by (intro sequence_inv_same[OF assms(1)]) (simp_all add: pending_def)
next
  case (settle r1 job r2 operation receiver failure sent q)
  from settle_job_frame[OF settle(3)] settle(1,2) show ?thesis
    by (intro sequence_inv_same[OF assms(1)]) (auto simp: pending_def)
next
  case (abandon_awaited c1 out c2 q)
  from awaited_drop_frame[OF abandon_awaited(3)] abandon_awaited(1) show ?thesis
    by (intro sequence_inv_same[OF assms(1)]) (auto simp: pending_def)
next
  case (drain_return target outcome q)
  from wait_and_take_cases[OF drain_return(3)] drain_return(1) show ?thesis
    by (intro sequence_inv_same[OF assms(1)]) (auto simp: pending_def)
qed (auto intro!: sequence_inv_same[OF assms(1)] simp: pending_def same_tracking_def submission_close_def
      drain_finish_def acknowledge_delivery_def drain_drop_def restore_delivery_def)

section \<open>Failures: conservation and uniqueness\<close>

definition delivery_list :: "'s cleanup_system \<Rightarrow> sequenced_failure list" where
  "delivery_list s = (case sys_delivery s of None \<Rightarrow> [] | Some fs \<Rightarrow> fs)"

definition failure_inv :: "'s cleanup_system \<Rightarrow> bool" where
  "failure_inv s \<longleftrightarrow>
     mset (sys_produced s) = mset (q_failures (sys_queue s)) + mset (delivery_list s) + mset (sys_reported s)
   \<and> (q_delivery_in_flight (sys_queue s) \<longleftrightarrow> sys_delivery s \<noteq> None)"

lemma new_failures_append: "q_failures q' = q_failures q @ fs \<Longrightarrow> new_failures q q' = fs"
  by (simp add: new_failures_def)

lemma failure_inv_grow:
  assumes "failure_inv s" "q_failures q = q_failures (sys_queue s) @ fs"
    and "q_delivery_in_flight q = q_delivery_in_flight (sys_queue s)"
    and "sys_queue t = q" "sys_produced t = sys_produced s @ fs"
    and "sys_delivery t = sys_delivery s" "sys_reported t = sys_reported s"
  shows "failure_inv t"
  using assms by (simp add: failure_inv_def delivery_list_def)

lemma settle_job_failures:
  assumes "settle_job sem job operation receiver q = Return (failure, sent, q')"
  obtains fs where "q_failures q' = q_failures q @ fs"
    and "mset (map sf_sequence fs) + mset (case failure of None \<Rightarrow> [] | Some _ \<Rightarrow> [job_sequence job])
       + mset (case sent of None \<Rightarrow> [] | Some out \<Rightarrow> [aw_sequence out]) \<subseteq># {#job_sequence job#}"
  using assms
proof (cases rule: settle_job_cases)
  case (1 q2)
  then have q2: "q_failures q2 = q_failures q" by auto
  from 1(2) show ?thesis
  proof
    assume "q' = q2 \<and> (sent = None \<or> failure = None \<and> (\<exists>out. sent = Some out \<and> aw_sequence out = job_sequence job))"
    with q2 that[of "[]"] show ?thesis by (cases failure) auto
  next
    assume "failure = None \<and> sent = None \<and> (\<exists>out. aw_sequence out = job_sequence job \<and> awaited_drop out q2 = Return q')"
    with q2 that awaited_drop_frame[of _ q2 q'] show ?thesis by (elim conjE exE) fastforce
  qed
qed

lemma enqueue_failures:
  "enqueue sem name c p a q = Some (r, q') \<Longrightarrow>
     q_failures q' = q_failures q \<and> q_delivery_in_flight q' = q_delivery_in_flight q"
  by (erule enqueue_cases) auto

lemmas submit_defs = submit_awaited_outcome_def submit_deferred_outcome_def
  submit_fallback_outcome_def submit_prewarmer_def

lemma failure_inv_initial: "failure_inv (initial_system sem b c)"
  by (simp add: failure_inv_def initial_system_def new_queue_def delivery_list_def)

lemma failure_inv_step:
  assumes "failure_inv s" "cleanup_step sem s t" shows "failure_inv t"
  using assms(2)
proof (cases rule: cleanup_step_cases)
  case (settle r1 job r2 operation receiver failure sent q)
  obtain fs where fs: "q_failures q = q_failures (sys_queue s) @ fs"
    using settle_job_failures[OF settle(3)] by blast
  with settle_job_frame[OF settle(3)] settle(1) show ?thesis
    by (intro failure_inv_grow[OF assms(1) fs]) (simp_all add: new_failures_append)
next
  case (finish_job f1 n failure f2)
  with complete_failures[of n failure "sys_queue s"] show ?thesis
    by (intro failure_inv_grow[OF assms(1)]) (simp_all add: new_failures_append)
next
  case (abandon_awaited c1 out c2 q)
  obtain fs where fs: "q_failures q = q_failures (sys_queue s) @ fs"
    using awaited_drop_frame[OF abandon_awaited(3)] by blast
  with awaited_drop_frame[OF abandon_awaited(3)] abandon_awaited(1) show ?thesis
    by (intro failure_inv_grow[OF assms(1) fs]) (simp_all add: new_failures_append)
next
  case (drain_return target outcome q)
  note w = wait_and_take_cases[OF drain_return(3)]
  with assms(1) drain_return(1) show ?thesis
    by (cases outcome) (auto simp: failure_inv_def delivery_list_def)
next
  case (deliver fs r q)
  with assms(1) show ?thesis
    by (auto simp: failure_inv_def delivery_list_def drain_finish_def acknowledge_delivery_def)
next
  case (abandon_delivery fs)
  with assms(1) show ?thesis
    by (auto simp: failure_inv_def delivery_list_def drain_drop_def restore_delivery_def)
next
  case (take_job job q)
  with assms(1) next_job_cases[OF take_job(2)] show ?thesis
    by (simp add: failure_inv_def delivery_list_def)
qed (use assms(1) in \<open>auto simp: failure_inv_def delivery_list_def submit_defs submission_close_def
      dest!: enqueue_failures\<close>)

text \<open>Every sequence number can stand behind at most one failure.\<close>

definition failure_sources :: "'s cleanup_system \<Rightarrow> nat list" where
  "failure_sources s = map sf_sequence (sys_produced s)
     @ map job_sequence (q_jobs (sys_queue s)) @ map job_sequence (sys_running s)
     @ map fst (filter (\<lambda>(n, f). f \<noteq> None) (sys_finishing s))
     @ map aw_sequence (sys_channel s)"

definition unique_inv :: "'s cleanup_system \<Rightarrow> bool" where
  "unique_inv s \<longleftrightarrow> distinct (failure_sources s)
     \<and> (\<forall>x \<in> set (failure_sources s). x \<le> q_next_sequence (sys_queue s))"

lemma distinct_sub_mset:
  assumes "mset xs \<subseteq># mset ys" "distinct ys" shows "distinct xs"
proof -
  obtain zs where "mset ys = mset (xs @ zs)"
    using assms(1) by (metis ex_mset mset_append mset_subset_eq_exists_conv)
  then have "distinct (xs @ zs)" using assms(2) by (metis mset_eq_imp_distinct_iff)
  then show ?thesis by simp
qed

lemma unique_inv_shrink:
  assumes "unique_inv s" "mset (failure_sources t) \<subseteq># mset (failure_sources s)"
    and "q_next_sequence (sys_queue t) = q_next_sequence (sys_queue s)"
  shows "unique_inv t"
  using assms distinct_sub_mset[OF assms(2)] set_mset_mono[OF assms(2)]
  by (auto simp: unique_inv_def)

lemma unique_inv_issue:
  assumes "unique_inv s"
    and "mset (failure_sources t) = add_mset (Suc (q_next_sequence (sys_queue s))) (mset (failure_sources s))"
    and "q_next_sequence (sys_queue t) = Suc (q_next_sequence (sys_queue s))"
  shows "unique_inv t"
proof -
  let ?n = "Suc (q_next_sequence (sys_queue s))"
  have "distinct (?n # failure_sources s)" using assms(1) by (auto simp: unique_inv_def)
  moreover have "mset (failure_sources t) = mset (?n # failure_sources s)" using assms(2) by simp
  ultimately have "distinct (failure_sources t)" "set (failure_sources t) = set (?n # failure_sources s)"
    by (metis mset_eq_imp_distinct_iff, metis mset_eq_setD)
  with assms(1,3) show ?thesis by (auto simp: unique_inv_def intro: le_SucI)
qed

lemma unique_inv_initial: "unique_inv (initial_system sem b c)"
  by (simp add: unique_inv_def failure_sources_def initial_system_def new_queue_def)

lemma unique_inv_enqueue:
  assumes "unique_inv s" "enqueue sem name c p a (sys_queue s) = Some (r, q)"
  shows "unique_inv (s\<lparr>sys_queue := drop_permit sem p' q, sys_held := h, sys_bypass := y\<rparr>)"
  using assms(2)
proof (cases rule: enqueue_cases)
  case rejected
  then show ?thesis
    by (intro unique_inv_shrink[OF assms(1)]) (simp_all add: failure_sources_def)
next
  case accepted
  then show ?thesis by (intro unique_inv_issue[OF assms(1)]) (simp_all add: failure_sources_def)
qed

lemma mset_settle_sources:
  assumes "mset fs + mset (case failure of None \<Rightarrow> [] | Some (_ :: 'a) \<Rightarrow> [n])
       + mset (case sent of None \<Rightarrow> [] | Some (out :: awaited_outcome) \<Rightarrow> [aw_sequence out]) \<subseteq># {#n#}"
  shows "mset fs + (mset (map fst (filter (\<lambda>(n, f). f \<noteq> None) [(n, failure)]))
       + mset (map aw_sequence (case sent of None \<Rightarrow> [] | Some out \<Rightarrow> [out]))) \<subseteq># {#n#}"
  using assms by (auto split: option.splits simp: union_assoc)

lemma unique_inv_step:
  assumes "unique_inv s" "cleanup_step sem s t" shows "unique_inv t"
  using assms(2)
proof (cases rule: cleanup_step_cases)
  case (submit_awaited h1 n h2 name r q)
  with unique_inv_enqueue[OF assms(1), where p' = None and y = "sys_bypass s"] show ?thesis
    by (simp add: submit_awaited_outcome_def drop_permit_def[of _ None])
next
  case (submit_deferred h1 n h2 name r q)
  then obtain q0 where "enqueue sem name Deferred None Backpressured (sys_queue s) = Some (r, q0)"
    "q = drop_permit sem (Some n) q0" by (auto simp: submit_deferred_outcome_def)
  with unique_inv_enqueue[OF assms(1) this(1), where y = "sys_bypass s"] submit_deferred(1) show ?thesis by simp
next
  case (submit_fallback h1 n h2 name r q)
  with unique_inv_enqueue[OF assms(1), where p' = None] show ?thesis
    by (simp add: submit_fallback_outcome_def drop_permit_def[of _ None])
next
  case (submit_prewarm name r q)
  with unique_inv_enqueue[OF assms(1), where p' = None and h = "sys_held s"] show ?thesis
    by (simp add: submit_prewarmer_def drop_permit_def[of _ None])
next
  case (settle r1 job r2 operation receiver failure sent q)
  obtain fs where fs: "q_failures q = q_failures (sys_queue s) @ fs"
    and sub: "mset (map sf_sequence fs) + mset (case failure of None \<Rightarrow> [] | Some _ \<Rightarrow> [job_sequence job])
       + mset (case sent of None \<Rightarrow> [] | Some out \<Rightarrow> [aw_sequence out]) \<subseteq># {#job_sequence job#}"
    using settle_job_failures[OF settle(3)] by blast
  let ?X = "mset (map sf_sequence fs) + (mset (map fst (filter (\<lambda>(n, f). f \<noteq> None) [(job_sequence job, failure)]))
       + mset (map aw_sequence (case sent of None \<Rightarrow> [] | Some out \<Rightarrow> [out])))"
  let ?R = "mset (failure_sources (s\<lparr>sys_running := r1 @ r2\<rparr>))"
  have "mset (failure_sources s) = ?R + {#job_sequence job#}"
    using settle(2) by (simp add: failure_sources_def)
  moreover have "mset (failure_sources t) = ?R + ?X"
    using settle_job_frame[OF settle(3)] settle(1)
    by (simp add: failure_sources_def new_failures_append[OF fs])
  ultimately have "mset (failure_sources t) \<subseteq># mset (failure_sources s)"
    using mset_settle_sources[OF sub] by (simp only: subset_mset.add_left_mono)
  with settle_job_frame[OF settle(3)] settle(1) show ?thesis
    by (intro unique_inv_shrink[OF assms(1)]) simp_all
next
  case (finish_job f1 n failure f2)
  with new_failures_append[OF complete_failures[of n failure "sys_queue s"]] show ?thesis
    by (intro unique_inv_shrink[OF assms(1)]) (auto simp: failure_sources_def split: option.splits)
next
  case (receive c1 out c2 r)
  then show ?thesis
    by (intro unique_inv_shrink[OF assms(1)]) (simp_all add: failure_sources_def)
next
  case (abandon_awaited c1 out c2 q)
  note frm = awaited_drop_frame[OF abandon_awaited(3)]
  obtain fs where fs: "q_failures q = q_failures (sys_queue s) @ fs"
    and sub: "map sf_sequence fs \<in> {[], [aw_sequence out]}" using frm by metis
  let ?R = "mset (failure_sources (s\<lparr>sys_channel := c1 @ c2\<rparr>))"
  have "mset (failure_sources s) = ?R + {#aw_sequence out#}"
    using abandon_awaited(2) by (simp add: failure_sources_def)
  moreover have "mset (failure_sources t) = ?R + mset (map sf_sequence fs)"
    using frm abandon_awaited(1) by (simp add: failure_sources_def new_failures_append[OF fs])
  moreover have "mset (map sf_sequence fs) \<subseteq># {#aw_sequence out#}" using sub by auto
  ultimately have "mset (failure_sources t) \<subseteq># mset (failure_sources s)"
    by (simp only: subset_mset.add_left_mono)
  with frm abandon_awaited(1) show ?thesis
    by (intro unique_inv_shrink[OF assms(1)]) simp_all
next
  case (take_job job q)
  with next_job_cases[OF take_job(2)] show ?thesis
    by (intro unique_inv_shrink[OF assms(1)]) (simp_all add: failure_sources_def)
next
  case (drain_return target outcome q)
  with wait_and_take_cases[OF drain_return(3)] show ?thesis
    by (intro unique_inv_shrink[OF assms(1)]) (simp_all add: failure_sources_def)
qed (auto intro!: unique_inv_shrink[OF assms(1)] simp: failure_sources_def submission_close_def
      drain_finish_def acknowledge_delivery_def drain_drop_def restore_delivery_def)

section \<open>Permits and the admission gate\<close>

definition permits_of :: "cleanup_job \<Rightarrow> nat" where
  "permits_of job = (case job_permit job of None \<Rightarrow> 0 | Some n \<Rightarrow> n)"

text \<open>Permits out of the semaphore: held by leases, or retained by waiting and running jobs.\<close>

definition permits_out :: "'s cleanup_system \<Rightarrow> nat" where
  "permits_out s = sum_list (sys_held s) + sum_list (map permits_of (q_jobs (sys_queue s)))
     + sum_list (map permits_of (sys_running s))"

definition permit_inv :: "'s semaphore \<Rightarrow> nat \<Rightarrow> 's cleanup_system \<Rightarrow> bool" where
  "permit_inv sem budget s \<longleftrightarrow>
     sem_available sem (q_admission (sys_queue s)) + permits_out s = budget
   \<and> (sys_residual s \<longrightarrow> sem_is_closed sem (q_admission (sys_queue s)))"

lemma drop_permit_available:
  assumes "semaphore_laws sem"
  shows "sem_available sem (q_admission (drop_permit sem p q))
      = sem_available sem (q_admission q) + (case p of None \<Rightarrow> 0 | Some n \<Rightarrow> n)"
    and "sem_is_closed sem (q_admission (drop_permit sem p q)) = sem_is_closed sem (q_admission q)"
  using assms by (auto simp: drop_permit_def semaphore_lawsD split: option.splits)

lemma enqueue_permits:
  assumes "semaphore_laws sem" "enqueue sem name c p a q = Some (r, q')"
  shows "sem_available sem (q_admission q') + sum_list (map permits_of (q_jobs q'))
      = sem_available sem (q_admission q) + sum_list (map permits_of (q_jobs q))
        + (case p of None \<Rightarrow> 0 | Some n \<Rightarrow> n)"
    and "sem_is_closed sem (q_admission q') = sem_is_closed sem (q_admission q)"
  using assms(2)
  by (cases rule: enqueue_cases; simp add: drop_permit_available[OF assms(1)] permits_of_def)+

lemma settle_job_permits:
  assumes "semaphore_laws sem" "settle_job sem job operation receiver q = Return (failure, sent, q')"
  shows "sem_available sem (q_admission q') = sem_available sem (q_admission q) + permits_of job"
    and "sem_is_closed sem (q_admission q') \<longleftrightarrow> residual_outcome operation \<or> sem_is_closed sem (q_admission q)"
proof -
  from assms(2) obtain q2 where q2: "q2 = drop_permit sem (job_permit job)
       (if residual_outcome operation then q\<lparr>q_admission := admission_close sem (q_admission q)\<rparr> else q)"
    and "q_admission q' = q_admission q2"
    by (rule settle_job_cases) (metis awaited_drop_frame)
  with assms(1) show "sem_available sem (q_admission q') = sem_available sem (q_admission q) + permits_of job"
    "sem_is_closed sem (q_admission q') \<longleftrightarrow> residual_outcome operation \<or> sem_is_closed sem (q_admission q)"
    by (auto simp: drop_permit_available permits_of_def admission_close_def semaphore_lawsD)
qed

lemma permit_inv_initial: "semaphore_laws sem \<Longrightarrow> permit_inv sem b (initial_system sem b c)"
  by (simp add: permit_inv_def permits_out_def initial_system_def new_queue_def
      DatabaseAdmission_new_def semaphore_lawsD)

lemma permit_inv_step:
  assumes laws: "semaphore_laws sem" and inv: "permit_inv sem b s" and step: "cleanup_step sem s t"
  shows "permit_inv sem b t"
  using step
proof (cases rule: cleanup_step_cases)
  case (acquire n m a)
  then have "sem_acquire sem n (q_admission (sys_queue s)) = Acquired a" "m = n"
    by (auto simp: admission_acquire_def split: acquire_poll.splits)
  with semaphore_lawsD(3)[OF laws this(1)] inv acquire(1) show ?thesis
    by (auto simp: permit_inv_def permits_out_def)
next
  case (submit_awaited h1 n h2 name r q)
  with enqueue_permits[OF laws, of name Awaited "Some n"] inv show ?thesis
    by (fastforce simp: permit_inv_def permits_out_def submit_awaited_outcome_def)
next
  case (submit_deferred h1 n h2 name r q)
  then obtain q0 where "enqueue sem name Deferred None Backpressured (sys_queue s) = Some (r, q0)"
    "q = drop_permit sem (Some n) q0" by (auto simp: submit_deferred_outcome_def)
  with enqueue_permits[OF laws this(1)] inv submit_deferred(1,2) show ?thesis
    by (simp add: permit_inv_def permits_out_def drop_permit_available[OF laws])
next
  case (submit_fallback h1 n h2 name r q)
  with enqueue_permits[OF laws, of name Deferred "Some n"] inv show ?thesis
    by (fastforce simp: permit_inv_def permits_out_def submit_fallback_outcome_def)
next
  case (submit_prewarm name r q)
  with enqueue_permits[OF laws, of name Deferred None] inv show ?thesis
    by (fastforce simp: permit_inv_def permits_out_def submit_prewarmer_def)
next
  case (settle r1 job r2 operation receiver failure sent q)
  with settle_job_permits[OF laws settle(3)] settle_job_frame[OF settle(3)] inv show ?thesis
    by (auto simp: permit_inv_def permits_out_def)
next
  case (take_job job q)
  with next_job_cases[OF take_job(2)] inv show ?thesis by (simp add: permit_inv_def permits_out_def)
next
  case (abandon_awaited c1 out c2 q)
  with awaited_drop_frame[OF abandon_awaited(3)] inv show ?thesis
    by (simp add: permit_inv_def permits_out_def)
next
  case (drain_return target outcome q)
  with wait_and_take_cases[OF drain_return(3)] inv show ?thesis
    by (simp add: permit_inv_def permits_out_def)
next
  case (release h1 n h2)
  with inv show ?thesis by (simp add: permit_inv_def permits_out_def drop_permit_available[OF laws])
next
  case close_gate
  with inv show ?thesis by (simp add: permit_inv_def permits_out_def admission_close_def semaphore_lawsD[OF laws])
qed (use inv in \<open>auto simp: permit_inv_def permits_out_def submission_close_def drain_finish_def
      acknowledge_delivery_def drain_drop_def restore_delivery_def\<close>)

section \<open>Backpressure\<close>

definition waiting_backpressured :: "'s cleanup_system \<Rightarrow> cleanup_job list" where
  "waiting_backpressured s =
     filter (\<lambda>j. job_sequence j \<notin> set (sys_bypass s)) (q_jobs (sys_queue s))"

definition backpressure_inv :: "'s cleanup_system \<Rightarrow> bool" where
  "backpressure_inv s \<longleftrightarrow> length (waiting_backpressured s) \<le> q_capacity (sys_queue s)"

lemma backpressure_initial: "backpressure_inv (initial_system sem b c)"
  by (simp add: backpressure_inv_def waiting_backpressured_def initial_system_def new_queue_def)

lemma filter_length_mono: "set ys \<subseteq> set xs \<Longrightarrow>
   length (filter (\<lambda>j. f j \<notin> set xs) l) \<le> length (filter (\<lambda>j. f j \<notin> set ys) l)"
  by (induction l) auto

lemma backpressure_inv_same:
  assumes "backpressure_inv s" "q_jobs (sys_queue t) = q_jobs (sys_queue s)"
    and "q_capacity (sys_queue t) = q_capacity (sys_queue s)" "sys_bypass t = sys_bypass s"
  shows "backpressure_inv t"
  using assms by (simp add: backpressure_inv_def waiting_backpressured_def)

lemma backpressure_inv_bounded:
  assumes "backpressure_inv s" "enqueue sem name c p Backpressured (sys_queue s) = Some (r, q)"
  shows "backpressure_inv (s\<lparr>sys_queue := drop_permit sem p' q, sys_held := h\<rparr>)"
  using assms(2)
proof (cases rule: enqueue_cases)
  case rejected
  with assms(1) show ?thesis by (intro backpressure_inv_same[OF assms(1)]) simp_all
next
  case accepted
  have "length (filter (\<lambda>j. job_sequence j \<notin> set (sys_bypass s)) (q_jobs (sys_queue s)))
      < q_capacity (sys_queue s)"
    by (rule le_less_trans[OF length_filter_le]) (use accepted in simp)
  with accepted show ?thesis by (simp add: backpressure_inv_def waiting_backpressured_def)
qed

lemma backpressure_inv_bypass:
  assumes "backpressure_inv s" "enqueue sem name c p a (sys_queue s) = Some (r, q)"
  shows "backpressure_inv (s\<lparr>sys_queue := q, sys_held := h,
     sys_bypass := issued (sys_queue s) q @ sys_bypass s\<rparr>)"
  using assms(2)
proof (cases rule: enqueue_cases)
  case rejected
  with assms(1) show ?thesis by (intro backpressure_inv_same[OF assms(1)]) (simp_all add: issued_def)
next
  case accepted
  then have "issued (sys_queue s) q = [Suc (q_next_sequence (sys_queue s))]" by (simp add: issued_def)
  moreover have "length (filter (\<lambda>j. job_sequence j \<notin> set (Suc (q_next_sequence (sys_queue s)) # sys_bypass s))
      (q_jobs (sys_queue s))) \<le> length (waiting_backpressured s)"
    unfolding waiting_backpressured_def by (rule filter_length_mono) auto
  ultimately show ?thesis using accepted assms(1)
    by (auto simp: backpressure_inv_def waiting_backpressured_def)
qed

lemma backpressure_step:
  assumes "backpressure_inv s" "cleanup_step sem s t" shows "backpressure_inv t"
  using assms(2)
proof (cases rule: cleanup_step_cases)
  case (submit_awaited h1 n h2 name r q)
  with backpressure_inv_bounded[OF assms(1), where p' = None] show ?thesis
    by (simp add: submit_awaited_outcome_def drop_permit_def[of _ None])
next
  case (submit_deferred h1 n h2 name r q)
  then obtain q0 where "enqueue sem name Deferred None Backpressured (sys_queue s) = Some (r, q0)"
    "q = drop_permit sem (Some n) q0" by (auto simp: submit_deferred_outcome_def)
  with backpressure_inv_bounded[OF assms(1) this(1)] submit_deferred(1) show ?thesis by simp
next
  case (submit_fallback h1 n h2 name r q)
  with backpressure_inv_bypass[OF assms(1)] show ?thesis by (simp add: submit_fallback_outcome_def)
next
  case (submit_prewarm name r q)
  with backpressure_inv_bypass[OF assms(1), where h = "sys_held s"] show ?thesis
    by (simp add: submit_prewarmer_def)
next
  case (take_job job q)
  with next_job_cases[OF take_job(2)] assms(1) show ?thesis
    by (auto simp: backpressure_inv_def waiting_backpressured_def split: if_splits)
next
  case (settle r1 job r2 operation receiver failure sent q)
  with settle_job_frame[OF settle(3)] show ?thesis
    by (intro backpressure_inv_same[OF assms(1)]) simp_all
next
  case (abandon_awaited c1 out c2 q)
  with awaited_drop_frame[OF abandon_awaited(3)] show ?thesis
    by (intro backpressure_inv_same[OF assms(1)]) simp_all
next
  case (drain_return target outcome q)
  then show ?thesis
    by (intro backpressure_inv_same[OF assms(1)]) (auto simp: wait_and_take_def Let_def split: if_splits)
qed (auto intro!: backpressure_inv_same[OF assms(1)] simp: submission_close_def drain_finish_def
      acknowledge_delivery_def drain_drop_def restore_delivery_def)

section \<open>Awaited outcomes never panic\<close>

definition channel_inv :: "'s cleanup_system \<Rightarrow> bool" where
  "channel_inv s \<longleftrightarrow>
     (\<forall>out \<in> set (sys_channel s). \<exists>r n name. out = AwaitedCleanupOutcome_new r n name)"

lemma awaited_new_returns [no_panic]:
  "returns (awaited_finish (AwaitedCleanupOutcome_new r n name))"
  "returns (awaited_drop (AwaitedCleanupOutcome_new r n name) q)"
  by (auto simp: AwaitedCleanupOutcome_new_def awaited_finish_def awaited_drop_def split: sum.splits)

lemma awaited_drop_then_returns:
  "returns (bind_exec (awaited_drop (AwaitedCleanupOutcome_new r n name) q) (\<lambda>q'. Return (f q')))"
  using awaited_new_returns(2)[of r n name q] by (auto simp: returns_iff)

lemma settle_job_returns [no_panic]: "returns (settle_job sem job operation receiver q)"
  unfolding settle_job_def Let_def
  by (simp add: awaited_drop_then_returns split: cleanup_completion.split)

lemma settle_job_channel:
  assumes "settle_job sem job operation receiver q = Return (failure, sent, q')" "sent = Some out"
  shows "\<exists>r n name. out = AwaitedCleanupOutcome_new r n name"
  using assms
  by (auto simp: settle_job_def Let_def bind_exec_Return_iff
      split: cleanup_completion.splits if_splits)

lemma channel_inv_initial: "channel_inv (initial_system sem b c)"
  by (simp add: channel_inv_def initial_system_def)

lemma channel_inv_step:
  assumes "channel_inv s" "cleanup_step sem s t" shows "channel_inv t"
  using assms(2)
proof (cases rule: cleanup_step_cases)
  case (settle r1 job r2 operation receiver failure sent q)
  with assms(1) settle_job_channel[OF settle(3)] show ?thesis
    by (auto simp: channel_inv_def split: option.splits)
qed (use assms(1) in \<open>auto simp: channel_inv_def\<close>)

section \<open>All invariants together\<close>

definition system_inv :: "'s semaphore \<Rightarrow> nat \<Rightarrow> 's cleanup_system \<Rightarrow> bool" where
  "system_inv sem budget s \<longleftrightarrow> sequence_inv s \<and> failure_inv s \<and> unique_inv s
     \<and> backpressure_inv s \<and> channel_inv s \<and> (semaphore_laws sem \<longrightarrow> permit_inv sem budget s)"

definition start_of :: "'s semaphore \<Rightarrow> nat \<Rightarrow> nat \<Rightarrow> 's cleanup_system \<Rightarrow> bool" where
  "start_of sem budget queue_capacity s \<longleftrightarrow> s = initial_system sem budget queue_capacity"

interpretation cleanup_sys: invariant_system "start_of sem b c" "cleanup_step sem" "system_inv sem b"
  for sem :: "'s semaphore" and b c
proof
  fix s :: "'s cleanup_system"
  assume "start_of sem b c s"
  then show "system_inv sem b s"
    unfolding start_of_def
    by (simp add: system_inv_def sequence_inv_initial failure_inv_initial unique_inv_initial
        backpressure_initial permit_inv_initial channel_inv_initial)
next
  fix s t :: "'s cleanup_system"
  assume inv: "system_inv sem b s" and step: "cleanup_step sem s t"
  from inv show "system_inv sem b t"
    unfolding system_inv_def
    by (auto intro: sequence_inv_step[OF _ step] failure_inv_step[OF _ step] unique_inv_step[OF _ step]
          backpressure_step[OF _ step] channel_inv_step[OF _ step] permit_inv_step[OF _ _ step])
qed

abbreviation cleanup_reachable :: "'s semaphore \<Rightarrow> nat \<Rightarrow> nat \<Rightarrow> 's cleanup_system \<Rightarrow> bool" where
  "cleanup_reachable sem b c \<equiv> reachable (start_of sem b c) (cleanup_step sem)"

section \<open>Progress of the workers\<close>

definition work_left :: "'s cleanup_system \<Rightarrow> nat" where
  "work_left s = 3 * length (q_jobs (sys_queue s)) + 2 * length (sys_running s)
     + length (sys_finishing s)"

lemma work_left_zero: "work_left s = 0 \<longleftrightarrow> pending s = []"
  by (auto simp: work_left_def pending_def)

text \<open>A worker can always move: take a waiting job, settle a running one, complete a settled one.\<close>

lemma worker_progress:
  assumes "pending s \<noteq> []"
  shows "\<exists>t. cleanup_step sem s t \<and> work_left t < work_left s \<and> sys_drain t = sys_drain s
     \<and> sys_delivery t = sys_delivery s"
proof -
  consider (finish) n f fs where "sys_finishing s = (n, f) # fs"
    | (run) j js where "sys_finishing s = []" "sys_running s = j # js"
    | (pick) j js where "sys_finishing s = []" "sys_running s = []" "q_jobs (sys_queue s) = j # js"
    using assms
    by (cases "sys_finishing s"; cases "sys_running s"; cases "q_jobs (sys_queue s)")
       (auto simp: pending_def)
  then show ?thesis
  proof cases
    case finish
    show ?thesis
      by (rule exI, rule conjI, rule cleanup_step.finish_job[of s "[]" n f fs, OF _ refl])
         (use finish in \<open>auto simp: work_left_def\<close>)
  next
    case run
    obtain failure sent q where r: "settle_job sem j (Some Succeeded) True (sys_queue s) = Return (failure, sent, q)"
      using settle_job_returns by (metis returns_iff prod_cases3)
    show ?thesis
      by (rule exI, rule conjI, rule cleanup_step.settle[of s "[]" j js, OF _ r])
         (use run settle_job_frame[OF r] in \<open>auto simp: work_left_def\<close>)
  next
    case pick
    from pick have nj: "next_job (sys_queue s) = Some (Some j, (sys_queue s)\<lparr>q_jobs := js\<rparr>)"
      by (simp add: next_job_def)
    show ?thesis
      by (rule exI, rule conjI, rule cleanup_step.take_job[OF nj]) (use pick in \<open>auto simp: work_left_def\<close>)
  qed
qed

lemma worker_run:
  "\<exists>t. (cleanup_step sem)\<^sup>*\<^sup>* s t \<and> pending t = [] \<and> sys_drain t = sys_drain s
     \<and> sys_delivery t = sys_delivery s"
proof (induction "work_left s" arbitrary: s rule: less_induct)
  case less
  show ?case
  proof (cases "pending s = []")
    case False
    from worker_progress[OF this] obtain u where u: "cleanup_step sem s u" "work_left u < work_left s"
      "sys_drain u = sys_drain s" "sys_delivery u = sys_delivery s" by blast
    with less[OF u(2)] show ?thesis by (metis converse_rtranclp_into_rtranclp)
  qed blast
qed

lemma reachable_steps:
  assumes "st\<^sup>*\<^sup>* s t" "reachable i st s" shows "reachable i st t"
  using assms by (induction rule: rtranclp_induct) (auto intro: reachable_step)

end
