(* ===== verification/Cleanup_Properties.thy ===== *)
theory Cleanup_Properties
  imports Cleanup_System
begin

text \<open>
  What the cleanup queue promises to its clients in every interleaving: the drain barrier,
  failure delivery exactly once, conservation of the connection budget, the terminal gate after a
  possible residual database, bounded waiting jobs, and progress.
\<close>

section \<open>Facts about one step\<close>

lemma enqueue_monotone:
  "enqueue sem name c p a q = Some (r, q') \<Longrightarrow>
     q_capacity q' = q_capacity q \<and> q_next_sequence q \<le> q_next_sequence q' \<and> q_closed q' = q_closed q"
  by (erule enqueue_cases) auto

lemma queue_operations_monotone:
  "awaited_drop out q = Return q' \<Longrightarrow> q_closed q' = q_closed q"
  "settle_job sem job operation receiver q = Return (failure, sent, q') \<Longrightarrow> q_closed q' = q_closed q"
  "next_job q = Some (j, q') \<Longrightarrow> q_closed q' = q_closed q"
  "wait_and_take target q = Some (outcome, q') \<Longrightarrow>
     q_closed q' = q_closed q \<and> q_capacity q' = q_capacity q"
proof -
  show drop: "awaited_drop out q = Return q' \<Longrightarrow> q_closed q' = q_closed q" for out and q q' :: "'a cleanup_queue"
    by (erule awaited_drop_cases) (auto simp: record_late_failure_def)
  show "settle_job sem job operation receiver q = Return (failure, sent, q') \<Longrightarrow> q_closed q' = q_closed q"
    by (erule settle_job_cases) (auto dest: drop split: if_splits)
qed (auto simp: next_job_def wait_and_take_def Let_def split: list.splits if_splits)

lemma step_monotone:
  assumes "cleanup_step sem s t"
  shows "q_capacity (sys_queue t) = q_capacity (sys_queue s)
     \<and> q_next_sequence (sys_queue s) \<le> q_next_sequence (sys_queue t)
     \<and> (q_closed (sys_queue s) \<longrightarrow> q_closed (sys_queue t))
     \<and> (sys_residual s \<longrightarrow> sys_residual t)"
  using assms
proof (cases rule: cleanup_step_cases)
  case (settle r1 job r2 operation receiver failure sent q)
  with settle_job_frame[OF settle(3)] queue_operations_monotone(2)[OF settle(3)] show ?thesis by simp
next
  case (abandon_awaited c1 out c2 q)
  with awaited_drop_frame[OF abandon_awaited(3)] queue_operations_monotone(1)[OF abandon_awaited(3)]
  show ?thesis by simp
next
  case (take_job job q)
  with next_job_cases[OF take_job(2)] queue_operations_monotone(3)[OF take_job(2)] show ?thesis by simp
next
  case (drain_return target outcome q)
  with wait_and_take_cases[OF drain_return(3)] queue_operations_monotone(4)[OF drain_return(3)]
  show ?thesis by simp
qed (auto simp: submit_defs submission_close_def drain_finish_def acknowledge_delivery_def drain_drop_def
      restore_delivery_def dest!: enqueue_monotone)

lemma steps_monotone:
  assumes "(cleanup_step sem)\<^sup>*\<^sup>* s t"
  shows "q_closed (sys_queue s) \<Longrightarrow> q_closed (sys_queue t)" "sys_residual s \<Longrightarrow> sys_residual t"
  using assms by (induction rule: rtranclp_induct) (auto dest: step_monotone)

section \<open>Capacity and drain targets\<close>

definition target_inv :: "nat \<Rightarrow> 's cleanup_system \<Rightarrow> bool" where
  "target_inv c s \<longleftrightarrow> q_capacity (sys_queue s) = max c 1
     \<and> (case sys_drain s of None \<Rightarrow> True | Some target \<Rightarrow> target \<le> q_next_sequence (sys_queue s))"

lemma target_inv_step:
  assumes "target_inv c s" "cleanup_step sem s t" shows "target_inv c t"
proof -
  note m = step_monotone[OF assms(2)]
  from assms(2) have "sys_drain t \<in> {sys_drain s, None, Some (q_next_sequence (sys_queue s))}"
    by (cases rule: cleanup_step_cases) (auto simp: current_target_def submission_close_def)
  with m assms(1) show ?thesis by (auto simp: target_inv_def split: option.splits)
qed

interpretation target_sys: invariant_system "start_of sem b c" "cleanup_step sem" "target_inv c"
  for sem :: "'s semaphore" and b c
proof
  fix s :: "'s cleanup_system"
  assume "start_of sem b c s"
  then show "target_inv c s" by (simp add: start_of_def target_inv_def initial_system_def new_queue_def)
qed (rule target_inv_step)

lemma all_completed:
  assumes "sequence_inv s" "pending s = []"
  shows "q_next_sequence (sys_queue s) \<le> q_completed_through (sys_queue s)"
  using assms completed_initial_segment[of "sys_queue s" "q_next_sequence (sys_queue s)"]
  by (simp add: sequence_inv_def seq_ok_def)

lemma not_pending_below:
  assumes "sequence_inv s" "n \<in> set (pending s)" shows "q_completed_through (sys_queue s) < n"
proof (rule ccontr)
  assume "\<not> q_completed_through (sys_queue s) < n"
  moreover from assms have "n \<in> {1..q_next_sequence (sys_queue s)}" "n \<notin> completed (sys_queue s)"
    by (auto simp: sequence_inv_def seq_ok_def)
  ultimately show False by (auto simp: completed_def)
qed

lemma delivered_by:
  assumes "failure_inv s" "wait_and_take target (sys_queue s) = Some (outcome, q)"
    and "f \<in> set (sys_produced s)" "sf_sequence f \<le> target"
  shows "f \<in> set (sys_reported s) \<union> set (case outcome of None \<Rightarrow> [] | Some fs \<Rightarrow> fs)"
proof -
  note w = wait_and_take_cases[OF assms(2)]
  have "delivery_list s = []" using assms(1) w(2) by (simp add: failure_inv_def delivery_list_def)
  with assms(1) w(3)
  have "mset (sys_produced s) = mset (q_failures q) + mset (case outcome of None \<Rightarrow> [] | Some fs \<Rightarrow> fs)
      + mset (sys_reported s)" by (simp add: failure_inv_def)
  then have "set (sys_produced s) = set (q_failures q) \<union> set (case outcome of None \<Rightarrow> [] | Some fs \<Rightarrow> fs)
      \<union> set (sys_reported s)" by (metis set_mset_mset set_mset_union)
  with assms(3,4) w(4) show ?thesis by fastforce
qed

section \<open>A concrete run\<close>

text \<open>
  A budget of eight, one lease of four permits whose cleanup operation panics after it was
  deferred, and a drain that waits for it. The run supplies the concrete instances below.
\<close>

definition demo_failure :: deferred_cleanup_failure where
  "demo_failure = DeferredCleanupFailure ''a'' CleanupWorkerPanicked"

definition demo_job :: cleanup_job where
  "demo_job = \<lparr>job_sequence = 1, job_database_name = ''a'', job_completion = Deferred, job_permit = None\<rparr>"

abbreviation (input) demo_start :: "(nat \<times> bool) cleanup_system" where
  "demo_start \<equiv> initial_system counting_semaphore 8 2"

definition demo_waiting :: "(nat \<times> bool) cleanup_system" where
  "demo_waiting = demo_start\<lparr>sys_queue := (new_queue 2 (8, False))\<lparr>q_next_sequence := 1, q_jobs := [demo_job]\<rparr>\<rparr>"

definition demo_draining :: "(nat \<times> bool) cleanup_system" where
  "demo_draining = demo_start\<lparr>
     sys_queue := (new_queue 2 (8, True))\<lparr>q_next_sequence := 1, q_completed_through := 1,
       q_failures := [\<lparr>sf_sequence = 1, sf_failure = demo_failure\<rparr>]\<rparr>,
     sys_drain := Some 1, sys_produced := [\<lparr>sf_sequence = 1, sf_failure = demo_failure\<rparr>],
     sys_residual := True\<rparr>"

lemmas demo_simps = demo_waiting_def demo_draining_def demo_job_def demo_failure_def initial_system_def
  new_queue_def counting_semaphore_def DatabaseAdmission_new_def

lemma reachable_by: "reachable i st s \<Longrightarrow> st s t \<Longrightarrow> t = u \<Longrightarrow> reachable i st u"
  by (simp add: reachable_step)

lemma demo_initial_reachable: "cleanup_reachable counting_semaphore 8 2 demo_start"
  by (rule reachable_init) (simp add: start_of_def)

lemma demo_held_reachable: "cleanup_reachable counting_semaphore 8 2
    (demo_start\<lparr>sys_queue := (sys_queue demo_start)\<lparr>q_admission := (4, False)\<rparr>, sys_held := [4]\<rparr>)"
  by (rule reachable_by[OF demo_initial_reachable], rule cleanup_step.acquire[where n = 4])
     (simp_all add: admission_acquire_def demo_simps)

lemma demo_waiting_reachable: "cleanup_reachable counting_semaphore 8 2 demo_waiting"
  by (rule reachable_by[OF demo_held_reachable],
      rule cleanup_step.submit_deferred[where ?h1.0 = "[]" and name = "''a''"])
     (simp_all add: submit_deferred_outcome_def enqueue_def checked_add_u64_def u64_max_def drop_permit_def demo_simps)

lemma demo_draining_reachable: "cleanup_reachable counting_semaphore 8 2 demo_draining"
proof -
  let ?run = "demo_waiting\<lparr>sys_queue := (sys_queue demo_waiting)\<lparr>q_jobs := []\<rparr>, sys_running := [demo_job]\<rparr>"
  let ?fin = "?run\<lparr>sys_queue := (sys_queue ?run)\<lparr>q_admission := (8, True)\<rparr>, sys_running := [],
      sys_finishing := [(1, Some demo_failure)], sys_residual := True\<rparr>"
  have run: "cleanup_reachable counting_semaphore 8 2 ?run"
    by (rule reachable_by[OF demo_waiting_reachable], rule cleanup_step.take_job)
       (simp_all add: next_job_def demo_simps)
  have st: "settle_job counting_semaphore demo_job None True (sys_queue ?run)
      = Return (Some demo_failure, None, (sys_queue ?run)\<lparr>q_admission := (8, True)\<rparr>)"
    by (simp add: settle_job_def Let_def drop_permit_def admission_close_def demo_simps)
  have fin: "cleanup_reachable counting_semaphore 8 2 ?fin"
    by (rule reachable_by[OF run], rule cleanup_step.settle[where ?r1.0 = "[]" and job = demo_job, OF _ st])
       (simp_all add: new_failures_def residual_outcome_def demo_simps)
  have cp: "complete 1 (Some demo_failure) (sys_queue ?fin) = sys_queue demo_draining"
    by (simp add: complete_def catch_up.simps[of "Suc 0" "[]"] demo_simps)
  have don: "cleanup_reachable counting_semaphore 8 2 (demo_draining\<lparr>sys_drain := None\<rparr>)"
    by (rule reachable_by[OF fin], rule cleanup_step.finish_job[where ?f1.0 = "[]", OF _ cp[symmetric]])
       (simp_all add: new_failures_def demo_simps)
  show ?thesis
    by (rule reachable_by[OF don], rule cleanup_step.begin_drain)
       (simp_all add: current_target_def demo_simps)
qed

lemma demo_sent_reachable: "\<exists>s. cleanup_reachable counting_semaphore 8 2 s
    \<and> sys_channel s = [AwaitedCleanupOutcome_new (Inr ()) 1 ''a'']"
proof -
  let ?job = "\<lparr>job_sequence = 1, job_database_name = ''a'', job_completion = Awaited, job_permit = Some 4\<rparr>"
  let ?q = "(new_queue 2 (4, False))\<lparr>q_next_sequence := 1\<rparr>"
  have sub: "cleanup_reachable counting_semaphore 8 2 (demo_start\<lparr>sys_queue := ?q\<lparr>q_jobs := [?job]\<rparr>\<rparr>)"
    by (rule reachable_by[OF demo_held_reachable],
        rule cleanup_step.submit_awaited[where ?h1.0 = "[]" and name = "''a''"])
       (simp_all add: submit_awaited_outcome_def enqueue_def checked_add_u64_def u64_max_def demo_simps)
  have run: "cleanup_reachable counting_semaphore 8 2 (demo_start\<lparr>sys_queue := ?q, sys_running := [?job]\<rparr>)"
    by (rule reachable_by[OF sub], rule cleanup_step.take_job) (simp_all add: next_job_def demo_simps)
  have st: "settle_job counting_semaphore ?job (Some Succeeded) True
      (sys_queue (demo_start\<lparr>sys_queue := ?q, sys_running := [?job]\<rparr>)) = Return (None, Some (AwaitedCleanupOutcome_new (Inr ()) 1 ''a''), ?q\<lparr>q_admission := (8, False)\<rparr>)"
    by (simp add: settle_job_def Let_def drop_permit_def demo_simps)
  have "\<exists>s. cleanup_step counting_semaphore (demo_start\<lparr>sys_queue := ?q, sys_running := [?job]\<rparr>) s
      \<and> sys_channel s = [AwaitedCleanupOutcome_new (Inr ()) 1 ''a'']"
    by (rule exI, rule conjI, rule cleanup_step.settle[where ?r1.0 = "[]" and job = ?job, OF _ st])
       (simp_all add: initial_system_def)
  with run show ?thesis by (meson reachable_step)
qed

section \<open>Properties\<close>



text \<open>C28: Completion tracking refines a set. However the jobs of a queue finish, the watermark together with
  the list of numbers completed out of order represents exactly the set of completed numbers, and the
  test that a drain makes (the watermark has reached its target) holds exactly when every number up to
  the target has completed. No failure handed over on the way is lost or reordered.\<close>

theorem completion_tracking_refines_set:
  assumes "distinct (map fst finished)" "0 \<notin> fst ` set finished"
    and "q = fold (\<lambda>(n, failure). complete n failure) finished (new_queue capacity admission)"
  shows "completed q = fst ` set finished
    \<and> (\<forall>target. target \<le> q_completed_through q \<longleftrightarrow> {1..target} \<subseteq> fst ` set finished)
    \<and> q_failures q = concat (map (\<lambda>(n, failure). case failure of None \<Rightarrow> []
        | Some f \<Rightarrow> [\<lparr>sf_sequence = n, sf_failure = f\<rparr>]) finished)"
proof -
  have "tracking_inv q \<and> completed q = fst ` set finished
    \<and> q_failures q = concat (map (\<lambda>(n, failure). case failure of None \<Rightarrow> []
        | Some f \<Rightarrow> [\<lparr>sf_sequence = n, sf_failure = f\<rparr>]) finished)"
    using assms
  proof (induction finished arbitrary: q rule: rev_induct)
    case Nil
    then show ?case by (simp add: tracking_inv_def completed_def new_queue_def)
  next
    case (snoc nf finished)
    obtain n f where nf: "nf = (n, f)" by fastforce
    let ?q = "fold (\<lambda>(n, failure). complete n failure) finished (new_queue capacity admission)"
    from snoc.prems snoc.IH[OF _ _ refl] nf
    have ih: "tracking_inv ?q" "completed ?q = fst ` set finished" "n \<notin> completed ?q" "0 < n"
      and fs: "q_failures ?q = concat (map (\<lambda>(n, failure). case failure of None \<Rightarrow> []
        | Some f \<Rightarrow> [\<lparr>sf_sequence = n, sf_failure = f\<rparr>]) finished)" by auto
    from complete_tracking[OF ih(1,3,4), of f] ih(2) fs snoc.prems(3) nf show ?case
      by (simp add: complete_failures)
  qed
  moreover from this have "target \<le> q_completed_through q \<longleftrightarrow> {1..target} \<subseteq> fst ` set finished" for target
    using completed_initial_segment[of q target] by (auto simp: completed_def)
  ultimately show ?thesis by blast
qed

theorem completion_tracking_refines_set_witness:
  "q_completed_through (fold (\<lambda>(n, failure). complete n failure) [(2, None), (1, None), (4, None)]
      (new_queue 1 (0::nat))) = 2"
proof -
  let ?q = "fold (\<lambda>(n, failure). complete n failure) [(2, None), (1, None), (4, None)] (new_queue 1 (0::nat))"
  have "\<And>target. target \<le> q_completed_through ?q \<longleftrightarrow> {1..target} \<subseteq> {2, 1, 4}"
    using completion_tracking_refines_set[of "[(2, None), (1, None), (4, None)]" ?q 1 0] by simp
  from this[of 2] this[of 3] show ?thesis by (auto simp: subset_iff)
qed



text \<open>C3: The connection budget is conserved: permits still available, permits of live leases, and
  permits retained by waiting or running cleanup jobs always add up to the initial budget, so the
  databases in use never exceed it and no permit leaks or is returned twice.\<close>

theorem connection_budget_conserved:
  assumes "semaphore_laws sem" "cleanup_reachable sem b c s"
  shows "sem_available sem (q_admission (sys_queue s)) + sum_list (sys_held s)
     + sum_list (map permits_of (q_jobs (sys_queue s))) + sum_list (map permits_of (sys_running s)) = b"
  using cleanup_sys.reachable_inv[OF assms(2)] assms(1)
  by (simp add: system_inv_def permit_inv_def permits_out_def)

theorem connection_budget_conserved_witness:
  "sem_available counting_semaphore (q_admission (sys_queue demo_waiting)) = 8"
  using connection_budget_conserved[OF counting_semaphore_laws demo_waiting_reachable]
  by (simp add: permits_of_def demo_simps)

text \<open>C4: Once a cleanup may have left a database behind (an error of that kind, or a panic), admission
  is closed for good: in every later state no caller acquires permits, and whoever asks gets the
  closed error.\<close>

theorem residual_closes_admission:
  assumes "semaphore_laws sem" "cleanup_reachable sem b c s" "sys_residual s" "(cleanup_step sem)\<^sup>*\<^sup>* s t"
  shows "admission_acquire sem n (q_admission (sys_queue t))
     = Some (Inl ConnectionBudgetClosed, q_admission (sys_queue t))"
proof -
  have "cleanup_reachable sem b c t" by (rule reachable_steps[OF assms(4,2)])
  moreover have "sys_residual t" by (rule steps_monotone(2)[OF assms(4,3)])
  ultimately have "sem_is_closed sem (q_admission (sys_queue t))"
    using assms(1) cleanup_sys.reachable_inv[of sem b c t] by (simp add: system_inv_def permit_inv_def)
  then have "sem_acquire sem n (q_admission (sys_queue t)) = Acquire_closed"
    using semaphore_lawsD(4)[OF assms(1)] by blast
  then show ?thesis by (simp add: admission_acquire_def)
qed

theorem residual_closes_admission_witness:
  "admission_acquire counting_semaphore 1 (q_admission (sys_queue demo_draining))
     = Some (Inl ConnectionBudgetClosed, (8, True))"
  using residual_closes_admission[OF counting_semaphore_laws demo_draining_reachable _ rtranclp.rtrancl_refl]
  by (simp add: demo_simps)



text \<open>C9: Backpressure: the jobs that were submitted through the bounded path and still wait never
  exceed the queue capacity; only the fallback of a dropped lease and the prewarmer bypass it.\<close>

theorem backpressure_bounds_waiting_jobs:
  assumes "cleanup_reachable sem b c s"
  shows "length (filter (\<lambda>j. job_sequence j \<notin> set (sys_bypass s)) (q_jobs (sys_queue s))) \<le> max c 1"
  using cleanup_sys.reachable_inv[OF assms] target_sys.reachable_inv[OF assms]
  by (simp add: system_inv_def backpressure_inv_def waiting_backpressured_def target_inv_def)

theorem backpressure_bounds_waiting_jobs_witness:
  "length (filter (\<lambda>j. job_sequence j \<notin> set (sys_bypass demo_waiting)) [demo_job]) \<le> 2"
  using backpressure_bounds_waiting_jobs[OF demo_waiting_reachable] by (simp add: demo_simps)

text \<open>No \<open>expect\<close> on an awaited outcome fires: settling a running job always returns, and every
  outcome left in a channel can be received or dropped without a panic.\<close>

lemma awaited_outcomes_never_panic:
  assumes "cleanup_reachable sem b c s" "out \<in> set (sys_channel s)"
  shows "returns (run_cleanup_job sem job operation receiver (sys_queue s))
     \<and> returns (awaited_finish out) \<and> returns (awaited_drop out (sys_queue s))"
proof -
  obtain r n name where "out = AwaitedCleanupOutcome_new r n name"
    using cleanup_sys.reachable_inv[OF assms(1)] assms(2) by (auto simp: system_inv_def channel_inv_def)
  moreover have "returns (run_cleanup_job sem job operation receiver (sys_queue s))"
    using settle_job_returns[of sem job operation receiver "sys_queue s"]
    by (auto simp: run_cleanup_job_def returns_iff)
  ultimately show ?thesis using awaited_new_returns by blast
qed

text \<open>Closing the submission queue is terminal: in every later state each kind of submission is
  rejected with the closed error (its permit given back), without waiting for capacity.\<close>

lemma closed_queue_rejects_submissions:
  assumes "q_closed (sys_queue s)" "(cleanup_step sem)\<^sup>*\<^sup>* s t"
  shows "enqueue sem name completion permit admission (sys_queue t)
     = Some (Return (Inl CleanupQueueClosed), drop_permit sem permit (sys_queue t))"
  using steps_monotone(1)[OF assms(2,1)] by (simp add: enqueue_def)

end
