(* ===== verification/Fingerprint.thy ===== *)
theory Fingerprint
  imports Errors
begin

text \<open>
  Template fingerprints (\<open>src/fingerprint.rs\<close>): the hexadecimal codec, the length-framed builder,
  derived identities and the lineage a fingerprint stands for. SHA-256 is an argument of the
  definitions that call it (crate \<open>sha2\<close>): \<open>update\<close> appends to the bytes hashed so far and
  \<open>finalize\<close> applies the function, so a builder is the list of bytes it has absorbed.
\<close>

type_synonym bytes = "8 word list"

definition FINGERPRINT_BYTES :: nat where "FINGERPRINT_BYTES = 32"
definition SHORT_FINGERPRINT_HEX_LEN :: nat where "SHORT_FINGERPRINT_HEX_LEN = 24"

section \<open>Bytes\<close>

definition bytes_of_string :: "string \<Rightarrow> bytes" where
  "bytes_of_string s = map (\<lambda>c. word_of_nat (of_char c)) s"

lemma unat_word8_of_nat: "unat (word_of_nat n :: 8 word) = n mod 256"
  by (simp add: unat_of_nat)

lemma unat_word8_less: "unat (b :: 8 word) < 256"
proof -
  have "unat b < 2 ^ LENGTH(8)" by (rule unsigned_less)
  then show ?thesis by simp
qed

lemma word8_of_nat_inj:
  "a < 256 \<Longrightarrow> b < 256 \<Longrightarrow> (word_of_nat a :: 8 word) = word_of_nat b \<longleftrightarrow> a = b"
  by (metis mod_less unat_word8_of_nat)

lemma word8_of_nat_unat: "(word_of_nat (unat b) :: 8 word) = b"
  by simp

lemma bytes_of_string_inject: "bytes_of_string s = bytes_of_string t \<longleftrightarrow> s = t"
proof -
  have "inj (\<lambda>c. word_of_nat (of_char c) :: 8 word)"
    by (rule injI) (simp add: word8_of_nat_inj of_char_less_256 of_char_eq_nat)
  then show ?thesis by (simp add: bytes_of_string_def inj_map_eq_map)
qed

lemma length_bytes_of_string [simp]: "length (bytes_of_string s) = length s"
  by (simp add: bytes_of_string_def)

text \<open>\<open>u64::to_be_bytes\<close>.\<close>

definition to_be_bytes :: "nat \<Rightarrow> bytes" where
  "to_be_bytes n = map (\<lambda>i. word_of_nat (n div 256 ^ i)) [7, 6, 5, 4, 3, 2, 1, 0]"

definition from_be_bytes :: "bytes \<Rightarrow> nat" where
  "from_be_bytes bs = foldl (\<lambda>acc b. acc * 256 + unat b) 0 bs"

lemma length_to_be_bytes [simp]: "length (to_be_bytes n) = 8"
  by (simp add: to_be_bytes_def)

lemma be_digit_step: "n div (m * 256) * 256 + n div m mod 256 = (n div m :: nat)"
  by (simp add: div_mult2_eq)

lemma from_to_be_bytes:
  assumes "n \<le> u64_max" shows "from_be_bytes (to_be_bytes n) = n"
proof -
  let ?d = "\<lambda>i. n div 256 ^ i"
  have top: "?d 7 mod 256 = ?d 7"
    using assms by (intro mod_less) (simp add: u64_max_def less_mult_imp_div_less)
  have step: "?d j * 256 + ?d i mod 256 = ?d i" if "j = Suc i" for i j
    using be_digit_step[of n "256 ^ i"] that by (simp add: mult.commute)
  have steps: "?d 7 * 256 + ?d 6 mod 256 = ?d 6" "?d 6 * 256 + ?d 5 mod 256 = ?d 5"
    "?d 5 * 256 + ?d 4 mod 256 = ?d 4" "?d 4 * 256 + ?d 3 mod 256 = ?d 3"
    "?d 3 * 256 + ?d 2 mod 256 = ?d 2" "?d 2 * 256 + ?d 1 mod 256 = ?d 1"
    "?d 1 * 256 + ?d 0 mod 256 = ?d 0"
    by (rule step; simp)+
  have "from_be_bytes (to_be_bytes n) =
      ((((((?d 7 * 256 + ?d 6 mod 256) * 256 + ?d 5 mod 256) * 256 + ?d 4 mod 256) * 256
        + ?d 3 mod 256) * 256 + ?d 2 mod 256) * 256 + ?d 1 mod 256) * 256 + ?d 0 mod 256"
    unfolding from_be_bytes_def to_be_bytes_def by (simp only: list.map foldl.simps
        unat_word8_of_nat top mult_0 add_0)
  also have "\<dots> = ?d 0" by (simp only: steps)
  finally show ?thesis by simp
qed

interpretation u64_be: codec to_be_bytes "\<lambda>bs. Some (from_be_bytes bs)" "\<lambda>n. n \<le> u64_max"
  by unfold_locales (simp add: from_to_be_bytes)

section \<open>Hexadecimal encoding\<close>

definition hex_digit :: "nat \<Rightarrow> char" where
  "hex_digit n = (if n < 10 then char_of (48 + n) else char_of (87 + n))"

definition encode_byte :: "8 word \<Rightarrow> string" where
  "encode_byte b = [hex_digit (unat b div 16), hex_digit (unat b mod 16)]"

fun encode_hex :: "bytes \<Rightarrow> string" where
  "encode_hex [] = []"
| "encode_hex (b # bs) = encode_byte b @ encode_hex bs"

definition hex_value :: "char \<Rightarrow> nat option" where
  "hex_value c =
     (if is_ascii_digit c then Some (of_char c - 48)
      else if is_lower_hex_letter c then Some (of_char c - 87)
      else if is_upper_hex_letter c then Some (of_char c - 55)
      else None)"

text \<open>
  The loop over \<open>as_chunks::<2>\<close> (an odd last byte is not part of any chunk); \<open>from_str_radix\<close>
  on two hexadecimal digits.
\<close>

fun decode_chunks :: "string \<Rightarrow> bytes option" where
  "decode_chunks (a # b # rest) =
     (case (hex_value a, hex_value b) of
        (Some x, Some y) \<Rightarrow>
          (case decode_chunks rest of
             Some bs \<Rightarrow> Some (word_of_nat (x * 16 + y) # bs) | None \<Rightarrow> None)
      | _ \<Rightarrow> None)"
| "decode_chunks _ = Some []"

datatype template_fingerprint = TemplateFingerprint (fp_bytes: bytes)

text \<open>The array type \<open>[u8; 32]\<close>.\<close>

definition wf_fp :: "template_fingerprint \<Rightarrow> bool" where
  "wf_fp f \<longleftrightarrow> length (fp_bytes f) = 32"

definition from_hex :: "string \<Rightarrow> template_fingerprint option" where
  "from_hex hex =
     (if length hex \<noteq> FINGERPRINT_BYTES * 2 \<or> \<not> list_all is_ascii_hexdigit hex then None
      else map_option TemplateFingerprint (decode_chunks hex))"

definition to_hex :: "template_fingerprint \<Rightarrow> string" where
  "to_hex self = encode_hex (fp_bytes self)"

definition short_hex :: "template_fingerprint \<Rightarrow> string" where
  "short_hex self = take SHORT_FINGERPRINT_HEX_LEN (to_hex self)"

definition lower_hex_char :: "char \<Rightarrow> bool" where
  "lower_hex_char c \<longleftrightarrow> is_ascii_digit c \<or> is_lower_hex_letter c"

lemma of_char_hex_digit: "n < 16 \<Longrightarrow> (of_char (hex_digit n) :: nat) = (if n < 10 then 48 + n else 87 + n)"
  by (simp add: hex_digit_def)

lemma hex_value_hex_digit [simp]: "n < 16 \<Longrightarrow> hex_value (hex_digit n) = Some n"
  by (auto simp: hex_value_def std_defs of_char_hex_digit)

lemma lower_hex_hex_digit: "n < 16 \<Longrightarrow> lower_hex_char (hex_digit n)"
  by (auto simp: lower_hex_char_def std_defs of_char_hex_digit)

lemma lower_hex_is_hexdigit: "lower_hex_char c \<Longrightarrow> is_ascii_hexdigit c"
  by (auto simp: lower_hex_char_def is_ascii_hexdigit_def)

lemma length_encode_hex [simp]: "length (encode_hex bs) = 2 * length bs"
  by (induction bs) (auto simp: encode_byte_def)

lemma encode_hex_chars: "list_all lower_hex_char (encode_hex bs)"
proof (induction bs)
  case (Cons b bs)
  then show ?case using unat_word8_less[of b]
    by (simp add: encode_byte_def lower_hex_hex_digit less_mult_imp_div_less)
qed simp

lemma decode_encode_hex: "decode_chunks (encode_hex bs) = Some bs"
proof (induction bs)
  case (Cons b bs)
  have "unat b div 16 < 16" using unat_word8_less[of b] by (simp add: less_mult_imp_div_less)
  moreover have "unat b div 16 * 16 + unat b mod 16 = unat b" by (rule div_mult_mod_eq)
  ultimately show ?case using Cons by (simp add: encode_byte_def word8_of_nat_unat)
qed simp

lemma from_hex_to_hex: "wf_fp f \<Longrightarrow> from_hex (to_hex f) = Some f"
  using encode_hex_chars[of "fp_bytes f"]
  by (cases f)
     (auto simp: from_hex_def to_hex_def wf_fp_def FINGERPRINT_BYTES_def decode_encode_hex
       list_all_iff lower_hex_is_hexdigit)

lemma decode_chunks_length: "decode_chunks s = Some bs \<Longrightarrow> length bs = length s div 2"
  by (induction s arbitrary: bs rule: decode_chunks.induct) (auto split: option.splits)

lemma from_hex_wf: "from_hex s = Some f \<Longrightarrow> wf_fp f"
  by (auto simp: from_hex_def wf_fp_def FINGERPRINT_BYTES_def dest!: decode_chunks_length
      split: if_splits)

interpretation fp_hex: codec to_hex from_hex wf_fp
  by unfold_locales (rule from_hex_to_hex)

lemma to_hex_length: "wf_fp f \<Longrightarrow> length (to_hex f) = 64"
  by (simp add: to_hex_def wf_fp_def)

lemma short_hex_shape:
  "wf_fp f \<Longrightarrow> length (short_hex f) = 24 \<and> list_all lower_hex_char (short_hex f)"
  using encode_hex_chars[of "fp_bytes f"] to_hex_length[of f]
  by (auto simp: short_hex_def SHORT_FINGERPRINT_HEX_LEN_def to_hex_def list_all_iff
      dest: in_set_takeD)

section \<open>Length framing\<close>

text \<open>
  A code whose words can be read off the front of a stream in one way only; then a sequence of
  words can be read back from its concatenation.
\<close>

locale framed_code =
  fixes frame_of :: "'a \<Rightarrow> 'b list"
    and valid_payload :: "'a \<Rightarrow> bool"
  assumes frame_cancel: "valid_payload x \<Longrightarrow> valid_payload y \<Longrightarrow>
      frame_of x @ r = frame_of y @ s \<Longrightarrow> x = y \<and> r = s"
    and frame_nonempty: "frame_of x \<noteq> []"
begin

lemma frames_inject:
  "list_all valid_payload xs \<Longrightarrow> list_all valid_payload ys \<Longrightarrow>
   concat (map frame_of xs) = concat (map frame_of ys) \<longleftrightarrow> xs = ys"
proof (induction xs arbitrary: ys)
  case Nil
  then show ?case by (cases ys) (auto simp: frame_nonempty)
next
  case (Cons x xs)
  then show ?case by (cases ys) (auto simp: frame_nonempty dest: frame_cancel)
qed

end

definition frame :: "bytes \<Rightarrow> bytes" where
  "frame bs = to_be_bytes (length bs) @ bs"

text \<open>Every slice of a Rust program fits: its length is at most \<open>isize::MAX\<close>.\<close>

definition fits :: "bytes \<Rightarrow> bool" where
  "fits bs \<longleftrightarrow> length bs \<le> u64_max"

lemma frame_cancel_lemma:
  assumes "fits x" "fits y" "frame x @ r = frame y @ s" shows "x = y \<and> r = s"
proof -
  from assms(3) have "to_be_bytes (length x) = to_be_bytes (length y)" and eq: "x @ r = y @ s"
    by (auto simp: frame_def)
  with assms(1,2) have "length x = length y" by (simp add: fits_def u64_be.encode_inject)
  with eq show ?thesis by simp
qed

interpretation length_frame: framed_code frame fits
proof
  fix x :: bytes show "frame x \<noteq> []"
    by (metis append_is_Nil_conv frame_def length_to_be_bytes list.size(3) zero_neq_numeral)
qed (rule frame_cancel_lemma)

section \<open>The builder\<close>

datatype fingerprint_builder = FingerprintBuilder (absorbed: bytes)

definition add_frame :: "fingerprint_builder \<Rightarrow> bytes \<Rightarrow> fingerprint_builder" where
  "add_frame self bs = FingerprintBuilder ((absorbed self @ to_be_bytes (length bs)) @ bs)"

definition template_domain :: string where
  "template_domain = ''postgres-test-harness-template-v1''"
definition derived_domain :: string where
  "derived_domain = ''postgres-test-harness-derived-template-v1''"

definition FingerprintBuilder_new :: "bytes \<Rightarrow> fingerprint_builder" where
  "FingerprintBuilder_new domain =
     add_frame (add_frame (FingerprintBuilder []) (bytes_of_string template_domain)) domain"

definition FingerprintBuilder_add ::
  "fingerprint_builder \<Rightarrow> bytes \<Rightarrow> bytes \<Rightarrow> fingerprint_builder" where
  "FingerprintBuilder_add self label content = add_frame (add_frame self label) content"

definition digest :: "(bytes \<Rightarrow> bytes) \<Rightarrow> fingerprint_builder \<Rightarrow> bytes" where
  "digest sha256 self = sha256 (absorbed self)"

datatype root_spec = RootSpec (root_fingerprint: template_fingerprint)
datatype step_spec = StepSpec (step_bytes: bytes)

definition finish_root :: "(bytes \<Rightarrow> bytes) \<Rightarrow> fingerprint_builder \<Rightarrow> root_spec" where
  "finish_root sha256 self = RootSpec (TemplateFingerprint (digest sha256 self))"

definition finish_step :: "(bytes \<Rightarrow> bytes) \<Rightarrow> fingerprint_builder \<Rightarrow> step_spec" where
  "finish_step sha256 self = StepSpec (digest sha256 self)"

section \<open>Derived identities\<close>

definition derived_preimage :: "template_fingerprint \<Rightarrow> step_spec \<Rightarrow> bytes" where
  "derived_preimage parent step =
     foldl (\<lambda>acc frm. (acc @ to_be_bytes (length frm)) @ frm) []
       [bytes_of_string derived_domain, fp_bytes parent, step_bytes step]"

definition derived_fingerprint ::
  "(bytes \<Rightarrow> bytes) \<Rightarrow> template_fingerprint \<Rightarrow> step_spec \<Rightarrow> template_fingerprint" where
  "derived_fingerprint sha256 parent step = TemplateFingerprint (sha256 (derived_preimage parent step))"

record template_identity =
  id_fingerprint :: template_fingerprint
  id_parent :: "template_fingerprint option"

definition identity_root :: "root_spec \<Rightarrow> template_identity" where
  "identity_root spec = \<lparr>id_fingerprint = root_fingerprint spec, id_parent = None\<rparr>"

definition identity_derived ::
  "(bytes \<Rightarrow> bytes) \<Rightarrow> template_fingerprint \<Rightarrow> step_spec \<Rightarrow> template_identity" where
  "identity_derived sha256 parent step =
     \<lparr>id_fingerprint = derived_fingerprint sha256 parent step, id_parent = Some parent\<rparr>"

definition wf_identity :: "template_identity \<Rightarrow> bool" where
  "wf_identity i \<longleftrightarrow> wf_fp (id_fingerprint i) \<and> (\<forall>p. id_parent i = Some p \<longrightarrow> wf_fp p)"

section \<open>What a builder chain hashes\<close>

text \<open>The inputs of one chain: the domain and the labelled contents in the order of the calls.\<close>

type_synonym inputs = "bytes \<times> (bytes \<times> bytes) list"

definition build :: "inputs \<Rightarrow> fingerprint_builder" where
  "build i = foldl (\<lambda>b (label, content). FingerprintBuilder_add b label content)
     (FingerprintBuilder_new (fst i)) (snd i)"

definition payloads :: "inputs \<Rightarrow> bytes list" where
  "payloads i = bytes_of_string template_domain # fst i # concat (map (\<lambda>(l, c). [l, c]) (snd i))"

definition fits_inputs :: "inputs \<Rightarrow> bool" where
  "fits_inputs i \<longleftrightarrow> fits (fst i) \<and> list_all (\<lambda>(l, c). fits l \<and> fits c) (snd i)"

lemma absorbed_add_frame [simp]: "absorbed (add_frame b x) = absorbed b @ frame x"
  by (simp add: add_frame_def frame_def)

lemma absorbed_foldl_add:
  "absorbed (foldl (\<lambda>b (label, content). FingerprintBuilder_add b label content) b xs)
   = absorbed b @ concat (map frame (concat (map (\<lambda>(l, c). [l, c]) xs)))"
  by (induction xs arbitrary: b) (auto simp: FingerprintBuilder_add_def)

lemma absorbed_build: "absorbed (build i) = concat (map frame (payloads i))"
  by (simp add: build_def absorbed_foldl_add FingerprintBuilder_new_def payloads_def)

lemma pairs_flat_inject: "concat (map (\<lambda>(l, c). [l, c]) xs) = concat (map (\<lambda>(l, c). [l, c]) ys) \<longleftrightarrow> xs = ys"
proof (induction xs arbitrary: ys)
  case Nil
  then show ?case by (cases ys) auto
next
  case (Cons x xs)
  then show ?case by (cases ys) (auto split: prod.splits)
qed

lemma payloads_inject: "payloads i = payloads j \<longleftrightarrow> i = j"
  by (auto simp: payloads_def pairs_flat_inject prod_eq_iff)

lemma fits_template_domain: "fits (bytes_of_string template_domain)"
  and fits_derived_domain: "fits (bytes_of_string derived_domain)"
  by (simp_all add: fits_def template_domain_def derived_domain_def u64_max_def)

lemma fits_payloads: "fits_inputs i \<Longrightarrow> list_all fits (payloads i)"
  using fits_template_domain by (auto simp: payloads_def fits_inputs_def list_all_iff)

lemma absorbed_build_inject:
  "fits_inputs i \<Longrightarrow> fits_inputs j \<Longrightarrow> absorbed (build i) = absorbed (build j) \<longleftrightarrow> i = j"
  by (simp add: absorbed_build length_frame.frames_inject fits_payloads payloads_inject)

lemma derived_preimage_frames:
  "derived_preimage p s = concat (map frame [bytes_of_string derived_domain, fp_bytes p, step_bytes s])"
  by (simp add: derived_preimage_def frame_def)

lemma derived_preimage_inject:
  assumes "fits (fp_bytes p)" "fits (step_bytes s)" "fits (fp_bytes q)" "fits (step_bytes t)"
  shows "derived_preimage p s = derived_preimage q t \<longleftrightarrow> p = q \<and> s = t"
  using assms fits_derived_domain
  unfolding derived_preimage_frames
  by (subst length_frame.frames_inject) (auto intro: template_fingerprint.expand step_spec.expand)

lemma derived_preimage_not_build:
  assumes "fits (fp_bytes p)" "fits (step_bytes s)" "fits_inputs i"
  shows "derived_preimage p s \<noteq> absorbed (build i)"
proof
  assume "derived_preimage p s = absorbed (build i)"
  then have "[bytes_of_string derived_domain, fp_bytes p, step_bytes s] = payloads i"
    using assms fits_derived_domain fits_payloads
    unfolding derived_preimage_frames absorbed_build
    by (subst (asm) length_frame.frames_inject) auto
  then have "derived_domain = template_domain" by (simp add: payloads_def bytes_of_string_inject)
  then show False by (simp add: derived_domain_def template_domain_def)
qed

section \<open>Lineages\<close>

text \<open>
  The chain of setup steps behind a template: a root built by \<open>PostgresHarness::template\<close>, or
  a step applied to a parent by \<open>DatabaseTemplate::derive\<close>.
\<close>

datatype lineage = Root_of inputs | Derive_from lineage inputs

fun lineage_identity :: "(bytes \<Rightarrow> bytes) \<Rightarrow> lineage \<Rightarrow> template_identity" where
  "lineage_identity sha256 (Root_of i) = identity_root (finish_root sha256 (build i))"
| "lineage_identity sha256 (Derive_from l i) =
     identity_derived sha256 (id_fingerprint (lineage_identity sha256 l)) (finish_step sha256 (build i))"

text \<open>The byte strings that are hashed on the way to a lineage's fingerprint.\<close>

fun preimages :: "(bytes \<Rightarrow> bytes) \<Rightarrow> lineage \<Rightarrow> bytes set" where
  "preimages sha256 (Root_of i) = {absorbed (build i)}"
| "preimages sha256 (Derive_from l i) =
     insert (derived_preimage (id_fingerprint (lineage_identity sha256 l)) (finish_step sha256 (build i)))
       (insert (absorbed (build i)) (preimages sha256 l))"

fun fits_lineage :: "lineage \<Rightarrow> bool" where
  "fits_lineage (Root_of i) = fits_inputs i"
| "fits_lineage (Derive_from l i) = (fits_lineage l \<and> fits_inputs i)"

definition digest_length :: "(bytes \<Rightarrow> bytes) \<Rightarrow> bool" where
  "digest_length sha256 \<longleftrightarrow> (\<forall>x. length (sha256 x) = 32)"

lemma fits_digest: "digest_length sha256 \<Longrightarrow> fits (sha256 x)"
  by (simp add: digest_length_def fits_def u64_max_def)

lemma lineage_fingerprint_digest:
  "\<exists>x. fp_bytes (id_fingerprint (lineage_identity sha256 l)) = sha256 x"
  by (cases l) (auto simp: identity_root_def identity_derived_def finish_root_def digest_def
      derived_fingerprint_def)

lemma wf_lineage_fingerprint:
  "digest_length sha256 \<Longrightarrow> wf_fp (id_fingerprint (lineage_identity sha256 l))"
  using lineage_fingerprint_digest[of sha256 l] by (auto simp: wf_fp_def digest_length_def)

lemma wf_lineage_identity: "digest_length sha256 \<Longrightarrow> wf_identity (lineage_identity sha256 l)"
  using wf_lineage_fingerprint[of sha256 l]
  by (cases l) (auto simp: wf_identity_def identity_root_def identity_derived_def wf_lineage_fingerprint)

lemma fits_lineage_fingerprint:
  "digest_length sha256 \<Longrightarrow> fits (fp_bytes (id_fingerprint (lineage_identity sha256 l)))"
  using lineage_fingerprint_digest[of sha256 l] fits_digest by metis

lemma fits_finish_step: "digest_length sha256 \<Longrightarrow> fits (step_bytes (finish_step sha256 b))"
  by (simp add: finish_step_def digest_def fits_digest)

lemmas lineage_fits = fits_lineage_fingerprint fits_finish_step

section \<open>Properties\<close>

text \<open>The byte string hashed last, which gives the lineage's own fingerprint.\<close>

fun final_preimage :: "(bytes \<Rightarrow> bytes) \<Rightarrow> lineage \<Rightarrow> bytes" where
  "final_preimage sha256 (Root_of i) = absorbed (build i)"
| "final_preimage sha256 (Derive_from l i) =
     derived_preimage (id_fingerprint (lineage_identity sha256 l)) (finish_step sha256 (build i))"

lemma lineage_fingerprint_final:
  "id_fingerprint (lineage_identity sha256 l) = TemplateFingerprint (sha256 (final_preimage sha256 l))"
  by (cases l) (simp_all add: identity_root_def identity_derived_def finish_root_def digest_def
      derived_fingerprint_def)

lemma final_preimage_in: "final_preimage sha256 l \<in> preimages sha256 l"
  by (cases l) simp_all

lemma final_preimage_cong:
  assumes "inj_on sha256 (preimages sha256 l \<union> preimages sha256 m)"
    and "id_fingerprint (lineage_identity sha256 l) = id_fingerprint (lineage_identity sha256 m)"
  shows "final_preimage sha256 m = final_preimage sha256 l"
proof -
  have "sha256 (final_preimage sha256 m) = sha256 (final_preimage sha256 l)"
    using assms(2) by (simp add: lineage_fingerprint_final)
  then show ?thesis by (rule inj_onD[OF assms(1)]) (simp_all add: final_preimage_in)
qed

lemma final_preimage_root:
  assumes "digest_length sha256" "fits_inputs i" "fits_lineage m"
    and "final_preimage sha256 m = absorbed (build i)"
  shows "m = Root_of i"
proof (cases m)
  case (Root_of j)
  with assms show ?thesis by (simp add: absorbed_build_inject)
next
  case (Derive_from n j)
  with assms(4) derived_preimage_not_build[OF lineage_fits[OF assms(1)] assms(2)] show ?thesis by simp
qed

text \<open>C32: Two chains of setup steps get the same template fingerprint only if they are the same chain:
  the same root inputs and the same steps in the same order, with the same domains, labels and
  contents at the same boundaries. The hypothesis is that SHA-256 has 32-byte digests and no
  collision among the byte strings hashed for the two chains.\<close>

theorem lineage_fingerprint_injective:
  assumes "digest_length sha256" "inj_on sha256 (preimages sha256 l \<union> preimages sha256 m)"
    and "fits_lineage l" "fits_lineage m"
    and "id_fingerprint (lineage_identity sha256 l) = id_fingerprint (lineage_identity sha256 m)"
  shows "l = m"
  using assms(2-5)
proof (induction l arbitrary: m)
  case (Root_of i)
  have "final_preimage sha256 m = final_preimage sha256 (Root_of i)"
    by (rule final_preimage_cong[OF Root_of.prems(1,4)])
  with Root_of.prems(2,3) show ?case using final_preimage_root[OF assms(1), of i m] by simp
next
  case (Derive_from l i)
  let ?f = "\<lambda>l. id_fingerprint (lineage_identity sha256 l)" and ?s = "\<lambda>i. finish_step sha256 (build i)"
  have final: "final_preimage sha256 m = final_preimage sha256 (Derive_from l i)"
    by (rule final_preimage_cong[OF Derive_from.prems(1,4)])
  show ?case
  proof (cases m)
    case (Root_of j)
    with final Derive_from.prems(2,3) show ?thesis
      using final_preimage_root[OF assms(1), of j "Derive_from l i"] by simp
  next
    case m: (Derive_from n j)
    have inj: "inj_on sha256 (preimages sha256 (Derive_from l i) \<union> preimages sha256 (Derive_from n j))"
      using Derive_from.prems(1) m by simp
    have "derived_preimage (?f l) (?s i) = derived_preimage (?f n) (?s j)" using final m by simp
    then have eq: "?f l = ?f n" "?s i = ?s j"
      using derived_preimage_inject[OF lineage_fits[OF assms(1)] lineage_fits[OF assms(1)]] by blast+
    have "inj_on sha256 (preimages sha256 l \<union> preimages sha256 n)"
      by (rule inj_on_subset[OF inj]) auto
    then have "l = n"
      using Derive_from.prems(2,3) m by (intro Derive_from.IH eq(1)) simp_all
    moreover have "absorbed (build i) = absorbed (build j)"
      by (rule inj_onD[OF inj]) (use eq(2) in \<open>simp_all add: finish_step_def digest_def\<close>)
    then have "i = j" using Derive_from.prems(2,3) m by (simp add: absorbed_build_inject)
    ultimately show ?thesis using m by simp
  qed
qed

theorem lineage_fingerprint_injective_witness:
  "Root_of ([1], []) = Root_of ([1], [])
     \<and> digest_length (\<lambda>x. replicate 32 (if x = absorbed (build ([1], [])) then 1 else 0))"
proof -
  let ?sha = "\<lambda>x. replicate 32 (if x = absorbed (build ([1], [])) then 1 else 0) :: bytes"
  have "digest_length ?sha" by (simp add: digest_length_def)
  with lineage_fingerprint_injective[of ?sha "Root_of ([1], [])" "Root_of ([1], [])"] show ?thesis
    by (simp add: fits_inputs_def fits_def u64_max_def)
qed

text \<open>A derived template's hash input can never equal that of a root template or a step, whatever
  inputs they have: the two kinds of preimage are separated by their first frame.\<close>

lemma derived_and_root_domains_disjoint:
  assumes "digest_length sha256" "fits_inputs j"
  shows "derived_preimage (id_fingerprint (lineage_identity sha256 l)) (finish_step sha256 (build i))
     \<noteq> absorbed (build j)"
  using derived_preimage_not_build[OF lineage_fits[OF assms(1)] assms(2)] .

end
