(* ===== verification/Names.thy ===== *)
theory Names
  imports Config Fingerprint
begin

text \<open>
  Managed database names (\<open>src/name.rs\<close>) and the identifier and literal quoting of
  \<open>src/admin.rs\<close>. The fresh identifier of \<open>Uuid::now_v7().simple()\<close> (crate \<open>uuid\<close>) is an argument.
\<close>

definition IDENTIFIER_MAX_LEN :: nat where "IDENTIFIER_MAX_LEN = 63"

datatype database_kind = Test | Template

record database_name =
  db_value :: string
  db_kind :: database_kind

definition identifier_char :: "char \<Rightarrow> bool" where
  "identifier_char c \<longleftrightarrow> is_ascii_lowercase c \<or> is_ascii_digit c \<or> c = CHR ''_''"

definition DatabaseName_new :: "string \<Rightarrow> database_kind \<Rightarrow> database_name result" where
  "DatabaseName_new value kind =
     (let valid = value \<noteq> [] \<and> length value \<le> IDENTIFIER_MAX_LEN \<and> list_all identifier_char value
      in if \<not> valid then Inl (InvalidDatabaseName value)
         else Inr \<lparr>db_value = value, db_kind = kind\<rparr>)"

definition test_prefix :: "project_name \<Rightarrow> string" where
  "test_prefix project = ''pgh_'' @ project_as_str project @ ''_test_''"

definition template_prefix :: "project_name \<Rightarrow> string" where
  "template_prefix project = ''pgh_'' @ project_as_str project @ ''_template_''"

definition DatabaseName_test :: "project_name \<Rightarrow> string \<Rightarrow> database_name exec" where
  "DatabaseName_test project uuid =
     expect (ok (DatabaseName_new (test_prefix project @ uuid) Test))
       ''validated project names produce valid test database names''"

definition DatabaseName_template :: "project_name \<Rightarrow> template_fingerprint \<Rightarrow> database_name exec" where
  "DatabaseName_template project fingerprint =
     expect (ok (DatabaseName_new (template_prefix project @ short_hex fingerprint) Template))
       ''validated project names produce valid template database names''"

definition valid_hex_suffix :: "string \<Rightarrow> nat \<Rightarrow> bool" where
  "valid_hex_suffix suffix expected_len \<longleftrightarrow>
     length suffix = expected_len
     \<and> list_all (\<lambda>byte. is_ascii_digit byte \<or> is_lower_hex_letter byte) suffix"

definition from_existing :: "project_name \<Rightarrow> string \<Rightarrow> database_name option" where
  "from_existing project value =
     (case (case strip_prefix (test_prefix project) value of
              Some suffix \<Rightarrow> if valid_hex_suffix suffix 32 then Some Test else None
            | None \<Rightarrow>
                (case strip_prefix (template_prefix project) value of
                   None \<Rightarrow> None
                 | Some suffix \<Rightarrow> if valid_hex_suffix suffix 24 then Some Template else None)) of
        None \<Rightarrow> None
      | Some kind \<Rightarrow> ok (DatabaseName_new value kind))"

definition quoted :: "database_name \<Rightarrow> string" where
  "quoted self = ''\"'' @ db_value self @ ''\"''"

text \<open>\<open>quote_identifier\<close> and \<open>quote_literal\<close> of \<open>src/admin.rs\<close>.\<close>

definition quote_identifier :: "string \<Rightarrow> string result" where
  "quote_identifier identifier =
     (if identifier = ''template0''
         \<or> (identifier \<noteq> [] \<and> length identifier \<le> 63 \<and> list_all identifier_char identifier)
      then Inr (''\"'' @ identifier @ ''\"'')
      else Inl (InvalidDatabaseName identifier))"

fun double_quotes :: "string \<Rightarrow> string" where
  "double_quotes [] = []"
| "double_quotes (c # cs) = (if c = CHR 0x27 then [CHR 0x27, CHR 0x27] else [c]) @ double_quotes cs"

definition quote_literal :: "string \<Rightarrow> string" where
  "quote_literal value = CHR 0x27 # double_quotes value @ [CHR 0x27]"

section \<open>Well-formed names\<close>

definition wf_name :: "database_name \<Rightarrow> bool" where
  "wf_name n \<longleftrightarrow> db_value n \<noteq> [] \<and> length (db_value n) \<le> 63 \<and> list_all identifier_char (db_value n)"

text \<open>The documented form of a simple (hyphen-free, lower-case) version-7 UUID.\<close>

definition uuid_simple :: "string \<Rightarrow> bool" where
  "uuid_simple u \<longleftrightarrow> length u = 32 \<and> list_all lower_hex_char u"

lemma lower_hex_identifier: "lower_hex_char c \<Longrightarrow> identifier_char c"
  by (auto simp: lower_hex_char_def identifier_char_def std_defs)

lemma project_identifier: "project_char c \<Longrightarrow> identifier_char c"
  by (simp add: project_char_def identifier_char_def)

lemma identifier_char_lit: "list_all identifier_char ''pgh_''"
  "list_all identifier_char ''_test_''" "list_all identifier_char ''_template_''"
  by (simp_all add: identifier_char_def std_defs)

lemma wf_project_identifier: "wf_project p \<Longrightarrow> list_all identifier_char (project_as_str p)"
  using wf_project_chars project_identifier by (auto simp: list_all_iff)

lemma prefix_identifiers:
  assumes "wf_project p"
  shows "list_all identifier_char (test_prefix p)" "list_all identifier_char (template_prefix p)"
  using assms identifier_char_lit
  by (simp_all add: test_prefix_def template_prefix_def wf_project_identifier)

lemma prefix_lengths:
  assumes "wf_project p"
  shows "length (test_prefix p) \<le> 26" "length (template_prefix p) \<le> 30"
  using wf_project_length[OF assms] by (simp_all add: test_prefix_def template_prefix_def)

lemma DatabaseName_new_Inr_iff:
  "DatabaseName_new v k = Inr n \<longleftrightarrow> n = \<lparr>db_value = v, db_kind = k\<rparr> \<and> wf_name n"
  by (auto simp: DatabaseName_new_def wf_name_def IDENTIFIER_MAX_LEN_def)

lemma lower_hex_identifiers: "list_all lower_hex_char s \<Longrightarrow> list_all identifier_char s"
  using lower_hex_identifier by (auto simp: list_all_iff)

lemma DatabaseName_test_Return [no_panic]:
  assumes "wf_project p" "uuid_simple u"
  shows "DatabaseName_test p u = Return \<lparr>db_value = test_prefix p @ u, db_kind = Test\<rparr>"
  using assms prefix_identifiers[of p] prefix_lengths[of p] lower_hex_identifiers[of u]
  by (auto simp: DatabaseName_test_def DatabaseName_new_Inr_iff wf_name_def uuid_simple_def test_prefix_def)

lemma DatabaseName_template_Return [no_panic]:
  assumes "wf_project p" "wf_fp f"
  shows "DatabaseName_template p f
     = Return \<lparr>db_value = template_prefix p @ short_hex f, db_kind = Template\<rparr>"
  using assms prefix_identifiers[of p] prefix_lengths[of p] short_hex_shape[of f]
    lower_hex_identifiers[of "short_hex f"]
  by (auto simp: DatabaseName_template_def DatabaseName_new_Inr_iff wf_name_def template_prefix_def)

lemma valid_hex_suffix_iff: "valid_hex_suffix s n \<longleftrightarrow> length s = n \<and> list_all lower_hex_char s"
  by (auto simp: valid_hex_suffix_def lower_hex_char_def list_all_iff)

lemma from_existing_Some_iff:
  assumes "wf_project p"
  shows "from_existing p v = Some n \<longleftrightarrow>
     (\<exists>s. list_all lower_hex_char s \<and> n = \<lparr>db_value = v, db_kind = db_kind n\<rparr>
        \<and> ((db_kind n = Test \<and> length s = 32 \<and> v = test_prefix p @ s)
           \<or> (db_kind n = Template \<and> length s = 24 \<and> v = template_prefix p @ s)))"
    (is "?l \<longleftrightarrow> ?r")
proof
  assume ?l
  then show ?r
    by (auto simp: from_existing_def valid_hex_suffix_iff DatabaseName_new_Inr_iff strip_prefix_Some_iff
        split: option.splits if_splits)
next
  assume ?r
  then obtain s where s: "list_all lower_hex_char s" "n = \<lparr>db_value = v, db_kind = db_kind n\<rparr>"
    and c: "(db_kind n = Test \<and> length s = 32 \<and> v = test_prefix p @ s)
      \<or> (db_kind n = Template \<and> length s = 24 \<and> v = template_prefix p @ s)" by blast
  have wf: "wf_name \<lparr>db_value = v, db_kind = db_kind n\<rparr>"
    using c s(1) prefix_identifiers[OF assms] prefix_lengths[OF assms] lower_hex_identifiers
    by (auto simp: wf_name_def test_prefix_def template_prefix_def)
  from c show ?l
  proof
    assume t: "db_kind n = Test \<and> length s = 32 \<and> v = test_prefix p @ s"
    then have "strip_prefix (test_prefix p) v = Some s" by (simp add: strip_prefix_Some_iff)
    with t s wf show ?l
      by (simp add: from_existing_def valid_hex_suffix_iff DatabaseName_new_Inr_iff)
  next
    assume t: "db_kind n = Template \<and> length s = 24 \<and> v = template_prefix p @ s"
    then have "strip_prefix (template_prefix p) v = Some s" by (simp add: strip_prefix_Some_iff)
    moreover from t have "strip_prefix (test_prefix p) v = None"
      by (cases "strip_prefix (test_prefix p) v")
         (auto simp: strip_prefix_Some_iff test_prefix_def template_prefix_def)
    ultimately show ?l using t s wf
      by (simp add: from_existing_def valid_hex_suffix_iff DatabaseName_new_Inr_iff)
  qed
qed

lemma from_existing_value: "from_existing p v = Some n \<Longrightarrow> db_value n = v \<and> wf_name n"
  by (auto simp: from_existing_def DatabaseName_new_Inr_iff split: option.splits)

section \<open>Names of different projects are disjoint\<close>

lemma append_eq_same_length: "a @ x = b @ y \<Longrightarrow> length x = length y \<Longrightarrow> a = b \<and> x = y"
  by (metis append_eq_append_conv)

lemma hex_has_no: "list_all lower_hex_char s \<Longrightarrow> \<not> lower_hex_char c \<Longrightarrow> c \<notin> set s"
  by (auto simp: list_all_iff)

lemma test_template_names_disjoint:
  assumes "list_all lower_hex_char s" "length s = 32" "length t = 24"
    and "test_prefix p @ s = template_prefix q @ t"
  shows False
proof -
  let ?x = "''pgh_'' @ project_as_str q"
  have "(test_prefix p @ take 8 s) @ drop 8 s = (?x @ ''_template_'') @ t"
    using assms(4) by (simp add: template_prefix_def)
  then have "test_prefix p @ take 8 s = ?x @ ''_template_''"
    by (rule append_eq_same_length[THEN conjunct1]) (simp add: assms)
  then have "test_prefix p @ take 8 s = (?x @ ''_t'') @ ''emplate_''" by simp
  then have "take 8 s = ''emplate_''"
    by (rule append_eq_same_length[THEN conjunct2]) (simp add: assms)
  then have "CHR ''p'' \<in> set s" by (metis in_set_takeD list.set_intros(1) list.set_intros(2))
  moreover have "\<not> lower_hex_char (CHR ''p'')" by (simp add: lower_hex_char_def std_defs)
  ultimately show False using hex_has_no[OF assms(1)] by blast
qed

lemma from_existing_project_unique:
  assumes wf: "wf_project p" "wf_project q"
    and n: "from_existing p v = Some n" and m: "from_existing q v = Some m"
  shows "p = q \<and> n = m"
proof -
  from n[unfolded from_existing_Some_iff[OF wf(1)]] obtain s where
    s: "list_all lower_hex_char s" "n = \<lparr>db_value = v, db_kind = db_kind n\<rparr>"
      "(db_kind n = Test \<and> length s = 32 \<and> v = test_prefix p @ s)
         \<or> (db_kind n = Template \<and> length s = 24 \<and> v = template_prefix p @ s)" by blast
  from m[unfolded from_existing_Some_iff[OF wf(2)]] obtain t where
    t: "list_all lower_hex_char t" "m = \<lparr>db_value = v, db_kind = db_kind m\<rparr>"
      "(db_kind m = Test \<and> length t = 32 \<and> v = test_prefix q @ t)
         \<or> (db_kind m = Template \<and> length t = 24 \<and> v = template_prefix q @ t)" by blast
  have same: "db_kind n = db_kind m"
    using s(1,3) t(1,3) test_template_names_disjoint[of s t p q] test_template_names_disjoint[of t s q p]
    by metis
  then have "test_prefix p = test_prefix q \<or> template_prefix p = template_prefix q"
    using s(3) t(3) append_eq_same_length by (metis database_kind.distinct(1))
  then have "p = q"
    by (auto simp: test_prefix_def template_prefix_def intro: project_name.expand)
  with same s(2) t(2) show ?thesis by simp
qed

section \<open>Quoting\<close>

text \<open>
  How PostgreSQL reads a quoted literal: a doubled quote is one quote character, a single one
  ends the literal. The function returns the literal's value and the text after it.
\<close>

fun read_literal_body :: "string \<Rightarrow> (string \<times> string) option" where
  "read_literal_body [] = None"
| "read_literal_body (c # cs) =
     (if c = CHR 0x27 then
        (case cs of
           d # ds \<Rightarrow> if d = CHR 0x27 then map_option (\<lambda>(v, r). (CHR 0x27 # v, r)) (read_literal_body ds)
                     else Some ([], cs)
         | [] \<Rightarrow> Some ([], []))
      else map_option (\<lambda>(v, r). (c # v, r)) (read_literal_body cs))"

lemma read_literal_double_quotes:
  "\<not> (\<exists>r. rest = CHR 0x27 # r) \<Longrightarrow>
   read_literal_body (double_quotes v @ CHR 0x27 # rest) = Some (v, rest)"
proof (induction v)
  case Nil
  then show ?case by (cases rest) auto
next
  case (Cons c v)
  then show ?case by simp
qed

lemma identifier_char_not_quote: "\<not> identifier_char (CHR 0x22)" "\<not> identifier_char (CHR 0x27)"
  by (simp_all add: identifier_char_def std_defs)

section \<open>Properties\<close>

text \<open>C34: Every name the harness generates is valid, is recognised again by \<open>from_existing\<close> with its
  kind, and never makes the constructor panic: for any validated project, any simple UUID and any
  32-byte fingerprint.\<close>

theorem generated_names_recognised:
  assumes "wf_project p" "uuid_simple u" "wf_fp f"
  shows "(\<exists>n. DatabaseName_test p u = Return n \<and> db_kind n = Test \<and> wf_name n
            \<and> from_existing p (db_value n) = Some n)
     \<and> (\<exists>n. DatabaseName_template p f = Return n \<and> db_kind n = Template \<and> wf_name n
            \<and> from_existing p (db_value n) = Some n)"
proof
  let ?t = "\<lparr>db_value = test_prefix p @ u, db_kind = Test\<rparr>"
  have "from_existing p (db_value ?t) = Some ?t"
    using assms by (simp add: from_existing_Some_iff uuid_simple_def)
  then show "\<exists>n. DatabaseName_test p u = Return n \<and> db_kind n = Test \<and> wf_name n
      \<and> from_existing p (db_value n) = Some n"
    using DatabaseName_test_Return[OF assms(1,2)] from_existing_value by fastforce
  let ?m = "\<lparr>db_value = template_prefix p @ short_hex f, db_kind = Template\<rparr>"
  have "from_existing p (db_value ?m) = Some ?m"
    using assms(1) short_hex_shape[OF assms(3)] by (simp add: from_existing_Some_iff)
  then show "\<exists>n. DatabaseName_template p f = Return n \<and> db_kind n = Template \<and> wf_name n
      \<and> from_existing p (db_value n) = Some n"
    using DatabaseName_template_Return[OF assms(1,3)] from_existing_value by fastforce
qed

theorem generated_names_recognised_witness:
  "\<exists>n. DatabaseName_test (ProjectName ''a'') (replicate 32 (CHR ''0'')) = Return n \<and> wf_name n"
proof -
  have "wf_project (ProjectName ''a'')" by (simp add: wf_project_def std_defs)
  moreover have "uuid_simple (replicate 32 (CHR ''0''))"
    by (simp add: uuid_simple_def list_all_iff lower_hex_char_def std_defs)
  moreover have "wf_fp (TemplateFingerprint (replicate 32 0))" by (simp add: wf_fp_def FINGERPRINT_BYTES_def)
  ultimately show ?thesis using generated_names_recognised by blast
qed

text \<open>C33: Two projects never recognise the same database: a name accepted for one project is accepted
  for no other, and its kind is determined. Cleanup of one project cannot see a database of another,
  also when one project's name extends the other's with \<open>_test_\<close> or \<open>_template_\<close>.\<close>

theorem projects_own_disjoint_databases:
  assumes "ProjectName_new a = Inr p" "ProjectName_new b = Inr q"
    and "from_existing p v = Some n" "from_existing q v = Some m"
  shows "p = q \<and> n = m"
proof -
  from assms(1,2) have "wf_project p" "wf_project q" by (auto simp: ProjectName_new_Inr_iff)
  then show ?thesis using assms(3,4) by (rule from_existing_project_unique)
qed

theorem projects_own_disjoint_databases_witness:
  "ProjectName_new ''a'' = Inr (ProjectName ''a'') \<and> ProjectName ''a'' = ProjectName ''a''"
proof -
  let ?v = "''pgh_a_test_'' @ replicate 32 (CHR ''0'')"
  have p: "ProjectName_new ''a'' = Inr (ProjectName ''a'')" by code_simp
  have "from_existing (ProjectName ''a'') ?v = Some \<lparr>db_value = ?v, db_kind = Test\<rparr>" by code_simp
  with projects_own_disjoint_databases[OF p p] p show ?thesis by blast
qed

text \<open>SQL quoting is exact: the server reads a quoted literal back as the original text and stops
  at its closing quote, whatever the text contains; and a quoted identifier wraps the name in double
  quotes only when the name contains neither kind of quote.\<close>

lemma sql_quoting_exact:
  "read_literal_body (tl (quote_literal v) @ '' rest'') = Some (v, '' rest'')
   \<and> (case quote_identifier s of
        Inr q \<Rightarrow> q = CHR 0x22 # s @ [CHR 0x22] \<and> CHR 0x22 \<notin> set s \<and> CHR 0x27 \<notin> set s \<and> s \<noteq> []
      | Inl e \<Rightarrow> e = InvalidDatabaseName s)"
proof -
  have "CHR 0x22 \<notin> set s \<and> CHR 0x27 \<notin> set s" if "list_all identifier_char s"
    using that identifier_char_not_quote by (auto simp: list_all_iff)
  then show ?thesis
    using read_literal_double_quotes[of "'' rest''" v] by (auto simp: quote_literal_def quote_identifier_def)
qed

end
