(* ===== verification/Client.thy ===== *)
theory Client
  imports Names
begin

text \<open>
  The administrative client (\<open>src/admin.rs\<close>, first part): connection URLs, deadlines,
  \<open>AdminClient\<close> and its five request methods, and the monad in which the rest of the
  administrative code is written.

  The PostgreSQL server, the network, the clock and the driver \<open>tokio_postgres\<close> are outside the
  crate. A \<open>backend\<close> record stands for them: one function per driver call, acting on a world
  of any type \<open>'w\<close>. A request that the driver future does not finish before the timeout is
  \<open>Elapsed\<close>. The model keeps a trace of the requests and their replies.
\<close>

section \<open>The world\<close>

datatype sql_value = SqlInt int | SqlText string | SqlBool bool | SqlNull

type_synonym sql_row = "sql_value list"

datatype 'a reply = Elapsed | Rejected pg_error | Replied 'a

text \<open>The outcomes of the connection stages: configuration text, runtime, socket and startup.\<close>

datatype connect_reply =
    Config_rejected pg_error
  | Runtime_failed string
  | Connect_elapsed
  | Connect_rejected pg_error
  | Connected nat

record 'w backend =
  be_connect :: "string \<Rightarrow> duration \<Rightarrow> 'w \<Rightarrow> connect_reply \<times> 'w"
  be_batch :: "nat \<Rightarrow> duration \<Rightarrow> string \<Rightarrow> 'w \<Rightarrow> unit reply \<times> 'w"
  be_query :: "nat \<Rightarrow> duration \<Rightarrow> string \<Rightarrow> sql_value list \<Rightarrow> 'w \<Rightarrow> sql_row list reply \<times> 'w"
  be_query_one :: "nat \<Rightarrow> duration \<Rightarrow> string \<Rightarrow> sql_value list \<Rightarrow> 'w \<Rightarrow> sql_row reply \<times> 'w"
  be_query_opt :: "nat \<Rightarrow> duration \<Rightarrow> string \<Rightarrow> sql_value list \<Rightarrow> 'w \<Rightarrow> sql_row option reply \<times> 'w"
  be_now :: "'w \<Rightarrow> nat \<times> 'w"

datatype event =
    Connect_event string duration connect_reply
  | Batch_event nat duration string "unit reply"
  | Query_event nat duration string "sql_value list" "sql_row list reply"
  | Query_one_event nat duration string "sql_value list" "sql_row reply"
  | Query_opt_event nat duration string "sql_value list" "sql_row option reply"

record 'w io_state =
  world :: 'w
  trace :: "event list"

section \<open>Fallible stateful code\<close>

type_synonym ('w, 'a) io = "'w io_state \<Rightarrow> 'a result exec \<times> 'w io_state"

definition io_ok :: "'a \<Rightarrow> ('w, 'a) io" where
  "io_ok x s = (Return (Inr x), s)"

definition io_err :: "error \<Rightarrow> ('w, 'a) io" where
  "io_err e s = (Return (Inl e), s)"

definition io_exec :: "'a exec \<Rightarrow> ('w, 'a) io" where
  "io_exec x s = (case x of Return v \<Rightarrow> Return (Inr v) | Panic m \<Rightarrow> Panic m, s)"

definition io_result :: "'a result \<Rightarrow> ('w, 'a) io" where
  "io_result r s = (Return r, s)"

text \<open>Sequencing with the question-mark operator; a panic skips the rest.\<close>

definition io_bind :: "('w, 'a) io \<Rightarrow> ('a \<Rightarrow> ('w, 'b) io) \<Rightarrow> ('w, 'b) io" where
  "io_bind m f s =
     (case m s of
        (Return (Inr x), s') \<Rightarrow> f x s'
      | (Return (Inl e), s') \<Rightarrow> (Return (Inl e), s')
      | (Panic msg, s') \<Rightarrow> (Panic msg, s'))"

text \<open>A call whose \<open>Result\<close> is inspected by the caller.\<close>

definition io_try :: "('w, 'a) io \<Rightarrow> ('w, 'a result) io" where
  "io_try m s =
     (case m s of
        (Return r, s') \<Rightarrow> (Return (Inr r), s')
      | (Panic msg, s') \<Rightarrow> (Panic msg, s'))"

lemma io_simps [simp]:
  "io_ok x s = (Return (Inr x), s)" "io_err e s = (Return (Inl e), s)" "io_result r s = (Return r, s)"
  "io_exec (Return v) s = (Return (Inr v), s)" "io_exec (Panic m) s = (Panic m, s)"
  by (simp_all add: io_ok_def io_err_def io_result_def io_exec_def)

lemma io_bind_eq:
  "m s = (Return (Inr x), s') \<Longrightarrow> io_bind m f s = f x s'"
  "m s = (Return (Inl e), s') \<Longrightarrow> io_bind m f s = (Return (Inl e), s')"
  "m s = (Panic msg, s') \<Longrightarrow> io_bind m f s = (Panic msg, s')"
  by (simp_all add: io_bind_def)

lemma io_bind_cases:
  assumes "io_bind m f s = (r, t)"
  obtains (ok) x u where "m s = (Return (Inr x), u)" "f x u = (r, t)"
    | (err) e where "m s = (Return (Inl e), t)" "r = Return (Inl e)"
    | (panic) msg where "m s = (Panic msg, t)" "r = Panic msg"
  using assms by (auto simp: io_bind_def split: prod.splits exec.splits sum.splits)

lemma io_bind_ok_iff:
  "io_bind m f s = (Return (Inr y), t) \<longleftrightarrow>
     (\<exists>x u. m s = (Return (Inr x), u) \<and> f x u = (Return (Inr y), t))"
  by (auto simp: io_bind_def split: prod.splits exec.splits sum.splits)

lemma io_try_iff:
  "io_try m s = (Return (Inr r), t) \<longleftrightarrow> m s = (Return r, t)"
  by (auto simp: io_try_def split: prod.splits exec.splits)

lemma io_try_cases:
  assumes "io_try m s = (r, t)"
  obtains (ret) v where "m s = (Return v, t)" "r = Return (Inr v)"
    | (panic) msg where "m s = (Panic msg, t)" "r = Panic msg"
  using assms by (auto simp: io_try_def split: prod.splits exec.splits)

section \<open>Blocking tasks\<close>

text \<open>
  \<open>run_blocking\<close>: a panic of the blocking task reaches the caller as an error. A detached task is
  never cancelled once it runs.
\<close>

definition blocking_result :: "'a result exec \<Rightarrow> 'a result" where
  "blocking_result r = (case r of Return v \<Rightarrow> v | Panic m \<Rightarrow> Inl (BlockingTask m))"

definition run_blocking :: "('w, 'a) io \<Rightarrow> ('w, 'a) io" where
  "run_blocking operation s = (let (r, s') = operation s in (Return (blocking_result r), s'))"

lemma blocking_result_simps [simp]:
  "blocking_result (Return v) = v" "blocking_result (Panic m) = Inl (BlockingTask m)"
  by (simp_all add: blocking_result_def)

section \<open>Traces only grow\<close>

definition appends :: "('w, 'a) io \<Rightarrow> bool" where
  "appends m \<longleftrightarrow> (\<forall>s r t. m s = (r, t) \<longrightarrow> (\<exists>es. trace t = trace s @ es))"

named_theorems appends_intros \<open>operations extend the trace\<close>

lemma appendsI: "(\<And>s r t. m s = (r, t) \<Longrightarrow> \<exists>es. trace t = trace s @ es) \<Longrightarrow> appends m"
  by (simp add: appends_def)

lemma appendsD: "appends m \<Longrightarrow> m s = (r, t) \<Longrightarrow> \<exists>es. trace t = trace s @ es"
  by (auto simp: appends_def)

lemma appends_simple [appends_intros]:
  "appends (io_ok x)" "appends (io_err e)" "appends (io_result r)" "appends (io_exec v)"
  by (simp_all add: appends_def io_exec_def)

lemma appends_bind [appends_intros]:
  assumes "appends m" "\<And>x. appends (f x)" shows "appends (io_bind m f)"
proof (rule appendsI)
  fix s r t assume "io_bind m f s = (r, t)"
  then show "\<exists>es. trace t = trace s @ es"
  proof (cases rule: io_bind_cases)
    case (ok x u)
    from appendsD[OF assms(1) ok(1)] appendsD[OF assms(2) ok(2)] show ?thesis by auto
  qed (auto dest: appendsD[OF assms(1)])
qed

lemma appends_try [appends_intros]: "appends m \<Longrightarrow> appends (io_try m)"
  by (rule appendsI, erule io_try_cases) (auto dest: appendsD)

section \<open>Deadlines\<close>

definition CONNECT_TIMEOUT :: duration where "CONNECT_TIMEOUT = from_secs 10"
definition CLIENT_OPERATION_TIMEOUT_GRACE :: duration where "CLIENT_OPERATION_TIMEOUT_GRACE = from_secs 1"
definition LOCK_TIMEOUT :: duration where "LOCK_TIMEOUT = from_secs 10"
definition LIFECYCLE_APPLICATION_NAME_PREFIX :: string where
  "LIFECYCLE_APPLICATION_NAME_PREFIX = ''postgres-test-harness lifecycle:''"

definition client_operation_timeout :: "duration \<Rightarrow> duration" where
  "client_operation_timeout operation_timeout =
     duration_saturating_add operation_timeout CLIENT_OPERATION_TIMEOUT_GRACE"

definition read_clock :: "'w backend \<Rightarrow> ('w, nat) io" where
  "read_clock be s = (let (now, w) = be_now be (world s) in (Return (Inr now), s\<lparr>world := w\<rparr>))"

record deadline =
  dl_started :: nat
  dl_timeout :: duration

definition Deadline_new :: "'w backend \<Rightarrow> duration \<Rightarrow> ('w, deadline) io" where
  "Deadline_new be timeout =
     io_bind (read_clock be) (\<lambda>now. io_ok \<lparr>dl_started = now, dl_timeout = timeout\<rparr>)"

text \<open>\<open>Instant::elapsed\<close> saturates at zero.\<close>

definition deadline_remaining :: "'w backend \<Rightarrow> deadline \<Rightarrow> ('w, duration option) io" where
  "deadline_remaining be self =
     io_bind (read_clock be) (\<lambda>now. io_ok
       (case checked_sub (dl_timeout self) (now - dl_started self) of
          None \<Rightarrow> None
        | Some remaining \<Rightarrow> if remaining = 0 then None else Some remaining))"

definition deadline_is_elapsed :: "'w backend \<Rightarrow> deadline \<Rightarrow> ('w, bool) io" where
  "deadline_is_elapsed be self =
     io_bind (read_clock be) (\<lambda>now. io_ok (now - dl_started self \<ge> dl_timeout self))"

definition checkout_timeout :: "deadline \<Rightarrow> error" where
  "checkout_timeout d = AdminSessionCheckoutTimeout (dl_timeout d)"

definition checkout_remaining :: "'w backend \<Rightarrow> deadline \<Rightarrow> ('w, duration) io" where
  "checkout_remaining be d =
     io_bind (deadline_remaining be d) (\<lambda>r.
       case r of Some remaining \<Rightarrow> io_ok remaining
       | None \<Rightarrow> io_err (AdminSessionCheckoutTimeout (dl_timeout d)))"

section \<open>\<open>AdminClient\<close>\<close>

record admin_client =
  client_session :: nat
  request_timeout :: duration

definition run_admin_operation :: "duration \<Rightarrow> string \<Rightarrow> 'a reply \<Rightarrow> 'a result" where
  "run_admin_operation timeout operation reply =
     (case reply of
        Elapsed \<Rightarrow> Inl (PostgresOperationTimeout operation timeout)
      | Rejected source \<Rightarrow> Inl (Error_postgres operation source)
      | Replied x \<Rightarrow> Inr x)"

definition AdminClient_connect ::
  "'w backend \<Rightarrow> string \<Rightarrow> duration \<Rightarrow> duration \<Rightarrow> string \<Rightarrow> ('w, admin_client) io" where
  "AdminClient_connect be admin_url connect_timeout req_timeout operation s =
     (let (reply, w) = be_connect be admin_url connect_timeout (world s);
          s' = \<lparr>world = w, trace = trace s @ [Connect_event admin_url connect_timeout reply]\<rparr>
      in case reply of
           Config_rejected source \<Rightarrow> (Return (Inl (Error_postgres operation source)), s')
         | Runtime_failed source \<Rightarrow> (Return (Inl (PostgresRuntime operation source)), s')
         | Connect_elapsed \<Rightarrow> (Return (Inl (PostgresConnectTimeout operation connect_timeout)), s')
         | Connect_rejected source \<Rightarrow> (Return (Inl (Error_postgres operation source)), s')
         | Connected session \<Rightarrow>
             (Return (Inr \<lparr>client_session = session, request_timeout = req_timeout\<rparr>), s'))"

definition batch_execute_with_timeout ::
  "'w backend \<Rightarrow> admin_client \<Rightarrow> duration \<Rightarrow> string \<Rightarrow> string \<Rightarrow> ('w, unit) io" where
  "batch_execute_with_timeout be self timeout operation query s =
     (let (reply, w) = be_batch be (client_session self) timeout query (world s)
      in (Return (run_admin_operation timeout operation reply),
          \<lparr>world = w, trace = trace s @ [Batch_event (client_session self) timeout query reply]\<rparr>))"

definition batch_execute :: "'w backend \<Rightarrow> admin_client \<Rightarrow> string \<Rightarrow> string \<Rightarrow> ('w, unit) io" where
  "batch_execute be self operation query =
     batch_execute_with_timeout be self (request_timeout self) operation query"

definition client_query ::
  "'w backend \<Rightarrow> admin_client \<Rightarrow> string \<Rightarrow> string \<Rightarrow> sql_value list \<Rightarrow> ('w, sql_row list) io" where
  "client_query be self operation query params s =
     (let (reply, w) = be_query be (client_session self) (request_timeout self) query params (world s)
      in (Return (run_admin_operation (request_timeout self) operation reply),
          \<lparr>world = w, trace = trace s
             @ [Query_event (client_session self) (request_timeout self) query params reply]\<rparr>))"

definition query_one_with_timeout ::
  "'w backend \<Rightarrow> admin_client \<Rightarrow> duration \<Rightarrow> string \<Rightarrow> string \<Rightarrow> sql_value list \<Rightarrow> ('w, sql_row) io" where
  "query_one_with_timeout be self timeout operation query params s =
     (let (reply, w) = be_query_one be (client_session self) timeout query params (world s)
      in (Return (run_admin_operation timeout operation reply),
          \<lparr>world = w, trace = trace s
             @ [Query_one_event (client_session self) timeout query params reply]\<rparr>))"

definition query_one ::
  "'w backend \<Rightarrow> admin_client \<Rightarrow> string \<Rightarrow> string \<Rightarrow> sql_value list \<Rightarrow> ('w, sql_row) io" where
  "query_one be self operation query params =
     query_one_with_timeout be self (request_timeout self) operation query params"

definition query_opt ::
  "'w backend \<Rightarrow> admin_client \<Rightarrow> string \<Rightarrow> string \<Rightarrow> sql_value list \<Rightarrow> ('w, sql_row option) io" where
  "query_opt be self operation query params s =
     (let (reply, w) = be_query_opt be (client_session self) (request_timeout self) query params (world s)
      in (Return (run_admin_operation (request_timeout self) operation reply),
          \<lparr>world = w, trace = trace s
             @ [Query_opt_event (client_session self) (request_timeout self) query params reply]\<rparr>))"

text \<open>\<open>Row::get\<close> at a type panics on a missing column or a value of another type.\<close>

definition column :: "sql_row \<Rightarrow> nat \<Rightarrow> sql_value option" where
  "column row i = (if i < length row then Some (row ! i) else None)"

definition get_int :: "sql_row \<Rightarrow> nat \<Rightarrow> int exec" where
  "get_int row i = (case column row i of Some (SqlInt v) \<Rightarrow> Return v | _ \<Rightarrow> Panic ''row get'')"

definition get_bool :: "sql_row \<Rightarrow> nat \<Rightarrow> bool exec" where
  "get_bool row i = (case column row i of Some (SqlBool v) \<Rightarrow> Return v | _ \<Rightarrow> Panic ''row get'')"

definition get_text :: "sql_row \<Rightarrow> nat \<Rightarrow> string exec" where
  "get_text row i = (case column row i of Some (SqlText v) \<Rightarrow> Return v | _ \<Rightarrow> Panic ''row get'')"

definition get_text_opt :: "sql_row \<Rightarrow> nat \<Rightarrow> string option exec" where
  "get_text_opt row i =
     (case column row i of
        Some (SqlText v) \<Rightarrow> Return (Some v) | Some SqlNull \<Rightarrow> Return None | _ \<Rightarrow> Panic ''row get'')"

text \<open>\<open>PersistentClient\<close>: the client is present until the wrapper is dropped.\<close>

datatype persistent_client = PersistentClient (persistent_inner: "admin_client option")

definition PersistentClient_new :: "admin_client \<Rightarrow> persistent_client" where
  "PersistentClient_new client = PersistentClient (Some client)"

definition persistent_client_mut :: "persistent_client \<Rightarrow> admin_client exec" where
  "persistent_client_mut self =
     expect (persistent_inner self) ''persistent PostgreSQL client exists until drop''"

lemma persistent_client_mut_new [simp, no_panic]:
  "persistent_client_mut (PersistentClient_new c) = Return c"
  by (simp add: persistent_client_mut_def PersistentClient_new_def)

section \<open>Trace facts of the request methods\<close>

lemmas request_defs = batch_execute_def batch_execute_with_timeout_def client_query_def query_one_def
  query_one_with_timeout_def query_opt_def

lemma appends_requests [appends_intros]:
  "appends (batch_execute_with_timeout be c timeout op q)" "appends (batch_execute be c op q)"
  "appends (client_query be c op q ps)" "appends (query_one_with_timeout be c timeout op q ps)"
  "appends (query_one be c op q ps)" "appends (query_opt be c op q ps)"
  "appends (AdminClient_connect be url ct rt op)" "appends (read_clock be)"
  by (auto simp: appends_def request_defs AdminClient_connect_def read_clock_def Let_def
      split: prod.splits connect_reply.splits)

lemma run_admin_operation_ok_iff: "run_admin_operation t op r = Inr x \<longleftrightarrow> r = Replied x"
  by (auto simp: run_admin_operation_def split: reply.splits)

lemma run_admin_operation_db_error:
  "run_admin_operation t op r = Inl (Postgres op' e) \<longleftrightarrow> op' = op \<and> r = Rejected e"
  by (auto simp: run_admin_operation_def Error_postgres_def split: reply.splits)

section \<open>Connection URLs\<close>

text \<open>The operations of the \<open>url\<close> crate that the harness calls.\<close>

record 'u url_api =
  url_parse :: "string \<Rightarrow> 'u option"
  url_scheme :: "'u \<Rightarrow> string"
  url_has_host :: "'u \<Rightarrow> bool"
  url_path :: "'u \<Rightarrow> string"
  url_set_path :: "string \<Rightarrow> 'u \<Rightarrow> 'u"
  url_clear_fragment :: "'u \<Rightarrow> 'u"
  url_text :: "'u \<Rightarrow> string"

datatype 'u admin_database_url = AdminDatabaseUrl (inner_url: 'u)

definition AdminDatabaseUrl_parse :: "'u url_api \<Rightarrow> string \<Rightarrow> 'u admin_database_url result" where
  "AdminDatabaseUrl_parse api value =
     (case url_parse api value of
        None \<Rightarrow> Inl (InvalidAdminDatabaseUrl ''the value must be an absolute PostgreSQL URL'')
      | Some url \<Rightarrow>
          if url_scheme api url \<notin> {''postgres'', ''postgresql''}
          then Inl (InvalidAdminDatabaseUrl ''the URL scheme must be postgres or postgresql'')
          else if \<not> url_has_host api url
          then Inl (InvalidAdminDatabaseUrl ''the URL must contain a host'')
          else if list_all (\<lambda>c. c = CHR ''/'') (url_path api url)
          then Inl (InvalidAdminDatabaseUrl ''the URL must identify an administrative database'')
          else Inr (AdminDatabaseUrl url))"

definition admin_url_as_str :: "'u url_api \<Rightarrow> 'u admin_database_url \<Rightarrow> string" where
  "admin_url_as_str api self = url_text api (inner_url self)"

definition database_url :: "'u url_api \<Rightarrow> 'u admin_database_url \<Rightarrow> database_name \<Rightarrow> string" where
  "database_url api self name =
     url_text api (url_clear_fragment api (url_set_path api (CHR ''/'' # db_value name) (inner_url self)))"

end
