(* ===== verification/Metadata.thy ===== *)
theory Metadata
  imports Names "HOL-Library.Monad_Syntax"
begin

text \<open>
  The metadata a managed database carries as its catalog comment (\<open>src/metadata.rs\<close>): the
  encoder, the strict parser and the accessors. The clock (\<open>unix_now\<close>) is an argument.
\<close>

definition PREFIX :: string where "PREFIX = ''postgres-test-harness:v1''"

datatype template_state = Initializing | Ready

datatype resource_metadata =
    TestMeta (meta_project: project_name) (meta_owner_key: int) (meta_created_at: nat)
  | TemplateMeta (meta_project: project_name) (meta_lock: int)
      (meta_fingerprint: template_fingerprint) (meta_parent: "template_fingerprint option")
      (meta_state: template_state) (meta_created_at: nat)

definition ResourceMetadata_test :: "nat \<Rightarrow> project_name \<Rightarrow> int \<Rightarrow> resource_metadata" where
  "ResourceMetadata_test unix_now project owner_key = TestMeta project owner_key unix_now"

definition ResourceMetadata_template ::
  "nat \<Rightarrow> project_name \<Rightarrow> int \<Rightarrow> template_identity \<Rightarrow> template_state \<Rightarrow> resource_metadata" where
  "ResourceMetadata_template unix_now project lock_key identity state =
     TemplateMeta project lock_key (id_fingerprint identity) (id_parent identity) state unix_now"

fun state_text :: "template_state \<Rightarrow> string" where
  "state_text Initializing = ''initializing''"
| "state_text Ready = ''ready''"

fun encode :: "resource_metadata \<Rightarrow> string" where
  "encode (TestMeta project owner_key created_at) =
     PREFIX @ '';kind=test;project='' @ project_as_str project
       @ '';owner='' @ show_int owner_key @ '';created='' @ show_nat created_at"
| "encode (TemplateMeta project lock_key fingerprint parent state created_at) =
     PREFIX @ '';kind=template;project='' @ project_as_str project
       @ '';lock='' @ show_int lock_key
       @ '';fingerprint='' @ to_hex fingerprint
       @ (case parent of None \<Rightarrow> [] | Some p \<Rightarrow> '';parent='' @ to_hex p)
       @ '';state='' @ state_text state @ '';created='' @ show_nat created_at"

section \<open>Parsing\<close>

text \<open>The \<open>HashMap\<close> of fields as an association list with distinct keys.\<close>

type_synonym fields = "(string \<times> string) list"

fun insert_fields :: "fields \<Rightarrow> string list \<Rightarrow> fields option" where
  "insert_fields values [] = Some values"
| "insert_fields values (part # parts) =
     (case split_once (CHR ''='') part of
        None \<Rightarrow> None
      | Some (key, value) \<Rightarrow>
          (case map_of values key of
             Some _ \<Rightarrow> None
           | None \<Rightarrow> insert_fields ((key, value) # values) parts))"

text \<open>\<open>HashMap::remove\<close>: the removed value, if any, and the remaining fields.\<close>

definition remove_field :: "string \<Rightarrow> fields \<Rightarrow> (string \<times> fields) option" where
  "remove_field key values =
     (case map_of values key of
        None \<Rightarrow> None | Some v \<Rightarrow> Some (v, filter (\<lambda>(k, _). k \<noteq> key) values))"

fun parse_state :: "string \<Rightarrow> template_state option" where
  "parse_state s =
     (if s = ''initializing'' then Some Initializing
      else if s = ''ready'' then Some Ready else None)"

definition parse_parent :: "fields \<Rightarrow> (template_fingerprint option \<times> fields) option" where
  "parse_parent values =
     (case remove_field ''parent'' values of
        None \<Rightarrow> Some (None, values)
      | Some (parent, rest) \<Rightarrow> map_option (\<lambda>p. (Some p, rest)) (from_hex parent))"

definition parse_kind ::
  "string \<Rightarrow> project_name \<Rightarrow> nat \<Rightarrow> fields \<Rightarrow> (resource_metadata \<times> fields) option" where
  "parse_kind kind project created_at values =
     (if kind = ''test'' \<and> length values = 1 then do {
        (owner, values) \<leftarrow> remove_field ''owner'' values;
        owner_key \<leftarrow> parse_i64 owner;
        Some (TestMeta project owner_key created_at, values) }
      else if kind = ''template'' then do {
        (lock, values) \<leftarrow> remove_field ''lock'' values;
        lock_key \<leftarrow> parse_i64 lock;
        (hex, values) \<leftarrow> remove_field ''fingerprint'' values;
        fingerprint \<leftarrow> from_hex hex;
        (parent, values) \<leftarrow> parse_parent values;
        (st, values) \<leftarrow> remove_field ''state'' values;
        state \<leftarrow> parse_state st;
        Some (TemplateMeta project lock_key fingerprint parent state created_at, values) }
      else None)"

definition parse_values :: "fields \<Rightarrow> resource_metadata option" where
  "parse_values values = do {
     (kind, values) \<leftarrow> remove_field ''kind'' values;
     (name, values) \<leftarrow> remove_field ''project'' values;
     project \<leftarrow> ok (ProjectName_new name);
     (created, values) \<leftarrow> remove_field ''created'' values;
     created_at \<leftarrow> parse_u64 created;
     (metadata, values) \<leftarrow> parse_kind kind project created_at values;
     if values = [] then Some metadata else None }"

definition parse :: "string \<Rightarrow> resource_metadata option" where
  "parse encoded =
     (case split_char (CHR '';'') encoded of
        [] \<Rightarrow> None
      | prefix # parts \<Rightarrow>
          if prefix \<noteq> PREFIX then None
          else Option.bind (insert_fields [] parts) parse_values)"

fun lock_key :: "resource_metadata \<Rightarrow> int" where
  "lock_key (TestMeta p owner_key c) = owner_key"
| "lock_key (TemplateMeta p lock f pa st c) = lock"

section \<open>Well-formed metadata and the round trip\<close>

definition i64 :: "int \<Rightarrow> bool" where "i64 i \<longleftrightarrow> i64_min \<le> i \<and> i \<le> i64_max"

fun wf_metadata :: "resource_metadata \<Rightarrow> bool" where
  "wf_metadata (TestMeta p k c) \<longleftrightarrow> wf_project p \<and> i64 k \<and> c \<le> u64_max"
| "wf_metadata (TemplateMeta p k f pa st c) \<longleftrightarrow>
     wf_project p \<and> i64 k \<and> c \<le> u64_max \<and> wf_fp f \<and> (\<forall>q. pa = Some q \<longrightarrow> wf_fp q)"

fun field :: "string \<times> string \<Rightarrow> string" where
  "field (k, v) = k @ CHR ''='' # v"

fun metadata_fields :: "resource_metadata \<Rightarrow> fields" where
  "metadata_fields (TestMeta p k c) =
     [(''kind'', ''test''), (''project'', project_as_str p), (''owner'', show_int k),
      (''created'', show_nat c)]"
| "metadata_fields (TemplateMeta p k f pa st c) =
     [(''kind'', ''template''), (''project'', project_as_str p), (''lock'', show_int k),
      (''fingerprint'', to_hex f)]
     @ (case pa of None \<Rightarrow> [] | Some q \<Rightarrow> [(''parent'', to_hex q)])
     @ [(''state'', state_text st), (''created'', show_nat c)]"

lemma encode_join: "encode m = join_char (CHR '';'') (PREFIX # map field (metadata_fields m))"
  by (cases m) (auto split: option.splits)

lemma no_semicolon:
  "CHR '';'' \<notin> set (show_nat n)" "CHR '';'' \<notin> set (show_int i)"
  "wf_project p \<Longrightarrow> CHR '';'' \<notin> set (project_as_str p)" "CHR '';'' \<notin> set (to_hex f)"
  "CHR '';'' \<notin> set (state_text st)" "CHR '';'' \<notin> set PREFIX"
proof -
  show "CHR '';'' \<notin> set (show_nat n)" by (rule show_nat_free) (simp add: std_defs)
  show "CHR '';'' \<notin> set (show_int i)" using show_int_chars[of "CHR '';''" i] by (auto simp: std_defs)
  show "wf_project p \<Longrightarrow> CHR '';'' \<notin> set (project_as_str p)"
    by (erule wf_project_free) (simp add: project_char_def std_defs)
  show "CHR '';'' \<notin> set (to_hex f)" using encode_hex_chars[of "fp_bytes f"]
    by (auto simp: to_hex_def list_all_iff lower_hex_char_def std_defs)
  show "CHR '';'' \<notin> set (state_text st)" by (cases st) auto
  show "CHR '';'' \<notin> set PREFIX" by (simp add: PREFIX_def)
qed

lemma split_encode:
  assumes "wf_metadata m"
  shows "split_char (CHR '';'') (encode m) = PREFIX # map field (metadata_fields m)"
  unfolding encode_join
proof (rule split_join_char)
  show "\<forall>w \<in> set (PREFIX # map field (metadata_fields m)). CHR '';'' \<notin> set w"
    using assms no_semicolon by (cases m) (auto split: option.splits)
qed simp

lemma insert_fields_map:
  assumes "\<forall>(k, v) \<in> set fs. CHR ''='' \<notin> set k" "distinct (map fst fs)"
    and "fst ` set fs \<inter> fst ` set acc = {}"
  shows "insert_fields acc (map field fs) = Some (rev fs @ acc)"
  using assms
proof (induction fs arbitrary: acc)
  case (Cons kv fs)
  obtain k v where kv: "kv = (k, v)" by fastforce
  with Cons.prems have "split_once (CHR ''='') (field kv) = Some (k, v)" "map_of acc k = None"
    by (auto simp: split_once_append map_of_eq_None_iff)
  moreover have "fst ` set fs \<inter> fst ` set ((k, v) # acc) = {}"
    using Cons.prems kv by auto
  ultimately show ?case using Cons kv by auto
qed simp

lemma insert_encoded_fields:
  "insert_fields [] (map field (metadata_fields m)) = Some (rev (metadata_fields m))"
  by (rule insert_fields_map[of _ "[]", simplified]) (cases m; auto split: option.splits)+

lemma state_roundtrip [simp]: "parse_state (state_text st) = Some st"
  by (cases st) auto

lemma parse_values_fields:
  "wf_metadata m \<Longrightarrow> parse_values (rev (metadata_fields m)) = Some m"
  by (cases m)
     (auto simp: parse_values_def remove_field_def parse_kind_def
       parse_parent_def wf_project_new i64_def parse_u64_show_nat parse_i64_show_int from_hex_to_hex
       simp del: parse_state.simps state_text.simps split: option.splits)

lemma parse_encode: "wf_metadata m \<Longrightarrow> parse (encode m) = Some m"
  by (simp add: parse_def split_encode insert_encoded_fields parse_values_fields del: encode.simps)

interpretation metadata_text: codec encode parse wf_metadata
  by unfold_locales (rule parse_encode)

section \<open>The parser is strict\<close>

definition field_keys :: "fields \<Rightarrow> string set" where
  "field_keys vs = fst ` set vs"

lemma remove_field_keys:
  assumes "remove_field k vs = Some (v, rest)" "distinct (map fst vs)"
  shows "field_keys vs = insert k (field_keys rest)" "distinct (map fst rest)"
proof -
  from assms have v: "map_of vs k = Some v" and rest: "rest = filter (\<lambda>(j, _). j \<noteq> k) vs"
    by (auto simp: remove_field_def split: option.splits)
  from v have "k \<in> field_keys vs" by (force simp: field_keys_def dest: map_of_SomeD)
  moreover have "field_keys rest = field_keys vs - {k}" by (force simp: field_keys_def rest)
  ultimately show "field_keys vs = insert k (field_keys rest)" by blast
  show "distinct (map fst rest)" using assms(2) by (simp add: rest distinct_map_filter)
qed

lemma insert_fields_distinct:
  "insert_fields acc parts = Some vs \<Longrightarrow> distinct (map fst acc) \<Longrightarrow>
     distinct (map fst vs) \<and> map field vs = rev parts @ map field acc"
proof (induction parts arbitrary: acc)
  case (Cons part parts)
  from Cons.prems obtain k v where kv: "split_once (CHR ''='') part = Some (k, v)"
    and fresh: "map_of acc k = None" and rec: "insert_fields ((k, v) # acc) parts = Some vs"
    by (auto split: option.splits)
  from fresh Cons.prems(2) have "distinct (map fst ((k, v) # acc))"
    by (simp add: map_of_eq_None_iff)
  from Cons.IH[OF rec this] kv show ?case by (simp add: split_once_Some_iff)
qed simp

lemma parse_parent_keys:
  assumes "parse_parent vs = Some (pa, rest)" "distinct (map fst vs)"
  shows "field_keys vs = (case pa of None \<Rightarrow> {} | Some q \<Rightarrow> {''parent''}) \<union> field_keys rest
     \<and> distinct (map fst rest) \<and> (\<forall>q. pa = Some q \<longrightarrow> wf_fp q)"
  using assms from_hex_wf
  by (auto simp: parse_parent_def split: option.splits dest: remove_field_keys)

definition metadata_keys :: "resource_metadata \<Rightarrow> string set" where
  "metadata_keys m = field_keys (metadata_fields m)"

lemma parse_kind_cases:
  assumes "parse_kind kind project c vs = Some (m, rest)"
  obtains (test) owner k where "kind = ''test''" "remove_field ''owner'' vs = Some (owner, rest)"
      "parse_i64 owner = Some k" "m = TestMeta project k c"
    | (template) l k h f v1 v2 pa v3 st sta where "kind = ''template''"
      "remove_field ''lock'' vs = Some (l, v1)" "parse_i64 l = Some k"
      "remove_field ''fingerprint'' v1 = Some (h, v2)" "from_hex h = Some f"
      "parse_parent v2 = Some (pa, v3)" "remove_field ''state'' v3 = Some (st, rest)"
      "parse_state st = Some sta" "m = TemplateMeta project k f pa sta c"
  using assms unfolding parse_kind_def
  by (auto simp: bind_eq_Some_conv simp del: parse_state.simps split: if_splits prod.splits)

lemma parse_kind_keys:
  assumes "parse_kind kind project c vs = Some (m, [])" "distinct (map fst vs)"
    and "wf_project project" "c \<le> u64_max"
  shows "metadata_keys m = {''kind'', ''project'', ''created''} \<union> field_keys vs \<and> wf_metadata m"
  using assms(1)
proof (cases rule: parse_kind_cases)
  case (test owner k)
  with assms remove_field_keys[OF test(2) assms(2)] parse_i64_bound[OF test(3)] show ?thesis
    by (auto simp: metadata_keys_def field_keys_def i64_def)
next
  case (template l k h f v1 v2 pa v3 st sta)
  note k1 = remove_field_keys[OF template(2) assms(2)]
  note k2 = remove_field_keys[OF template(4) k1(2)]
  note k3 = parse_parent_keys[OF template(6) k2(2)]
  note k4 = remove_field_keys[OF template(7) k3[THEN conjunct2, THEN conjunct1]]
  have vs: "field_keys vs = {''lock'', ''fingerprint'', ''state''}
      \<union> (case pa of None \<Rightarrow> {} | Some q \<Rightarrow> {''parent''})"
    using k1(1) k2(1) k3 k4(1) by (auto simp: field_keys_def[of "[]"])
  show ?thesis unfolding vs
    using template(9) assms(3,4) k3 parse_i64_bound[OF template(3)] from_hex_wf[OF template(5)]
    by (cases pa) (auto simp: metadata_keys_def field_keys_def i64_def)
qed

lemma parse_values_keys:
  assumes "parse_values vs = Some m" "distinct (map fst vs)"
  shows "field_keys vs = metadata_keys m \<and> wf_metadata m"
proof -
  from assms(1) obtain kind v1 name v2 project created v3 c where
    r: "remove_field ''kind'' vs = Some (kind, v1)" "remove_field ''project'' v1 = Some (name, v2)"
      "ProjectName_new name = Inr project" "remove_field ''created'' v2 = Some (created, v3)"
      "parse_u64 created = Some c" "parse_kind kind project c v3 = Some (m, [])"
    by (auto simp: parse_values_def bind_eq_Some_conv split: prod.splits if_splits)
  note k1 = remove_field_keys[OF r(1) assms(2)]
  note k2 = remove_field_keys[OF r(2) k1(2)]
  note k3 = remove_field_keys[OF r(4) k2(2)]
  from r(3) have "wf_project project" by (auto simp: ProjectName_new_Inr_iff)
  from parse_kind_keys[OF r(6) k3(2) this parse_u64_bound[OF r(5)]] k1(1) k2(1) k3(1)
  show ?thesis by auto
qed

lemma parse_Some_cases:
  assumes "parse s = Some m"
  obtains parts vs where "split_char (CHR '';'') s = PREFIX # parts"
    and "insert_fields [] parts = Some vs" and "parse_values vs = Some m"
  using assms by (auto simp: parse_def bind_eq_Some_conv split: list.splits if_splits)

lemma parse_wf: "parse s = Some m \<Longrightarrow> wf_metadata m"
  by (erule parse_Some_cases) (auto dest!: insert_fields_distinct parse_values_keys)

lemma wf_metadata_project: "wf_metadata m \<Longrightarrow> wf_project (meta_project m)"
  by (cases m) auto

lemma wf_metadata_lock_key: "wf_metadata m \<Longrightarrow> i64 (lock_key m)"
  by (cases m) auto

section \<open>Properties\<close>

text \<open>C35: Reading back an encoded comment gives the same metadata, for every test or template resource
  the harness can create (root or derived).\<close>

theorem metadata_roundtrip:
  assumes "wf_metadata m" shows "parse (encode m) = Some m"
  using assms by (rule metadata_text.decode_encode)

theorem metadata_roundtrip_witness:
  "parse (encode (TestMeta (ProjectName ''a'') (-3) 5)) = Some (TestMeta (ProjectName ''a'') (-3) 5)"
  using metadata_roundtrip[of "TestMeta (ProjectName ''a'') (-3) 5"]
  by (simp add: wf_project_def i64_def i64_min_def i64_max_def u64_max_def std_defs)



end
