(* ===== verification/Admin.thy ===== *)
theory Admin
  imports Client Metadata Admission
begin

text \<open>
  The administrative SQL of the harness (\<open>src/admin.rs\<close>, second part): session configuration,
  version and capacity checks, advisory locks, creation, tagging and removal of managed databases.
  Each definition issues the statements of the source in its order, through \<open>Client\<close>.
\<close>

section \<open>Session configuration\<close>

definition duration_millis :: "duration \<Rightarrow> nat result" where
  "duration_millis d = (if as_millis d \<le> u64_max then Inr (as_millis d) else Inl (TimeoutOutOfRange d))"

definition configure_session_timeouts_with_timeout ::
  "'w backend \<Rightarrow> admin_client \<Rightarrow> duration \<Rightarrow> duration \<Rightarrow> ('w, unit) io" where
  "configure_session_timeouts_with_timeout be client operation_timeout req_timeout =
     io_bind (io_result (duration_millis operation_timeout)) (\<lambda>statement_timeout.
     io_bind (io_result (duration_millis (min LOCK_TIMEOUT operation_timeout))) (\<lambda>lock_timeout.
     batch_execute_with_timeout be client req_timeout ''configure admin session timeouts''
       (''SET statement_timeout = '' @ show_nat statement_timeout
          @ ''; SET lock_timeout = '' @ show_nat lock_timeout @ '';'')))"

definition configure_session_timeouts ::
  "'w backend \<Rightarrow> admin_client \<Rightarrow> duration \<Rightarrow> ('w, unit) io" where
  "configure_session_timeouts be client operation_timeout =
     configure_session_timeouts_with_timeout be client operation_timeout (request_timeout client)"

definition configure_lifecycle_session_with_timeout ::
  "'w backend \<Rightarrow> admin_client \<Rightarrow> duration \<Rightarrow> string \<Rightarrow> duration \<Rightarrow> ('w, unit) io" where
  "configure_lifecycle_session_with_timeout be client operation_timeout application_name req_timeout =
     io_bind (io_result (duration_millis operation_timeout)) (\<lambda>statement_timeout.
     io_bind (io_result (duration_millis (min LOCK_TIMEOUT operation_timeout))) (\<lambda>lock_timeout.
     batch_execute_with_timeout be client req_timeout ''configure pooled admin session''
       (''SET statement_timeout = '' @ show_nat statement_timeout
          @ ''; SET lock_timeout = '' @ show_nat lock_timeout
          @ ''; SET application_name = '' @ quote_literal application_name)))"

definition configure_lifecycle_session ::
  "'w backend \<Rightarrow> admin_client \<Rightarrow> duration \<Rightarrow> string \<Rightarrow> ('w, unit) io" where
  "configure_lifecycle_session be client operation_timeout application_name =
     configure_lifecycle_session_with_timeout be client operation_timeout application_name
       (request_timeout client)"

definition prepare_new_lifecycle_session ::
  "'w backend \<Rightarrow> admin_client \<Rightarrow> duration \<Rightarrow> string \<Rightarrow> ('w, unit) io" where
  "prepare_new_lifecycle_session be client operation_timeout application_name =
     configure_lifecycle_session be client operation_timeout application_name"

definition prepare_reused_lifecycle_session ::
  "'w backend \<Rightarrow> admin_client \<Rightarrow> duration \<Rightarrow> string \<Rightarrow> deadline \<Rightarrow> ('w, unit) io" where
  "prepare_reused_lifecycle_session be client operation_timeout application_name checkout_deadline =
     io_bind (checkout_remaining be checkout_deadline) (\<lambda>reset_timeout.
     io_bind (batch_execute_with_timeout be client reset_timeout ''reset pooled admin session''
                ''DISCARD ALL'') (\<lambda>_.
     io_bind (checkout_remaining be checkout_deadline) (\<lambda>configure_timeout.
     configure_lifecycle_session_with_timeout be client operation_timeout application_name
       configure_timeout)))"

definition configure_coordination_timeouts ::
  "'w backend \<Rightarrow> admin_client \<Rightarrow> duration \<Rightarrow> ('w, unit) io" where
  "configure_coordination_timeouts be client wait_timeout =
     io_bind (io_result (duration_millis wait_timeout)) (\<lambda>timeout.
     batch_execute be client ''configure template coordination timeouts''
       (''SET statement_timeout = '' @ show_nat timeout
          @ ''; SET lock_timeout = '' @ show_nat timeout @ '';''))"

definition connect_admin_with_timeout ::
  "'w backend \<Rightarrow> string \<Rightarrow> duration \<Rightarrow> string \<Rightarrow> duration \<Rightarrow> ('w, admin_client) io" where
  "connect_admin_with_timeout be admin_url operation_timeout operation connect_timeout =
     io_bind (AdminClient_connect be admin_url connect_timeout
                (client_operation_timeout operation_timeout) operation) (\<lambda>client.
     io_bind (configure_session_timeouts be client operation_timeout) (\<lambda>_. io_ok client))"

definition connect_admin ::
  "'w backend \<Rightarrow> string \<Rightarrow> duration \<Rightarrow> string \<Rightarrow> ('w, admin_client) io" where
  "connect_admin be admin_url operation_timeout operation =
     connect_admin_with_timeout be admin_url operation_timeout operation CONNECT_TIMEOUT"

definition connect_admin_with_setup_timeout ::
  "'w backend \<Rightarrow> string \<Rightarrow> duration \<Rightarrow> string \<Rightarrow> duration \<Rightarrow> duration \<Rightarrow> ('w, admin_client) io" where
  "connect_admin_with_setup_timeout be admin_url operation_timeout operation connect_timeout setup_timeout =
     io_bind (Deadline_new be setup_timeout) (\<lambda>dl.
     io_bind (deadline_remaining be dl) (\<lambda>r1.
     case r1 of
       None \<Rightarrow> io_err (PostgresConnectTimeout operation setup_timeout)
     | Some remaining \<Rightarrow>
         io_bind (AdminClient_connect be admin_url (min connect_timeout remaining)
                    (client_operation_timeout operation_timeout) operation) (\<lambda>client.
         io_bind (deadline_remaining be dl) (\<lambda>r2.
         case r2 of
           None \<Rightarrow> io_err (PostgresOperationTimeout ''configure admin session timeouts'' setup_timeout)
         | Some configure_timeout \<Rightarrow>
             io_bind (configure_session_timeouts_with_timeout be client operation_timeout configure_timeout)
               (\<lambda>_. io_ok client)))))"

section \<open>Server checks\<close>

text \<open>Division of \<open>i32\<close> rounds toward zero.\<close>

definition i32_div :: "int \<Rightarrow> int \<Rightarrow> int" where
  "i32_div a b = sgn a * sgn b * (\<bar>a\<bar> div \<bar>b\<bar>)"

definition validate_postgres_18 :: "'w backend \<Rightarrow> admin_client \<Rightarrow> ('w, unit) io" where
  "validate_postgres_18 be client =
     io_bind (query_one be client ''read PostgreSQL server version''
                ''SELECT current_setting('server_version_num')::integer'' []) (\<lambda>row.
     io_bind (io_exec (get_int row 0)) (\<lambda>server_version_num.
     if i32_div server_version_num 10000 \<noteq> 18
     then io_err (UnsupportedPostgresVersion server_version_num)
     else
       io_bind (io_try (query_one be client ''check PostgreSQL uuidv7 capability''
                          ''SELECT uuidv7()::text'' [])) (\<lambda>r.
       case r of Inl _ \<Rightarrow> io_err MissingUuidV7 | Inr _ \<Rightarrow> io_ok ())))"

definition regular_connection_slots_from_settings :: "int \<Rightarrow> int \<Rightarrow> int \<Rightarrow> nat" where
  "regular_connection_slots_from_settings max_connections reserved_connections
     superuser_reserved_connections =
     nat (max max_connections 0) - nat (max reserved_connections 0)
       - nat (max superuser_reserved_connections 0)"

definition regular_connection_slots :: "'w backend \<Rightarrow> admin_client \<Rightarrow> ('w, nat) io" where
  "regular_connection_slots be client =
     io_bind (query_one be client ''read PostgreSQL connection capacity''
        ''SELECT current_setting('max_connections')::integer, current_setting('reserved_connections')::integer, current_setting('superuser_reserved_connections')::integer''
        []) (\<lambda>row.
     io_bind (io_exec (get_int row 0)) (\<lambda>m.
     io_bind (io_exec (get_int row 1)) (\<lambda>r.
     io_bind (io_exec (get_int row 2)) (\<lambda>s.
     io_ok (regular_connection_slots_from_settings m r s)))))"

section \<open>Advisory locks\<close>

definition acquire_advisory_lock :: "'w backend \<Rightarrow> admin_client \<Rightarrow> int \<Rightarrow> ('w, unit) io" where
  "acquire_advisory_lock be client key =
     io_bind (query_one be client ''acquire PostgreSQL advisory lock''
        ''SELECT pg_advisory_lock($1)'' [SqlInt key]) (\<lambda>_. io_ok ())"

definition acquire_template_advisory_lock ::
  "'w backend \<Rightarrow> admin_client \<Rightarrow> int \<Rightarrow> duration \<Rightarrow> duration \<Rightarrow> ('w, unit) io" where
  "acquire_template_advisory_lock be client key wait_timeout operation_timeout =
     io_bind (configure_coordination_timeouts be client wait_timeout) (\<lambda>_.
     io_bind (query_one_with_timeout be client (client_operation_timeout wait_timeout)
        ''acquire PostgreSQL template advisory lock'' ''SELECT pg_advisory_lock($1)'' [SqlInt key]) (\<lambda>_.
     configure_session_timeouts be client operation_timeout))"

definition acquire_shared_template_advisory_lock ::
  "'w backend \<Rightarrow> admin_client \<Rightarrow> int \<Rightarrow> duration \<Rightarrow> duration \<Rightarrow> ('w, unit) io" where
  "acquire_shared_template_advisory_lock be client key wait_timeout operation_timeout =
     io_bind (configure_coordination_timeouts be client wait_timeout) (\<lambda>_.
     io_bind (query_one_with_timeout be client (client_operation_timeout wait_timeout)
        ''acquire shared PostgreSQL template advisory lock'' ''SELECT pg_advisory_lock_shared($1)''
        [SqlInt key]) (\<lambda>_.
     configure_session_timeouts be client operation_timeout))"

definition try_acquire_advisory_lock :: "'w backend \<Rightarrow> admin_client \<Rightarrow> int \<Rightarrow> ('w, bool) io" where
  "try_acquire_advisory_lock be client key =
     io_bind (query_one be client ''try PostgreSQL advisory lock''
        ''SELECT pg_try_advisory_lock($1)'' [SqlInt key]) (\<lambda>row. io_exec (get_bool row 0))"

definition release_advisory_lock :: "'w backend \<Rightarrow> admin_client \<Rightarrow> int \<Rightarrow> ('w, unit) io" where
  "release_advisory_lock be client key =
     io_bind (query_one be client ''release PostgreSQL advisory lock''
        ''SELECT pg_advisory_unlock($1)'' [SqlInt key]) (\<lambda>_. io_ok ())"

definition release_shared_advisory_lock :: "'w backend \<Rightarrow> admin_client \<Rightarrow> int \<Rightarrow> ('w, unit) io" where
  "release_shared_advisory_lock be client key =
     io_bind (query_one be client ''release shared PostgreSQL advisory lock''
        ''SELECT pg_advisory_unlock_shared($1)'' [SqlInt key]) (\<lambda>_. io_ok ())"

section \<open>Databases\<close>

record database_record =
  rec_name :: string
  rec_comment :: "string option"

definition create_sql :: "database_name \<Rightarrow> string \<Rightarrow> string" where
  "create_sql name template = ''CREATE DATABASE '' @ quoted name @ '' TEMPLATE '' @ template"

definition drop_sql :: "database_name \<Rightarrow> string" where
  "drop_sql name = ''DROP DATABASE IF EXISTS '' @ quoted name @ '' WITH (FORCE)''"

definition comment_sql :: "database_name \<Rightarrow> resource_metadata \<Rightarrow> string" where
  "comment_sql name metadata =
     ''COMMENT ON DATABASE '' @ quoted name @ '' IS '' @ quote_literal (encode metadata)"

definition create_database :: "'w backend \<Rightarrow> admin_client \<Rightarrow> database_name \<Rightarrow> string \<Rightarrow> ('w, unit) io" where
  "create_database be client name template_name =
     io_bind (io_result (quote_identifier template_name)) (\<lambda>template.
     batch_execute be client ''create disposable PostgreSQL database'' (create_sql name template))"

definition drop_database :: "'w backend \<Rightarrow> admin_client \<Rightarrow> database_name \<Rightarrow> ('w, unit) io" where
  "drop_database be client name =
     batch_execute be client ''drop disposable PostgreSQL database'' (drop_sql name)"

definition set_database_metadata ::
  "'w backend \<Rightarrow> admin_client \<Rightarrow> database_name \<Rightarrow> resource_metadata \<Rightarrow> ('w, unit) io" where
  "set_database_metadata be client name metadata =
     batch_execute be client ''write disposable PostgreSQL database metadata'' (comment_sql name metadata)"

definition classify_database_creation_failure :: "error \<Rightarrow> managed_database_creation_failure" where
  "classify_database_creation_failure err =
     (case err of
        Postgres _ source \<Rightarrow>
          if as_db_error source then CreationNoResidual err else CreationResidualPossible err
      | _ \<Rightarrow> CreationResidualPossible err)"

text \<open>The cleanup closure is inspected through its result.\<close>

definition compensate_failed_metadata_write ::
  "error \<Rightarrow> ('w, unit) io \<Rightarrow> ('w, managed_database_creation_failure) io" where
  "compensate_failed_metadata_write tagging cleanup =
     io_bind (io_try cleanup) (\<lambda>r. io_ok
       (case r of
          Inr _ \<Rightarrow> CreationNoResidual tagging
        | Inl e \<Rightarrow> CreationResidualPossible (ManagedDatabaseTagAndCleanup tagging e)))"

definition attempt_managed_database_creation ::
  "'w backend \<Rightarrow> admin_client \<Rightarrow> database_name \<Rightarrow> string \<Rightarrow> resource_metadata
     \<Rightarrow> ('w, managed_database_creation_failure + unit) io" where
  "attempt_managed_database_creation be client name template_name metadata =
     io_bind (io_try (create_database be client name template_name)) (\<lambda>created.
     case created of
       Inl err \<Rightarrow> io_ok (Inl (classify_database_creation_failure err))
     | Inr _ \<Rightarrow>
         io_bind (io_try (set_database_metadata be client name metadata)) (\<lambda>tagged.
         case tagged of
           Inl tagging \<Rightarrow>
             io_bind (compensate_failed_metadata_write tagging (drop_database be client name))
               (\<lambda>failure. io_ok (Inl failure))
         | Inr _ \<Rightarrow> io_ok (Inr ())))"

definition record_of_row :: "sql_row \<Rightarrow> database_record exec" where
  "record_of_row row =
     bind_exec (get_text row 0) (\<lambda>name.
     bind_exec (get_text_opt row 1) (\<lambda>comment. Return \<lparr>rec_name = name, rec_comment = comment\<rparr>))"

definition find_database ::
  "'w backend \<Rightarrow> admin_client \<Rightarrow> database_name \<Rightarrow> ('w, database_record option) io" where
  "find_database be client name =
     io_bind (query_opt be client ''find disposable PostgreSQL database''
        ''SELECT datname, shobj_description(oid, 'pg_database') FROM pg_database WHERE datname = $1''
        [SqlText (db_value name)]) (\<lambda>row.
     case row of
       None \<Rightarrow> io_ok None
     | Some r \<Rightarrow> io_bind (io_exec (record_of_row r)) (\<lambda>rec. io_ok (Some rec)))"

definition disable_database_connections :: "'w backend \<Rightarrow> admin_client \<Rightarrow> database_name \<Rightarrow> ('w, unit) io" where
  "disable_database_connections be client name =
     batch_execute be client ''disable PostgreSQL template connections''
       (''ALTER DATABASE '' @ quoted name @ '' ALLOW_CONNECTIONS false'')"

text \<open>\<open>rows.iter().any(..)\<close> stops at the first backend that was not terminated.\<close>

fun any_not_terminated :: "sql_row list \<Rightarrow> bool exec" where
  "any_not_terminated [] = Return False"
| "any_not_terminated (row # rows) =
     bind_exec (get_bool row 0) (\<lambda>b. if \<not> b then Return True else any_not_terminated rows)"

definition terminate_database_connections ::
  "'w backend \<Rightarrow> admin_client \<Rightarrow> database_name \<Rightarrow> duration \<Rightarrow> ('w, unit) io" where
  "terminate_database_connections be client name operation_timeout =
     io_bind (io_result (duration_millis operation_timeout)) (\<lambda>millis.
     if int millis > i64_max then io_err (TimeoutOutOfRange operation_timeout)
     else
       io_bind (client_query be client ''terminate PostgreSQL template connections''
          ''SELECT pg_terminate_backend(pid, $2::bigint) FROM pg_stat_activity WHERE datname = $1 AND pid <> pg_backend_pid()''
          [SqlText (db_value name), SqlInt (int millis)]) (\<lambda>rows.
       io_bind (io_exec (any_not_terminated rows)) (\<lambda>remain.
       if remain then io_err (TemplateConnectionsRemain (db_value name))
       else
         io_bind (query_one be client ''verify PostgreSQL template connections''
            ''SELECT EXISTS(SELECT 1 FROM pg_stat_activity WHERE datname = $1)''
            [SqlText (db_value name)]) (\<lambda>row.
         io_bind (io_exec (get_bool row 0)) (\<lambda>connections_remain.
         if connections_remain then io_err (TemplateConnectionsRemain (db_value name))
         else io_ok ())))))"

fun records_of_rows :: "sql_row list \<Rightarrow> database_record list exec" where
  "records_of_rows [] = Return []"
| "records_of_rows (row # rows) =
     bind_exec (record_of_row row) (\<lambda>r. bind_exec (records_of_rows rows) (\<lambda>rs. Return (r # rs)))"

definition list_databases :: "'w backend \<Rightarrow> admin_client \<Rightarrow> ('w, database_record list) io" where
  "list_databases be client =
     io_bind (client_query be client ''list PostgreSQL databases for stale cleanup''
        ''SELECT datname, shobj_description(oid, 'pg_database') FROM pg_database'' []) (\<lambda>rows.
     io_exec (records_of_rows rows))"

section \<open>Advisory keys\<close>

definition advisory_preimage :: "string \<Rightarrow> string \<Rightarrow> bytes" where
  "advisory_preimage domain identity =
     bytes_of_string ''postgres-test-harness-advisory-v1''
       @ to_be_bytes (length domain) @ bytes_of_string domain
       @ to_be_bytes (length identity) @ bytes_of_string identity"

text \<open>\<open>i64::from_be_bytes\<close> of the first eight digest bytes.\<close>

definition i64_from_be_bytes :: "bytes \<Rightarrow> int" where
  "i64_from_be_bytes bs =
     (let u = int (from_be_bytes bs) in if u > i64_max then u - 18446744073709551616 else u)"

definition advisory_key :: "(bytes \<Rightarrow> bytes) \<Rightarrow> string \<Rightarrow> string \<Rightarrow> int exec" where
  "advisory_key sha256 domain identity =
     (let dig = sha256 (advisory_preimage domain identity)
      in if length dig < 8 then Panic ''range end index 8 out of range''
         else Return (i64_from_be_bytes (take 8 dig)))"

lemmas admin_defs = configure_session_timeouts_with_timeout_def configure_session_timeouts_def
  configure_lifecycle_session_with_timeout_def configure_lifecycle_session_def
  prepare_new_lifecycle_session_def prepare_reused_lifecycle_session_def configure_coordination_timeouts_def

end
