(* ===== verification/Sessions.thy ===== *)
theory Sessions
  imports Admin
begin

text \<open>
  The pool of administrative sessions (\<open>AdminSessionPool\<close> of \<open>src/admin.rs\<close>). The operations that
  run under the pool's mutex are functions on its state; the whole call \<open>execute\<close> (checkout,
  operation, return of the session by \<open>Drop\<close>) is composed from them over the server. A result
  \<open>None\<close> is a caller that waits on the condition variable.
\<close>

section \<open>State\<close>

record session_pool =
  sp_admin_url :: string
  sp_operation_timeout :: duration
  sp_application_name :: string
  sp_max_size :: nat
  sp_idle :: "persistent_client list"
  sp_total :: nat
  sp_closed :: bool

record admin_session =
  ses_client :: "persistent_client option"
  ses_reusable :: bool

datatype 'a disposition = Reuse 'a | Evict 'a

definition AdminSessionPool_new :: "string \<Rightarrow> duration \<Rightarrow> string \<Rightarrow> nat \<Rightarrow> session_pool" where
  "AdminSessionPool_new admin_url operation_timeout project max_size =
     \<lparr>sp_admin_url = admin_url, sp_operation_timeout = operation_timeout,
      sp_application_name = LIFECYCLE_APPLICATION_NAME_PREFIX @ project,
      sp_max_size = max max_size 1, sp_idle = [], sp_total = 0, sp_closed = False\<rparr>"

section \<open>Sections under the mutex\<close>

text \<open>
  One pass of the loop of \<open>acquire_checkout\<close>. \<open>Vec::pop\<close> takes the last idle session;
  \<open>Inr None\<close> reserves a slot for a new connection; a caller that finds neither waits unless its
  deadline is over.
\<close>

datatype acquired = Waiting | Refused error | Granted "persistent_client option" session_pool

definition acquire_checkout :: "deadline \<Rightarrow> duration option \<Rightarrow> session_pool \<Rightarrow> acquired" where
  "acquire_checkout dl remaining self =
     (if sp_closed self then Refused AdminSessionPoolClosed
      else if sp_idle self \<noteq> [] then
        Granted (Some (last (sp_idle self))) (self\<lparr>sp_idle := butlast (sp_idle self)\<rparr>)
      else if sp_total self < sp_max_size self then
        Granted None (self\<lparr>sp_total := sp_total self + 1\<rparr>)
      else
        (case remaining of
           None \<Rightarrow> Refused (AdminSessionCheckoutTimeout (dl_timeout dl))
         | Some _ \<Rightarrow> Waiting))"

definition release_slot :: "session_pool \<Rightarrow> session_pool exec" where
  "release_slot self =
     bind_exec (expect (checked_sub (sp_total self) 1)
         ''a reserved admin-session slot exists until release'')
       (\<lambda>t. Return (self\<lparr>sp_total := t\<rparr>))"

definition session_drop :: "admin_session \<Rightarrow> session_pool \<Rightarrow> session_pool exec" where
  "session_drop ses pool =
     bind_exec (expect (ses_client ses) ''checked-out admin session is returned at most once'') (\<lambda>client.
     if ses_reusable ses \<and> \<not> sp_closed pool then Return (pool\<lparr>sp_idle := sp_idle pool @ [client]\<rparr>)
     else
       bind_exec (expect (checked_sub (sp_total pool) 1)
           ''a checked-out admin session is included in the pool total'')
         (\<lambda>t. Return (pool\<lparr>sp_total := t\<rparr>)))"

definition pool_close :: "session_pool \<Rightarrow> session_pool exec" where
  "pool_close self =
     bind_exec (expect (checked_sub (sp_total self) (length (sp_idle self)))
         ''idle admin sessions are included in the pool total'')
       (\<lambda>t. Return (self\<lparr>sp_closed := True, sp_total := t, sp_idle := []\<rparr>))"

section \<open>Checkout\<close>

definition fresh_session :: "persistent_client \<Rightarrow> admin_session" where
  "fresh_session client = \<lparr>ses_client = Some client, ses_reusable = False\<rparr>"

definition session_client_mut :: "admin_session \<Rightarrow> admin_client exec" where
  "session_client_mut self =
     bind_exec (expect (ses_client self) ''checked-out admin session exists until drop'') persistent_client_mut"

definition connect_lifecycle ::
  "'w backend \<Rightarrow> session_pool \<Rightarrow> string \<Rightarrow> ('w, persistent_client) io" where
  "connect_lifecycle be self connect_operation =
     io_bind (AdminClient_connect be (sp_admin_url self) CONNECT_TIMEOUT
                (client_operation_timeout (sp_operation_timeout self)) connect_operation) (\<lambda>client.
     io_bind (prepare_new_lifecycle_session be client (sp_operation_timeout self) (sp_application_name self))
       (\<lambda>_. io_ok (PersistentClient_new client)))"

text \<open>Preparation of a reused session through \<open>client_mut\<close>.\<close>

definition prepare_reused ::
  "'w backend \<Rightarrow> session_pool \<Rightarrow> deadline \<Rightarrow> persistent_client \<Rightarrow> ('w, unit) io" where
  "prepare_reused be self dl client =
     io_bind (io_exec (persistent_client_mut client)) (\<lambda>c.
     prepare_reused_lifecycle_session be c (sp_operation_timeout self) (sp_application_name self) dl)"

text \<open>
  The loop of \<open>checkout\<close>, for a caller that meets no interference between its sections: each
  pass that fails to prepare a reused session discards it, so the idle list bounds the passes.
  \<open>None\<close> is a caller that waits for a session.
\<close>

definition acquire_now ::
  "'w backend \<Rightarrow> deadline \<Rightarrow> session_pool \<Rightarrow> 'w io_state \<Rightarrow> acquired \<times> 'w io_state" where
  "acquire_now be dl self s =
     (if \<not> sp_closed self \<and> sp_idle self = [] \<and> sp_total self \<ge> sp_max_size self
      then (case deadline_remaining be dl s of
              (Return (Inr r), s') \<Rightarrow> (acquire_checkout dl r self, s')
            | (_, s') \<Rightarrow> (acquire_checkout dl None self, s'))
      else (acquire_checkout dl None self, s))"

lemma acquire_now_idle:
  "acquire_now be dl self s = (Granted (Some client) pool', s') \<Longrightarrow> length (sp_idle pool') < length (sp_idle self)"
  by (auto simp: acquire_now_def acquire_checkout_def split: if_splits prod.splits exec.splits sum.splits option.splits)

function checkout_loop ::
  "'w backend \<Rightarrow> string \<Rightarrow> deadline \<Rightarrow> session_pool \<Rightarrow> 'w io_state
     \<Rightarrow> (admin_session result exec \<times> session_pool \<times> 'w io_state) option" where
  "checkout_loop be connect_operation dl self s =
     (case acquire_now be dl self s of
        (Waiting, s1) \<Rightarrow> None
      | (Refused e, s1) \<Rightarrow> Some (Return (Inl e), self, s1)
      | (Granted (Some client) pool1, s1) \<Rightarrow>
          (case prepare_reused be pool1 dl client s1 of
             (Return (Inr _), s2) \<Rightarrow> Some (Return (Inr (fresh_session client)), pool1, s2)
           | (Panic m, s2) \<Rightarrow> Some (Panic m, pool1, s2)
           | (Return (Inl _), s2) \<Rightarrow>
               (case release_slot pool1 of
                  Panic m \<Rightarrow> Some (Panic m, pool1, s2)
                | Return pool2 \<Rightarrow>
                    (case deadline_is_elapsed be dl s2 of
                       (elapsed, s3) \<Rightarrow>
                         if elapsed = Return (Inr True)
                         then Some (Return (Inl (checkout_timeout dl)), pool2, s3)
                         else checkout_loop be connect_operation dl pool2 s3)))
      | (Granted None pool1, s1) \<Rightarrow>
          (case connect_lifecycle be pool1 connect_operation s1 of
             (Return (Inr client), s2) \<Rightarrow> Some (Return (Inr (fresh_session client)), pool1, s2)
           | (Panic m, s2) \<Rightarrow> Some (Panic m, pool1, s2)
           | (Return (Inl e), s2) \<Rightarrow>
               (case release_slot pool1 of
                  Panic m \<Rightarrow> Some (Panic m, pool1, s2)
                | Return pool2 \<Rightarrow> Some (Return (Inl e), pool2, s2))))"
  by pat_completeness auto
termination
  by (relation "measure (\<lambda>(_, _, _, p, _). length (sp_idle p))")
     (auto dest!: acquire_now_idle[OF sym] simp: release_slot_def bind_exec_Return_iff)

declare checkout_loop.simps [simp del]

definition checkout ::
  "'w backend \<Rightarrow> string \<Rightarrow> session_pool \<Rightarrow> 'w io_state
     \<Rightarrow> (admin_session result exec \<times> session_pool \<times> 'w io_state) option" where
  "checkout be connect_operation self s =
     (case Deadline_new be (sp_operation_timeout self) s of
        (Return (Inr dl), s') \<Rightarrow> checkout_loop be connect_operation dl self s'
      | (Return (Inl e), s') \<Rightarrow> Some (Return (Inl e), self, s')
      | (Panic m, s') \<Rightarrow> Some (Panic m, self, s'))"

text \<open>
  \<open>execute_with_disposition\<close>: the session is dropped at the end of the scope, also when the
  operation panics.
\<close>

definition execute_with_disposition ::
  "'w backend \<Rightarrow> string \<Rightarrow> (admin_client \<Rightarrow> 'w io_state \<Rightarrow> 'a disposition exec \<times> 'w io_state)
     \<Rightarrow> session_pool \<Rightarrow> 'w io_state \<Rightarrow> ('a result exec \<times> session_pool \<times> 'w io_state) option" where
  "execute_with_disposition be connect_operation operation self s =
     (case checkout be connect_operation self s of
        None \<Rightarrow> None
      | Some (Panic m, pool, s1) \<Rightarrow> Some (Panic m, pool, s1)
      | Some (Return (Inl e), pool, s1) \<Rightarrow> Some (Return (Inl e), pool, s1)
      | Some (Return (Inr ses), pool, s1) \<Rightarrow>
          (case session_client_mut ses of
             Panic m \<Rightarrow> Some (Panic m, pool, s1)
           | Return client \<Rightarrow>
               let (out, s2) = operation client s1;
                   (value, ses') = (case out of
                       Return (Reuse v) \<Rightarrow> (Return (Inr v), ses\<lparr>ses_reusable := True\<rparr>)
                     | Return (Evict v) \<Rightarrow> (Return (Inr v), ses)
                     | Panic m \<Rightarrow> (Panic m, ses))
               in case session_drop ses' pool of
                    Panic m \<Rightarrow> Some (Panic m, pool, s2)
                  | Return pool' \<Rightarrow> Some (value, pool', s2)))"

definition disposition_of :: "'a result exec \<Rightarrow> 'a result disposition exec" where
  "disposition_of r =
     (case r of
        Return (Inr v) \<Rightarrow> Return (Reuse (Inr v)) | Return (Inl e) \<Rightarrow> Return (Evict (Inl e)) | Panic m \<Rightarrow> Panic m)"

definition execute ::
  "'w backend \<Rightarrow> string \<Rightarrow> (admin_client \<Rightarrow> ('w, 'a) io)
     \<Rightarrow> session_pool \<Rightarrow> 'w io_state \<Rightarrow> ('a result exec \<times> session_pool \<times> 'w io_state) option" where
  "execute be connect_operation operation self s =
     map_option (\<lambda>(r, pool, s'). (bind_exec r (\<lambda>r. Return (bind_result r (\<lambda>v. v))), pool, s'))
       (execute_with_disposition be connect_operation
          (\<lambda>client s. let (r, s') = operation client s in (disposition_of r, s')) self s)"

section \<open>Counting\<close>

text \<open>\<open>outside\<close> counts the slots of callers that hold or are establishing a session.\<close>

definition pool_inv :: "nat \<Rightarrow> session_pool \<Rightarrow> bool" where
  "pool_inv outside p \<longleftrightarrow> sp_total p = length (sp_idle p) + outside \<and> sp_total p \<le> sp_max_size p
     \<and> (sp_closed p \<longrightarrow> sp_idle p = [])
     \<and> (\<forall>c \<in> set (sp_idle p). persistent_inner c \<noteq> None)"

lemma pool_inv_new: "pool_inv 0 (AdminSessionPool_new url t p n)"
  by (simp add: pool_inv_def AdminSessionPool_new_def)

lemma acquire_checkout_inv:
  assumes "pool_inv k p" "acquire_checkout dl r p = Granted c p'"
  shows "pool_inv (Suc k) p' \<and> (\<forall>x. c = Some x \<longrightarrow> persistent_inner x \<noteq> None)
     \<and> sp_max_size p' = sp_max_size p \<and> sp_closed p' = sp_closed p \<and> \<not> sp_closed p"
proof -
  from assms(2) consider (idle) "\<not> sp_closed p" "sp_idle p \<noteq> []" "c = Some (last (sp_idle p))"
      "p' = p\<lparr>sp_idle := butlast (sp_idle p)\<rparr>"
    | (slot) "\<not> sp_closed p" "sp_idle p = []" "sp_total p < sp_max_size p" "c = None"
      "p' = p\<lparr>sp_total := sp_total p + 1\<rparr>"
    by (auto simp: acquire_checkout_def split: if_splits option.splits)
  then show ?thesis
  proof cases
    case idle
    then obtain xs x where "sp_idle p = xs @ [x]" by (metis rev_exhaust)
    with assms(1) idle show ?thesis by (auto simp: pool_inv_def)
  next
    case slot
    with assms(1) show ?thesis by (auto simp: pool_inv_def)
  qed
qed

lemma acquire_now_inv:
  assumes "pool_inv k p" "acquire_now be dl p s = (Granted c p', s')"
  shows "pool_inv (Suc k) p' \<and> (\<forall>x. c = Some x \<longrightarrow> persistent_inner x \<noteq> None)
     \<and> sp_max_size p' = sp_max_size p \<and> sp_closed p' = sp_closed p \<and> \<not> sp_closed p"
proof -
  obtain r where "acquire_checkout dl r p = Granted c p'"
    using assms(2) by (auto simp: acquire_now_def split: if_splits prod.splits exec.splits sum.splits)
  with assms(1) show ?thesis by (rule acquire_checkout_inv)
qed

lemma release_slot_inv:
  assumes "pool_inv (Suc k) p"
  shows "\<exists>p'. release_slot p = Return p' \<and> pool_inv k p' \<and> sp_max_size p' = sp_max_size p \<and> sp_closed p' = sp_closed p"
  using assms by (auto simp: release_slot_def pool_inv_def checked_sub_def)

lemma session_drop_inv:
  assumes "pool_inv (Suc k) p" "ses_client ses = Some c" "persistent_inner c \<noteq> None"
  shows "\<exists>p'. session_drop ses p = Return p' \<and> pool_inv k p' \<and> sp_max_size p' = sp_max_size p
     \<and> set (sp_idle p') \<subseteq> set (sp_idle p) \<union> (if ses_reusable ses then {c} else {})"
  using assms by (auto simp: session_drop_def pool_inv_def checked_sub_def)

lemma pool_close_inv:
  assumes "pool_inv k p"
  shows "\<exists>p'. pool_close p = Return p' \<and> pool_inv k p' \<and> sp_closed p' \<and> sp_max_size p' = sp_max_size p"
  using assms by (auto simp: pool_close_def pool_inv_def checked_sub_def)

section \<open>All callers together\<close>

text \<open>
  Callers interleave at the mutex. \<open>out\<close> lists the granted slots: \<open>None\<close> while the connection is
  being established, \<open>Some\<close> with the session's client afterwards.
\<close>

record pool_system =
  ps_pool :: session_pool
  ps_out :: "persistent_client option list"

inductive pool_step :: "pool_system \<Rightarrow> pool_system \<Rightarrow> bool" where
  grant: "acquire_checkout dl remaining (ps_pool s) = Granted c p \<Longrightarrow>
    pool_step s \<lparr>ps_pool = p, ps_out = c # ps_out s\<rparr>"
| connect: "ps_out s = o1 @ None # o2 \<Longrightarrow>
    pool_step s (s\<lparr>ps_out := o1 @ Some (PersistentClient_new client) # o2\<rparr>)"
| abandon: "ps_out s = o1 @ c # o2 \<Longrightarrow> release_slot (ps_pool s) = Return p \<Longrightarrow>
    pool_step s \<lparr>ps_pool = p, ps_out = o1 @ o2\<rparr>"
| give_back: "ps_out s = o1 @ Some c # o2 \<Longrightarrow>
    session_drop \<lparr>ses_client = Some c, ses_reusable = reusable\<rparr> (ps_pool s) = Return p \<Longrightarrow>
    pool_step s \<lparr>ps_pool = p, ps_out = o1 @ o2\<rparr>"
| shut: "pool_close (ps_pool s) = Return p \<Longrightarrow> pool_step s (s\<lparr>ps_pool := p\<rparr>)"

definition pool_start :: "string \<Rightarrow> duration \<Rightarrow> string \<Rightarrow> nat \<Rightarrow> pool_system \<Rightarrow> bool" where
  "pool_start url t project n s \<longleftrightarrow> s = \<lparr>ps_pool = AdminSessionPool_new url t project n, ps_out = []\<rparr>"

definition pool_system_inv :: "nat \<Rightarrow> pool_system \<Rightarrow> bool" where
  "pool_system_inv n s \<longleftrightarrow> pool_inv (length (ps_out s)) (ps_pool s) \<and> sp_max_size (ps_pool s) = max n 1
     \<and> (\<forall>c \<in> set (ps_out s). case c of None \<Rightarrow> True | Some x \<Rightarrow> persistent_inner x \<noteq> None)"

lemma pool_system_inv_step:
  assumes "pool_system_inv n s" "pool_step s t" shows "pool_system_inv n t"
  using assms(2)
proof cases
  case (grant dl remaining c p)
  with acquire_checkout_inv[OF _ grant(2)] assms(1) show ?thesis
    by (auto simp: pool_system_inv_def split: option.splits)
next
  case (connect o1 o2 client)
  with assms(1) show ?thesis by (auto simp: pool_system_inv_def PersistentClient_new_def)
next
  case (abandon o1 c o2 p)
  then have "pool_inv (Suc (length (o1 @ o2))) (ps_pool s)" using assms(1) by (simp add: pool_system_inv_def)
  from release_slot_inv[OF this] abandon assms(1) show ?thesis by (auto simp: pool_system_inv_def)
next
  case (give_back o1 c o2 reusable p)
  then have "pool_inv (Suc (length (o1 @ o2))) (ps_pool s)" "persistent_inner c \<noteq> None"
    using assms(1) by (auto simp: pool_system_inv_def)
  from session_drop_inv[OF this(1) _ this(2), of "\<lparr>ses_client = Some c, ses_reusable = reusable\<rparr>"]
    give_back assms(1) show ?thesis by (auto simp: pool_system_inv_def)
next
  case (shut p)
  with pool_close_inv[of _ "ps_pool s"] assms(1) show ?thesis by (fastforce simp: pool_system_inv_def)
qed

interpretation pool_sys: invariant_system "pool_start url t project n" pool_step "pool_system_inv n"
  for url t project n
proof
  fix s assume "pool_start url t project n s"
  then show "pool_system_inv n s"
    using pool_inv_new[of url t project n]
    by (simp add: pool_start_def pool_system_inv_def) (simp add: AdminSessionPool_new_def)
qed (rule pool_system_inv_step)

abbreviation pool_reachable :: "string \<Rightarrow> duration \<Rightarrow> string \<Rightarrow> nat \<Rightarrow> pool_system \<Rightarrow> bool" where
  "pool_reachable url t project n \<equiv> reachable (pool_start url t project n) pool_step"

section \<open>What a whole call does\<close>

lemma persistent_client_mut_inner:
  "persistent_inner c \<noteq> None \<Longrightarrow> \<exists>x. persistent_client_mut c = Return x"
  by (auto simp: persistent_client_mut_def)

text \<open>Code that does not panic.\<close>

definition calm :: "('w, 'a) io \<Rightarrow> bool" where
  "calm m \<longleftrightarrow> (\<forall>s. \<exists>r t. m s = (Return r, t))"

named_theorems calm_intros \<open>operations that never panic\<close>

lemma calm_simple [calm_intros]:
  "calm (io_ok x)" "calm (io_err e)" "calm (io_result r)" "calm (io_exec (Return v))"
  by (simp_all add: calm_def)

lemma calm_bind [calm_intros]:
  assumes "calm m" "\<And>x. calm (f x)" shows "calm (io_bind m f)"
  unfolding calm_def
proof
  fix s
  obtain r t where "m s = (Return r, t)" using assms(1) unfolding calm_def by blast
  then show "\<exists>r t. io_bind m f s = (Return r, t)"
    using assms(2) unfolding calm_def by (cases r) (auto simp: io_bind_def)
qed

lemma calm_requests [calm_intros]:
  "calm (batch_execute_with_timeout be c timeout op q)" "calm (batch_execute be c op q)"
  "calm (client_query be c op q ps)" "calm (query_one_with_timeout be c timeout op q ps)"
  "calm (query_one be c op q ps)" "calm (query_opt be c op q ps)"
  "calm (AdminClient_connect be url ct rt op)" "calm (read_clock be)"
  by (auto simp: calm_def request_defs AdminClient_connect_def read_clock_def Let_def
      split: prod.splits connect_reply.splits)

lemma calm_deadline [calm_intros]:
  "calm (Deadline_new be t)" "calm (deadline_remaining be d)" "calm (deadline_is_elapsed be d)"
  "calm (checkout_remaining be d)"
  by (auto simp: Deadline_new_def deadline_remaining_def deadline_is_elapsed_def checkout_remaining_def
      intro!: calm_intros split: option.split)

lemma calm_prepare [calm_intros]:
  "calm (connect_lifecycle be p op)"
  "calm (prepare_reused_lifecycle_session be c t a d)"
  by (auto simp: connect_lifecycle_def admin_defs intro!: calm_intros)

lemma calm_prepare_reused: "persistent_inner c \<noteq> None \<Longrightarrow> calm (prepare_reused be p dl c)"
  using persistent_client_mut_inner[of c] by (auto simp: prepare_reused_def intro!: calm_intros)

lemma calmD: "calm m \<Longrightarrow> m s \<noteq> (Panic x, t)"
  unfolding calm_def by (metis Pair_inject exec.distinct(1))

end
