(* ===== verification/Admin_Properties.thy ===== *)
theory Admin_Properties
  imports Admin
begin

text \<open>
  Properties of the administrative SQL: what a creation leaves behind in every failure case, the
  advisory-lock protocol of templates, version and capacity checks, and advisory keys.
\<close>

section \<open>What the server promises\<close>

text \<open>
  \<open>present w n\<close> says that the server in state \<open>w\<close> has a database named \<open>n\<close>. The laws are the
  documented effects of three statements on one name: a successful \<open>CREATE DATABASE\<close> creates it, an
  error reported by the server means it did not; a successful \<open>DROP DATABASE\<close> removes it; a comment
  does neither; no statement touches another name. Nothing is promised about a request that timed
  out or lost its connection.
\<close>

definition create_law :: "'w backend \<Rightarrow> ('w \<Rightarrow> string \<Rightarrow> bool) \<Rightarrow> bool" where
  "create_law be present \<longleftrightarrow>
     (\<forall>c t n tpl w r w'. wf_name n \<longrightarrow> be_batch be c t (create_sql n tpl) w = (r, w') \<longrightarrow>
        (r = Replied () \<longrightarrow> present w' (db_value n))
      \<and> (\<forall>e. r = Rejected e \<longrightarrow> as_db_error e \<longrightarrow> present w' (db_value n) = present w (db_value n))
      \<and> (\<forall>m. m \<noteq> db_value n \<longrightarrow> present w' m = present w m))"

definition drop_law :: "'w backend \<Rightarrow> ('w \<Rightarrow> string \<Rightarrow> bool) \<Rightarrow> bool" where
  "drop_law be present \<longleftrightarrow>
     (\<forall>c t n w r w'. wf_name n \<longrightarrow> be_batch be c t (drop_sql n) w = (r, w') \<longrightarrow>
        (r = Replied () \<longrightarrow> \<not> present w' (db_value n))
      \<and> (\<forall>m. m \<noteq> db_value n \<longrightarrow> present w' m = present w m))"

definition comment_law :: "'w backend \<Rightarrow> ('w \<Rightarrow> string \<Rightarrow> bool) \<Rightarrow> bool" where
  "comment_law be present \<longleftrightarrow>
     (\<forall>c t n md w r w'. wf_name n \<longrightarrow> be_batch be c t (comment_sql n md) w = (r, w') \<longrightarrow>
        (\<forall>m. present w' m = present w m))"

definition server_laws :: "'w backend \<Rightarrow> ('w \<Rightarrow> string \<Rightarrow> bool) \<Rightarrow> bool" where
  "server_laws be present \<longleftrightarrow> create_law be present \<and> drop_law be present \<and> comment_law be present"

lemma create_lawD:
  assumes "server_laws be present" "wf_name n" "be_batch be c t (create_sql n tpl) w = (r, w')"
  shows "r = Replied () \<Longrightarrow> present w' (db_value n)"
    and "r = Rejected e \<Longrightarrow> as_db_error e \<Longrightarrow> present w' (db_value n) = present w (db_value n)"
    and "m \<noteq> db_value n \<Longrightarrow> present w' m = present w m"
proof -
  have "create_law be present" using assms(1) by (simp add: server_laws_def)
  note L = this[unfolded create_law_def, rule_format, OF assms(2,3)]
  from L show "r = Replied () \<Longrightarrow> present w' (db_value n)"
    "r = Rejected e \<Longrightarrow> as_db_error e \<Longrightarrow> present w' (db_value n) = present w (db_value n)"
    "m \<noteq> db_value n \<Longrightarrow> present w' m = present w m" by blast+
qed

lemma drop_lawD:
  assumes "server_laws be present" "wf_name n" "be_batch be c t (drop_sql n) w = (r, w')"
  shows "r = Replied () \<Longrightarrow> \<not> present w' (db_value n)"
    and "m \<noteq> db_value n \<Longrightarrow> present w' m = present w m"
proof -
  have "drop_law be present" using assms(1) by (simp add: server_laws_def)
  note L = this[unfolded drop_law_def, rule_format, OF assms(2,3)]
  from L show "r = Replied () \<Longrightarrow> \<not> present w' (db_value n)"
    "m \<noteq> db_value n \<Longrightarrow> present w' m = present w m" by blast+
qed

lemma comment_lawD:
  assumes "server_laws be present" "wf_name n" "be_batch be c t (comment_sql n md) w = (r, w')"
  shows "present w' m = present w m"
proof -
  have "comment_law be present" using assms(1) by (simp add: server_laws_def)
  from this[unfolded comment_law_def, rule_format, OF assms(2,3)] show ?thesis .
qed

section \<open>One creation\<close>

lemma batch_execute_cases:
  assumes "batch_execute be c op q s = (r, t)"
  obtains reply w where "be_batch be (client_session c) (request_timeout c) q (world s) = (reply, w)"
    and "r = Return (run_admin_operation (request_timeout c) op reply)" and "world t = w"
    and "trace t = trace s @ [Batch_event (client_session c) (request_timeout c) q reply]"
  using assms by (auto simp: batch_execute_def batch_execute_with_timeout_def Let_def split: prod.splits)

lemma create_database_cases:
  assumes "create_database be c n tpl s = (r, t)"
  obtains (invalid) "quote_identifier tpl = Inl (InvalidDatabaseName tpl)"
      "r = Return (Inl (InvalidDatabaseName tpl))" "t = s"
    | (run) q where "quote_identifier tpl = Inr q"
      "batch_execute be c ''create disposable PostgreSQL database'' (create_sql n q) s = (r, t)"
  using assms
  by (auto simp: create_database_def io_bind_def quote_identifier_def split: if_splits)

lemma classify_no_residual_iff:
  "classify_database_creation_failure e = CreationNoResidual e' \<longleftrightarrow>
     e' = e \<and> (\<exists>op src. e = Postgres op src \<and> as_db_error src)"
  by (cases e) (auto simp: classify_database_creation_failure_def)

lemma creation_cases:
  assumes "attempt_managed_database_creation be c n tpl md s = (r, t)"
  obtains (refused) e where "create_database be c n tpl s = (Return (Inl e), t)"
      "r = Return (Inr (Inl (classify_database_creation_failure e)))"
    | (compensated) u v e x where "create_database be c n tpl s = (Return (Inr ()), u)"
      "set_database_metadata be c n md u = (Return (Inl e), v)"
      "drop_database be c n v = (Return x, t)"
      "r = Return (Inr (Inl (case x of Inr _ \<Rightarrow> CreationNoResidual e
         | Inl e' \<Rightarrow> CreationResidualPossible (ManagedDatabaseTagAndCleanup e e'))))"
    | (created) u where "create_database be c n tpl s = (Return (Inr ()), u)"
      "set_database_metadata be c n md u = (Return (Inr ()), t)" "r = Return (Inr (Inr ()))"
proof -
  have "\<exists>x u. create_database be c n tpl s = (Return x, u)" for s
    by (auto simp: create_database_def io_bind_def batch_execute_def batch_execute_with_timeout_def
        Let_def split: prod.splits sum.splits)
  moreover have "\<exists>x u. set_database_metadata be c n md s = (Return x, u)" for s
    by (auto simp: set_database_metadata_def batch_execute_def batch_execute_with_timeout_def Let_def
        split: prod.splits)
  moreover have "\<exists>x u. drop_database be c n s = (Return x, u)" for s
    by (auto simp: drop_database_def batch_execute_def batch_execute_with_timeout_def Let_def
        split: prod.splits)
  ultimately obtain x1 u x2 v x3 w where
    "create_database be c n tpl s = (Return x1, u)" "set_database_metadata be c n md u = (Return x2, v)"
    "drop_database be c n v = (Return x3, w)" by metis
  with assms that show thesis
    by (cases x1; cases x2)
       (auto simp: attempt_managed_database_creation_def compensate_failed_metadata_write_def io_bind_def
          io_try_def split: sum.splits)
qed

text \<open>The creation always comes back with a classified result.\<close>

lemma creation_returns:
  "\<exists>v t. attempt_managed_database_creation be c n tpl md s = (Return (Inr v), t)"
proof -
  obtain r t where rt: "attempt_managed_database_creation be c n tpl md s = (r, t)" by fastforce
  then show ?thesis by (cases rule: creation_cases) (auto simp: rt)
qed

lemma create_database_effect:
  assumes "server_laws be present" "wf_name n" "create_database be c n tpl s = (Return x, u)"
  shows "x = Inr () \<Longrightarrow> present (world u) (db_value n)"
    and "x = Inl (Postgres op e) \<Longrightarrow> as_db_error e \<Longrightarrow>
       present (world u) (db_value n) = present (world s) (db_value n)"
    and "m \<noteq> db_value n \<Longrightarrow> present (world u) m = present (world s) m"
proof -
  have "(x = Inr () \<longrightarrow> present (world u) (db_value n))
      \<and> (x = Inl (Postgres op e) \<longrightarrow> as_db_error e \<longrightarrow>
           present (world u) (db_value n) = present (world s) (db_value n))
      \<and> (m \<noteq> db_value n \<longrightarrow> present (world u) m = present (world s) m)"
    using assms(3)
  proof (cases rule: create_database_cases)
    case (run q)
    from run(2) obtain reply where
      b: "be_batch be (client_session c) (request_timeout c) (create_sql n q) (world s) = (reply, world u)"
      and x: "x = run_admin_operation (request_timeout c) ''create disposable PostgreSQL database'' reply"
      by (auto elim: batch_execute_cases)
    from create_lawD[OF assms(1,2) b] show ?thesis
      by (simp add: x run_admin_operation_db_error run_admin_operation_ok_iff)
  qed auto
  then show "x = Inr () \<Longrightarrow> present (world u) (db_value n)"
    "x = Inl (Postgres op e) \<Longrightarrow> as_db_error e \<Longrightarrow>
       present (world u) (db_value n) = present (world s) (db_value n)"
    "m \<noteq> db_value n \<Longrightarrow> present (world u) m = present (world s) m" by blast+
qed

lemma set_database_metadata_effect:
  assumes "server_laws be present" "wf_name n" "set_database_metadata be c n md s = (x, u)"
  shows "present (world u) m = present (world s) m"
  using assms(3) unfolding set_database_metadata_def
  by (rule batch_execute_cases) (use comment_lawD[OF assms(1,2)] in blast)

lemma drop_database_effect:
  assumes "server_laws be present" "wf_name n" "drop_database be c n s = (Return x, u)"
  shows "x = Inr () \<Longrightarrow> \<not> present (world u) (db_value n)"
    and "m \<noteq> db_value n \<Longrightarrow> present (world u) m = present (world s) m"
proof -
  from assms(3) obtain reply where
    b: "be_batch be (client_session c) (request_timeout c) (drop_sql n) (world s) = (reply, world u)"
    and x: "x = run_admin_operation (request_timeout c) ''drop disposable PostgreSQL database'' reply"
    unfolding drop_database_def by (auto elim: batch_execute_cases)
  from drop_lawD[OF assms(1,2) b] show "x = Inr () \<Longrightarrow> \<not> present (world u) (db_value n)"
    "m \<noteq> db_value n \<Longrightarrow> present (world u) m = present (world s) m"
    by (simp_all add: x run_admin_operation_ok_iff)
qed

text \<open>The creation of one database, as the state of its name afterwards.\<close>

definition creation_sound ::
  "('w \<Rightarrow> string \<Rightarrow> bool) \<Rightarrow> string \<Rightarrow> managed_database_creation_failure + unit \<Rightarrow> 'w \<Rightarrow> bool" where
  "creation_sound present n v w =
     (case v of
        Inr _ \<Rightarrow> present w n
      | Inl (CreationNoResidual _) \<Rightarrow> \<not> present w n
      | Inl (CreationResidualPossible _) \<Rightarrow> True)"

lemma creation_effect:
  assumes laws: "server_laws be present" "wf_name n"
    and run: "attempt_managed_database_creation be c n tpl md s = (Return (Inr v), t)"
  shows "\<not> present (world s) (db_value n) \<Longrightarrow> creation_sound present (db_value n) v (world t)"
    and "m \<noteq> db_value n \<Longrightarrow> present (world t) m = present (world s) m"
  using run
proof (induction rule: creation_cases)
  case (refused e)
  note cr = create_database_effect[OF laws refused(1)]
  { case 1 with refused cr show ?case
      by (auto simp: creation_sound_def classify_no_residual_iff
          split: managed_database_creation_failure.splits) }
  { case 2 with cr(3) show ?case by blast }
next
  case (compensated u w e x)
  note dr = drop_database_effect[OF laws compensated(3)]
  { case 1 with compensated dr show ?case by (auto simp: creation_sound_def split: sum.splits) }
  { case 2 with create_database_effect(3)[OF laws compensated(1)] dr(2)
      set_database_metadata_effect[OF laws compensated(2)] show ?case by metis }
next
  case (created u)
  note cr = create_database_effect[OF laws created(1)] and tg = set_database_metadata_effect[OF laws created(2)]
  { case 1 with created cr tg show ?case by (simp add: creation_sound_def) }
  { case 2 with cr(3) tg show ?case by metis }
qed

section \<open>Creations behind the admission gate\<close>

text \<open>
  The closure that callers hand to \<open>attempt_managed_creation\<close>. By \<open>creation_returns\<close> the last
  branch is never taken.
\<close>

type_synonym creation_request = "database_name \<times> string \<times> resource_metadata"

definition creation_operation ::
  "'w backend \<Rightarrow> admin_client \<Rightarrow> creation_request \<Rightarrow> 'w io_state
     \<Rightarrow> (managed_database_creation_failure + unit) \<times> 'w io_state" where
  "creation_operation be c req s =
     (case req of (n, tpl, md) \<Rightarrow>
        (case attempt_managed_database_creation be c n tpl md s of
           (Return (Inr v), t) \<Rightarrow> (v, t)
         | (_, t) \<Rightarrow> (Inl (CreationResidualPossible CleanupWorkerPanicked), t)))"

definition request_name :: "creation_request \<Rightarrow> string" where
  "request_name req = db_value (fst req)"

lemma creation_operation_sound:
  assumes "server_laws be present" "wf_name (fst req)" "creation_operation be c req s = (v, t)"
  shows "\<not> present (world s) (request_name req) \<Longrightarrow> creation_sound present (request_name req) v (world t)"
    and "m \<noteq> request_name req \<Longrightarrow> present (world t) m = present (world s) m"
proof -
  obtain n tpl md where req: "req = (n, tpl, md)" by (metis prod_cases3)
  obtain v' t' where r: "attempt_managed_database_creation be c n tpl md s = (Return (Inr v'), t')"
    using creation_returns by blast
  with assms(3) req have "v' = v" "t' = t" by (auto simp: creation_operation_def)
  with creation_effect[OF assms(1), of n c tpl md s v t] r assms(2) req
  show "\<not> present (world s) (request_name req) \<Longrightarrow> creation_sound present (request_name req) v (world t)"
    "m \<noteq> request_name req \<Longrightarrow> present (world t) m = present (world s) m"
    by (auto simp: request_name_def)
qed

lemma run_creations_Cons:
  assumes "run_creations sem (op # ops) g s = (rs, g', t)"
  obtains r g1 s1 rs' where "attempt_managed_creation sem op g s = (r, g1, s1)"
    "run_creations sem ops g1 s1 = (rs', g', t)" "rs = r # rs'"
  using assms by (auto split: prod.splits)

lemma open_gate_step:
  assumes "semaphore_laws sem" "attempt_managed_creation sem op g s = (r, g1, s1)" "\<not> sem_is_closed sem g1"
  shows "op s = (r, s1) \<and> (\<forall>e. r \<noteq> Inl (CreationResidualPossible e))"
proof (cases "sem_is_closed sem g")
  case True
  with assms show ?thesis by (simp add: attempt_closed)
next
  case False
  with assms show ?thesis
    by (auto simp: attempt_managed_creation_def ensure_open_def admission_close_def semaphore_lawsD
        split: prod.splits)
qed

lemma run_creations_untouched:
  assumes "server_laws be present" "run_creations sem (map (creation_operation be c) reqs) g s = (rs, g', t)"
    and "list_all (\<lambda>q. wf_name (fst q)) reqs" "m \<notin> request_name ` set reqs"
  shows "present (world t) m = present (world s) m"
  using assms(2-4)
proof (induction reqs arbitrary: g s rs)
  case (Cons q reqs)
  from Cons.prems(1) obtain r g1 s1 rs' where a: "attempt_managed_creation sem (creation_operation be c q) g s = (r, g1, s1)"
    and b: "run_creations sem (map (creation_operation be c) reqs) g1 s1 = (rs', g', t)"
    unfolding list.map by (rule run_creations_Cons)
  have "present (world s1) m = present (world s) m"
    using a Cons.prems(2,3) creation_operation_sound(2)[OF assms(1)]
    by (auto simp: attempt_managed_creation_def ensure_open_def split: if_splits prod.splits)
  with Cons.IH[OF b] Cons.prems(2,3) show ?case by simp
qed simp

lemma open_gate_accounts:
  assumes "semaphore_laws sem" "server_laws be present"
    and "run_creations sem (map (creation_operation be c) reqs) g s = (rs, g', t)"
    and "list_all (\<lambda>q. wf_name (fst q) \<and> \<not> present (world s) (request_name q)) reqs"
    and "distinct (map request_name reqs)" "\<not> sem_is_closed sem g'"
  shows "map (\<lambda>q. present (world t) (request_name q)) reqs = map (\<lambda>r. r = Inr ()) rs"
  using assms(3-5)
proof (induction reqs arbitrary: g s rs)
  case (Cons q reqs)
  from Cons.prems(1) obtain r g1 s1 rs' where a: "attempt_managed_creation sem (creation_operation be c q) g s = (r, g1, s1)"
    and b: "run_creations sem (map (creation_operation be c) reqs) g1 s1 = (rs', g', t)" and rs: "rs = r # rs'"
    unfolding list.map by (rule run_creations_Cons)
  have "\<not> sem_is_closed sem g1" using run_creations_keeps_closed[OF assms(1) _ b] assms(6) by blast
  note o = open_gate_step[OF assms(1) a this]
  note snd = creation_operation_sound[OF assms(2) _ o[THEN conjunct1]]
  have q: "present (world s1) (request_name q) \<longleftrightarrow> r = Inr ()"
    using snd(1) Cons.prems(2) o
    by (cases r) (auto simp: creation_sound_def split: managed_database_creation_failure.splits)
  have "list_all (\<lambda>q'. wf_name (fst q') \<and> \<not> present (world s1) (request_name q')) reqs"
    using Cons.prems(2,3) snd(2) by (auto simp: list_all_iff image_iff)
  with Cons.IH[OF b] Cons.prems(3)
  have "map (\<lambda>q. present (world t) (request_name q)) reqs = map (\<lambda>r. r = Inr ()) rs'" by simp
  moreover have "present (world t) (request_name q) = present (world s1) (request_name q)"
    using run_creations_untouched[OF assms(2) b, of "request_name q"] Cons.prems(2,3)
    by (auto simp: list_all_iff)
  ultimately show ?case using q rs by simp
qed simp

section \<open>Request sequences\<close>

lemma io_ok_trace_bind:
  assumes "io_bind m f s = (Return (Inr y), t)"
  obtains x u where "m s = (Return (Inr x), u)" "f x u = (Return (Inr y), t)"
  using assms by (auto simp: io_bind_ok_iff)

lemma batch_ok_event:
  "batch_execute_with_timeout be c to op q s = (Return (Inr x), t) \<Longrightarrow>
     trace t = trace s @ [Batch_event (client_session c) to q (Replied ())]"
  "batch_execute be c op q s = (Return (Inr x), t) \<Longrightarrow>
     trace t = trace s @ [Batch_event (client_session c) (request_timeout c) q (Replied ())]"
  by (auto simp: batch_execute_def batch_execute_with_timeout_def Let_def run_admin_operation_ok_iff
      split: prod.splits)

lemma query_one_ok_event:
  "query_one_with_timeout be c to op q ps s = (Return (Inr row), t) \<Longrightarrow>
     trace t = trace s @ [Query_one_event (client_session c) to q ps (Replied row)]"
  "query_one be c op q ps s = (Return (Inr row), t) \<Longrightarrow>
     trace t = trace s @ [Query_one_event (client_session c) (request_timeout c) q ps (Replied row)]"
  by (auto simp: query_one_def query_one_with_timeout_def Let_def run_admin_operation_ok_iff
      split: prod.splits)

lemma client_query_ok_event:
  "client_query be c op q ps s = (Return (Inr rows), t) \<Longrightarrow>
     trace t = trace s @ [Query_event (client_session c) (request_timeout c) q ps (Replied rows)]"
  by (auto simp: client_query_def Let_def run_admin_operation_ok_iff split: prod.splits)

lemma io_result_ok_iff [simp]: "io_result r s = (Return (Inr x), t) \<longleftrightarrow> r = Inr x \<and> t = s"
  by (auto simp: io_result_def)

lemma io_exec_ok_iff [simp]: "io_exec v s = (Return (Inr x), t) \<longleftrightarrow> v = Return x \<and> t = s"
  by (cases v) (auto simp: io_exec_def)

definition timeouts_sql :: "nat \<Rightarrow> nat \<Rightarrow> string" where
  "timeouts_sql statement lock =
     ''SET statement_timeout = '' @ show_nat statement @ ''; SET lock_timeout = '' @ show_nat lock @ '';''"

lemma configure_session_timeouts_event:
  assumes "configure_session_timeouts be c op s = (Return (Inr x), t)"
  shows "trace t = trace s @ [Batch_event (client_session c) (request_timeout c)
     (timeouts_sql (as_millis op) (as_millis (min LOCK_TIMEOUT op))) (Replied ())]"
  using assms
  by (auto simp: configure_session_timeouts_def configure_session_timeouts_with_timeout_def io_bind_ok_iff
      duration_millis_def timeouts_sql_def split: if_splits dest: batch_ok_event)

lemma configure_coordination_event:
  assumes "configure_coordination_timeouts be c w s = (Return (Inr x), t)"
  shows "trace t = trace s @ [Batch_event (client_session c) (request_timeout c)
     (timeouts_sql (as_millis w) (as_millis w)) (Replied ())]"
  using assms
  by (auto simp: configure_coordination_timeouts_def io_bind_ok_iff duration_millis_def timeouts_sql_def
      split: if_splits dest: batch_ok_event)

section \<open>Big-endian values\<close>

lemma foldl_be_bound: "foldl (\<lambda>acc b. acc * 256 + unat (b :: 8 word)) a bs < Suc a * 256 ^ length bs"
proof (induction bs arbitrary: a)
  case (Cons b bs)
  have "Suc (a * 256 + unat b) * 256 ^ length bs \<le> (Suc a * 256) * 256 ^ length bs"
    using unat_word8_less[of b] by (intro mult_right_mono) simp_all
  from less_le_trans[OF Cons.IH this] show ?case by (simp only: foldl_Cons length_Cons power_Suc mult.assoc)
qed simp

lemma from_be_bytes_bound: "length bs = 8 \<Longrightarrow> from_be_bytes bs < 2 ^ 64"
  using foldl_be_bound[of 0 bs] by (simp add: from_be_bytes_def)

section \<open>A concrete server\<close>

text \<open>
  A server whose state is its list of databases, for concrete instances: it executes the three
  managed statements and accepts every other one.
\<close>

definition quoted_word :: "string \<Rightarrow> string" where
  "quoted_word r = takeWhile (\<lambda>c. c \<noteq> CHR 0x22) r"

definition mini_batch :: "string \<Rightarrow> string list \<Rightarrow> unit reply \<times> string list" where
  "mini_batch q dbs =
     (case strip_prefix (''CREATE DATABASE '' @ [CHR 0x22]) q of
        Some r \<Rightarrow>
          if quoted_word r \<in> set dbs then (Rejected \<lparr>as_db_error = True, pg_message = ''exists''\<rparr>, dbs)
          else (Replied (), quoted_word r # dbs)
      | None \<Rightarrow>
          (case strip_prefix (''DROP DATABASE IF EXISTS '' @ [CHR 0x22]) q of
             Some r \<Rightarrow> (Replied (), removeAll (quoted_word r) dbs)
           | None \<Rightarrow> (Replied (), dbs)))"

definition mini_server :: "string list backend" where
  "mini_server = \<lparr>
     be_connect = (\<lambda>url t w. (Connected 1, w)),
     be_batch = (\<lambda>c t q w. mini_batch q w),
     be_query = (\<lambda>c t q ps w. (Replied [], w)),
     be_query_one = (\<lambda>c t q ps w. (Replied [SqlBool False], w)),
     be_query_opt = (\<lambda>c t q ps w. (Replied None, w)),
     be_now = (\<lambda>w. (0, w))\<rparr>"

lemma quoted_word_name:
  assumes "wf_name n" shows "quoted_word (db_value n @ CHR 0x22 # rest) = db_value n"
proof -
  have "\<forall>c \<in> set (db_value n). c \<noteq> CHR 0x22"
    using assms identifier_char_not_quote by (auto simp: wf_name_def list_all_iff)
  then show ?thesis by (simp add: quoted_word_def takeWhile_append2)
qed

lemma strip_prefix_append: "strip_prefix p (p @ r) = Some r"
  by (simp add: strip_prefix_Some_iff)

lemma mini_statements:
  assumes "wf_name n"
  shows "mini_batch (create_sql n tpl) dbs =
      (if db_value n \<in> set dbs then (Rejected \<lparr>as_db_error = True, pg_message = ''exists''\<rparr>, dbs)
       else (Replied (), db_value n # dbs))"
    and "mini_batch (drop_sql n) dbs = (Replied (), removeAll (db_value n) dbs)"
    and "mini_batch (comment_sql n md) dbs = (Replied (), dbs)"
proof -
  let ?c = "''CREATE DATABASE '' @ [CHR 0x22]" and ?d = "''DROP DATABASE IF EXISTS '' @ [CHR 0x22]"
  have c: "create_sql n tpl = ?c @ db_value n @ CHR 0x22 # '' TEMPLATE '' @ tpl"
    by (simp add: create_sql_def quoted_def)
  have "strip_prefix ?c (create_sql n tpl) = Some (db_value n @ CHR 0x22 # '' TEMPLATE '' @ tpl)"
    unfolding c by (rule strip_prefix_append)
  then show "mini_batch (create_sql n tpl) dbs =
      (if db_value n \<in> set dbs then (Rejected \<lparr>as_db_error = True, pg_message = ''exists''\<rparr>, dbs)
       else (Replied (), db_value n # dbs))"
    unfolding mini_batch_def using quoted_word_name[OF assms] by simp
  have d: "drop_sql n = ?d @ db_value n @ CHR 0x22 # '' WITH (FORCE)''"
    by (simp add: drop_sql_def quoted_def)
  have "strip_prefix ?d (drop_sql n) = Some (db_value n @ CHR 0x22 # '' WITH (FORCE)'')"
    unfolding d by (rule strip_prefix_append)
  moreover have "strip_prefix ?c (drop_sql n) = None"
    by (cases "strip_prefix ?c (drop_sql n)") (auto simp: strip_prefix_Some_iff drop_sql_def)
  ultimately show "mini_batch (drop_sql n) dbs = (Replied (), removeAll (db_value n) dbs)"
    unfolding mini_batch_def using quoted_word_name[OF assms] by simp
  have "strip_prefix ?c (comment_sql n md) = None" "strip_prefix ?d (comment_sql n md) = None"
    by (cases "strip_prefix ?c (comment_sql n md)"; cases "strip_prefix ?d (comment_sql n md)";
        auto simp: strip_prefix_Some_iff comment_sql_def)+
  then show "mini_batch (comment_sql n md) dbs = (Replied (), dbs)" by (simp add: mini_batch_def)
qed

lemma mini_server_laws: "server_laws mini_server (\<lambda>w n. n \<in> set w)"
  by (auto simp: server_laws_def create_law_def drop_law_def comment_law_def mini_server_def
      mini_statements split: if_splits)

definition mini_client :: admin_client where
  "mini_client = \<lparr>client_session = 1, request_timeout = from_secs 91\<rparr>"

definition mini_name :: database_name where
  "mini_name = \<lparr>db_value = ''pgh_a_test_1'', db_kind = Test\<rparr>"

definition mini_metadata :: resource_metadata where
  "mini_metadata = TestMeta (ProjectName ''a'') 1 7"

lemma mini_wf_name: "wf_name mini_name"
  by (simp add: wf_name_def mini_name_def identifier_char_def std_defs)

definition mini_start :: "string list io_state" where "mini_start = \<lparr>world = [], trace = []\<rparr>"

section \<open>Properties\<close>

text \<open>C20: A managed creation always comes back with a classified result, and the classification is sound
  on a server that keeps the documented effects: success means the database exists, a failure
  classified as leaving nothing behind means it does not exist (whether the server refused the
  creation or the tagging failed and the compensating drop succeeded), and no other database is
  touched in any case.\<close>

theorem managed_creation_classified_soundly:
  assumes "server_laws be present" "wf_name n" "\<not> present (world s) (db_value n)" "m \<noteq> db_value n"
  shows "\<exists>v t. attempt_managed_database_creation be c n tpl md s = (Return (Inr v), t)
     \<and> (v = Inr () \<longrightarrow> present (world t) (db_value n))
     \<and> (\<forall>e. v = Inl (CreationNoResidual e) \<longrightarrow> \<not> present (world t) (db_value n))
     \<and> present (world t) m = present (world s) m"
proof -
  obtain v t where r: "attempt_managed_database_creation be c n tpl md s = (Return (Inr v), t)"
    using creation_returns by blast
  from creation_effect(1)[OF assms(1,2) r assms(3)] creation_effect(2)[OF assms(1,2) r assms(4)] r
  show ?thesis by (auto simp: creation_sound_def)
qed

theorem managed_creation_classified_soundly_witness:
  "\<exists>v t. attempt_managed_database_creation mini_server mini_client mini_name ''template0'' mini_metadata mini_start
     = (Return (Inr v), t) \<and> (''other'' \<in> set (world t)) = (''other'' \<in> set (world mini_start))"
  using managed_creation_classified_soundly[OF mini_server_laws mini_wf_name,
      of mini_start "''other''" mini_client "''template0''" mini_metadata]
  by (auto simp: mini_start_def mini_name_def)

text \<open>While the admission gate is open nothing is unaccounted for: after any sequence of gated
  creations of distinct new names that leaves the gate open, the names present on the server are
  exactly those whose creation was reported as successful.\<close>

lemma open_gate_accounts_for_every_database:
  assumes "semaphore_laws sem" "server_laws be present"
    and "run_creations sem (map (creation_operation be c) reqs) g s = (rs, g', t)"
    and "list_all (\<lambda>q. wf_name (fst q) \<and> \<not> present (world s) (request_name q)) reqs"
    and "distinct (map request_name reqs)" "\<not> sem_is_closed sem g'"
  shows "map (\<lambda>q. present (world t) (request_name q)) reqs = map (\<lambda>r. r = Inr ()) rs"
  using assms by (rule open_gate_accounts)

text \<open>Acquiring a template lock, exclusive or shared, succeeds only by the exact sequence: raise the
  session's statement and lock timeouts to the wait timeout, take the lock on the key with a client
  deadline one second longer than the wait, and set the session back to the operation timeouts.\<close>

lemma template_lock_protocol:
  assumes "(acquire_template_advisory_lock be c key w op s = (Return (Inr x), t)
              \<and> q = ''SELECT pg_advisory_lock($1)'')
         \<or> (acquire_shared_template_advisory_lock be c key w op s = (Return (Inr x), t)
              \<and> q = ''SELECT pg_advisory_lock_shared($1)'')"
  shows "\<exists>row. trace t = trace s @
     [Batch_event (client_session c) (request_timeout c) (timeouts_sql (as_millis w) (as_millis w)) (Replied ()),
      Query_one_event (client_session c) (client_operation_timeout w) q [SqlInt key] (Replied row),
      Batch_event (client_session c) (request_timeout c)
        (timeouts_sql (as_millis op) (as_millis (min LOCK_TIMEOUT op))) (Replied ())]"
  using assms
  by (auto simp: acquire_template_advisory_lock_def acquire_shared_template_advisory_lock_def io_bind_ok_iff
      dest!: configure_coordination_event configure_session_timeouts_event query_one_ok_event)

text \<open>A server is accepted exactly when it reports a version number between 180000 and 189999 and
  answers the \<open>uuidv7()\<close> probe; a reported version outside that range is the error that carries it.\<close>

lemma server_version_check_exact:
  assumes "query_one be c ''read PostgreSQL server version''
      ''SELECT current_setting('server_version_num')::integer'' [] s = (Return (Inr [SqlInt v]), u)"
    and "query_one be c ''check PostgreSQL uuidv7 capability'' ''SELECT uuidv7()::text'' [] u = (Return r, t)"
  shows "validate_postgres_18 be c s =
     (if 180000 \<le> v \<and> v < 190000 then (Return (case r of Inr _ \<Rightarrow> Inr () | Inl _ \<Rightarrow> Inl MissingUuidV7), t)
      else (Return (Inl (UnsupportedPostgresVersion v)), u))"
proof -
  have "i32_div v 10000 = 18 \<longleftrightarrow> 180000 \<le> v \<and> v < 190000"
    by (cases "v > 0"; cases "v = 0") (auto simp: i32_div_def)
  with assms show ?thesis
    by (auto simp: validate_postgres_18_def io_bind_def io_try_def get_int_def column_def split: sum.splits)
qed

text \<open>Terminating a template's connections succeeds only if the server confirmed every termination and
  then reported, in the last request, that no connection to the database remains.\<close>

lemma terminate_connections_verified:
  assumes "terminate_database_connections be c n op s = (Return (Inr ()), t)"
  shows "\<exists>q rows q' row. trace t = trace s @
      [Query_event (client_session c) (request_timeout c) q [SqlText (db_value n), SqlInt (int (as_millis op))]
         (Replied rows),
       Query_one_event (client_session c) (request_timeout c) q' [SqlText (db_value n)] (Replied row)]
     \<and> list_all (\<lambda>r. r \<noteq> [] \<and> hd r = SqlBool True) rows \<and> row \<noteq> [] \<and> hd row = SqlBool False"
proof -
  have ok: "get_bool row 0 = Return b \<longleftrightarrow> row \<noteq> [] \<and> hd row = SqlBool b" for row b
    by (cases row) (auto simp: get_bool_def column_def split: sql_value.splits)
  have all: "any_not_terminated rows = Return False \<longleftrightarrow> list_all (\<lambda>r. r \<noteq> [] \<and> hd r = SqlBool True) rows" for rows
    by (induction rows) (auto simp: bind_exec_Return_iff ok split: if_splits)
  from assms show ?thesis
    by (auto simp: terminate_database_connections_def io_bind_ok_iff duration_millis_def ok all
        split: if_splits dest!: client_query_ok_event query_one_ok_event)
qed

text \<open>The regular connection slots are the maximum minus both reservations, never below zero, for all
  values a server can report (negative settings count as zero).\<close>

lemma regular_connection_slots_exact:
  "int (regular_connection_slots_from_settings m r s)
     = max 0 (max m 0 - max r 0 - max s 0)"
  unfolding regular_connection_slots_from_settings_def by linarith

text \<open>An advisory key is a 64-bit signed integer computed without panic from any digest of at least
  eight bytes, and the bytes that are hashed determine the domain and the identity, so that
  different resources share a key only if SHA-256 collides on its first eight bytes.\<close>

lemma advisory_keys_unambiguous:
  assumes "length d \<le> u64_max" "length i \<le> u64_max" "length d' \<le> u64_max" "length i' \<le> u64_max"
    and "\<And>x. 8 \<le> length (sha256 x)"
  shows "(\<exists>k. advisory_key sha256 d i = Return k \<and> i64_min \<le> k \<and> k \<le> i64_max)
     \<and> (advisory_preimage d i = advisory_preimage d' i' \<longleftrightarrow> d = d' \<and> i = i')"
proof
  let ?b = "from_be_bytes (take 8 (sha256 (advisory_preimage d i)))"
  have "?b < 2 ^ 64" by (rule from_be_bytes_bound) (use assms(5) in simp)
  then show "\<exists>k. advisory_key sha256 d i = Return k \<and> i64_min \<le> k \<and> k \<le> i64_max"
    using assms(5)[of "advisory_preimage d i"]
    by (auto simp: advisory_key_def i64_from_be_bytes_def Let_def i64_min_def i64_max_def not_less)
  have "advisory_preimage d i = bytes_of_string ''postgres-test-harness-advisory-v1''
      @ concat (map frame [bytes_of_string d, bytes_of_string i])" for d i
    by (simp add: advisory_preimage_def frame_def)
  then show "advisory_preimage d i = advisory_preimage d' i' \<longleftrightarrow> d = d' \<and> i = i'"
    using assms(1-4) length_frame.frames_inject[of "[bytes_of_string d, bytes_of_string i]" "[bytes_of_string d', bytes_of_string i']"]
    by (simp add: fits_def bytes_of_string_inject)
qed

end
