(* ===== verification/Session_Properties.thy ===== *)
theory Session_Properties
  imports Sessions Admin_Properties
begin

text \<open>
  Properties of the session pool: it never exceeds its size and never panics, every slot comes back
  whatever the operation does, and a session is reused only after a success and a reset.
\<close>

section \<open>Checkout\<close>

definition checked_out :: "admin_session \<Rightarrow> bool" where
  "checked_out ses \<longleftrightarrow> (\<exists>c. ses = fresh_session c \<and> persistent_inner c \<noteq> None)"

text \<open>What a finished checkout means for the pool it started from.\<close>

definition checkout_post ::
  "nat \<Rightarrow> session_pool \<Rightarrow> admin_session result exec \<Rightarrow> session_pool \<Rightarrow> bool" where
  "checkout_post k p r p' \<longleftrightarrow> sp_max_size p' = sp_max_size p \<and> set (sp_idle p') \<subseteq> set (sp_idle p)
     \<and> (case r of
          Return (Inr ses) \<Rightarrow> checked_out ses \<and> pool_inv (Suc k) p'
        | Return (Inl e) \<Rightarrow> pool_inv k p'
        | Panic m \<Rightarrow> False)"

lemma checked_out_fresh: "persistent_inner c \<noteq> None \<Longrightarrow> checked_out (fresh_session c)"
  by (auto simp: checked_out_def)

lemma acquire_now_subset:
  "acquire_now be dl p s = (Granted c p', s') \<Longrightarrow> set (sp_idle p') \<subseteq> set (sp_idle p)
     \<and> (\<forall>x. c = Some x \<longrightarrow> x \<in> set (sp_idle p))"
  by (auto simp: acquire_now_def acquire_checkout_def dest: in_set_butlastD
      split: if_splits prod.splits exec.splits sum.splits option.splits)

lemma connect_lifecycle_inner:
  "connect_lifecycle be p op s = (Return (Inr c), s') \<Longrightarrow> persistent_inner c \<noteq> None"
  by (auto simp: connect_lifecycle_def io_bind_ok_iff PersistentClient_new_def)

lemma release_slot_idle: "release_slot p = Return p' \<Longrightarrow> sp_idle p' = sp_idle p"
  by (auto simp: release_slot_def bind_exec_Return_iff)

lemma checkout_loop_post:
  assumes "pool_inv k p" "checkout_loop be op dl p s = Some (r, p', s')"
  shows "checkout_post k p r p'"
  using assms
proof (induction "length (sp_idle p)" arbitrary: p s r p' s' rule: less_induct)
  case less
  note run = less.prems(2)[unfolded checkout_loop.simps[of be op dl p s]]
  obtain a s1 where a: "acquire_now be dl p s = (a, s1)" by fastforce
  show ?case
  proof (cases a)
    case Waiting
    with run a show ?thesis by simp
  next
    case (Refused e)
    with run a less.prems(1) show ?thesis by (auto simp: checkout_post_def)
  next
    case (Granted c q)
    note g = acquire_now_inv[OF less.prems(1) a[unfolded Granted]]
    note sub = acquire_now_subset[OF a[unfolded Granted]]
    obtain q2 where q2: "release_slot q = Return q2" "pool_inv k q2" "sp_max_size q2 = sp_max_size p"
      using release_slot_inv[of k q] g by auto
    show ?thesis
    proof (cases c)
      case None
      obtain x s2 where x: "connect_lifecycle be q op s1 = (Return x, s2)"
        using calm_prepare(1)[of be q op] unfolding calm_def by blast
      with run a Granted None g q2 sub show ?thesis
        by (cases x) (auto simp: checkout_post_def release_slot_idle
            intro!: checked_out_fresh dest: connect_lifecycle_inner)
    next
      case (Some client)
      obtain x s2 where x: "prepare_reused be q dl client s1 = (Return x, s2)"
        using calm_prepare_reused[of client be q dl] g Some unfolding calm_def by blast
      show ?thesis
      proof (cases x)
        case (Inr u)
        with run a Granted Some x g sub show ?thesis
          by (auto simp: checkout_post_def intro!: checked_out_fresh)
      next
        case (Inl e)
        obtain b s3 where b: "deadline_is_elapsed be dl s2 = (Return b, s3)"
          using calm_deadline(3)[of be dl] unfolding calm_def by blast
        show ?thesis
        proof (cases "b = Inr True")
          case True
          with run a Granted Some x Inl q2 b sub show ?thesis
            by (auto simp: checkout_post_def release_slot_idle)
        next
          case False
          then have "checkout_loop be op dl q2 s3 = Some (r, p', s')"
            using run a Granted Some x Inl q2 b by simp
          moreover have "length (sp_idle q2) < length (sp_idle p)"
            using acquire_now_idle a Granted Some release_slot_idle[OF q2(1)] by metis
          ultimately have "checkout_post k q2 r p'" using less.hyps q2(2) by blast
          then show ?thesis using q2 sub release_slot_idle[OF q2(1)] by (auto simp: checkout_post_def)
        qed
      qed
    qed
  qed
qed

section \<open>Whole calls\<close>

lemma Deadline_new_ok: "\<exists>dl s'. Deadline_new be t s = (Return (Inr dl), s')"
  by (auto simp: Deadline_new_def read_clock_def io_bind_def split: prod.splits)

lemma checkout_post_checkout:
  assumes "pool_inv k p" "checkout be op p s = Some (r, p', s')"
  shows "checkout_post k p r p'"
  using assms Deadline_new_ok[of be "sp_operation_timeout p" s] checkout_loop_post
  by (auto simp: checkout_def)

lemma session_client_mut_checked_out: "checked_out ses \<Longrightarrow> \<exists>c. session_client_mut ses = Return c"
  using persistent_client_mut_inner by (auto simp: checked_out_def session_client_mut_def fresh_session_def)

lemma session_drop_checked_out:
  assumes "checked_out ses" "pool_inv (Suc k) p"
  shows "\<exists>p'. session_drop (ses\<lparr>ses_reusable := b\<rparr>) p = Return p' \<and> pool_inv k p' \<and> sp_max_size p' = sp_max_size p
     \<and> (\<not> b \<longrightarrow> set (sp_idle p') \<subseteq> set (sp_idle p))"
proof -
  obtain c where "ses = fresh_session c" "persistent_inner c \<noteq> None" using assms(1) by (auto simp: checked_out_def)
  with session_drop_inv[OF assms(2), of "ses\<lparr>ses_reusable := b\<rparr>" c] show ?thesis
    by (cases b) (auto simp: fresh_session_def)
qed

lemma checked_out_not_reusable: "checked_out ses \<Longrightarrow> ses\<lparr>ses_reusable := False\<rparr> = ses"
  by (auto simp: checked_out_def fresh_session_def)

definition keeps :: "'a disposition exec \<Rightarrow> bool" where
  "keeps out \<longleftrightarrow> (\<exists>v. out = Return (Reuse v))"

lemma execute_with_disposition_post:
  assumes inv: "pool_inv k p" and run: "execute_with_disposition be op f p s = Some (r, p', s')"
  obtains (refused) e where "r = Return (Inl e)" "pool_inv k p'" "set (sp_idle p') \<subseteq> set (sp_idle p)"
      "sp_max_size p' = sp_max_size p" "checkout be op p s = Some (Return (Inl e), p', s')"
    | (ran) c s1 out ses q where "f c s1 = (out, s')" "pool_inv k p'" "sp_max_size p' = sp_max_size p"
      "\<not> keeps out \<longrightarrow> set (sp_idle p') \<subseteq> set (sp_idle p)"
      "r = (case out of Return (Reuse v) \<Rightarrow> Return (Inr v) | Return (Evict v) \<Rightarrow> Return (Inr v) | Panic m \<Rightarrow> Panic m)"
      "checkout be op p s = Some (Return (Inr ses), q, s1)"
proof -
  obtain x q s1 where c: "checkout be op p s = Some (x, q, s1)"
    using run by (cases "checkout be op p s") (auto simp: execute_with_disposition_def)
  note post = checkout_post_checkout[OF inv c]
  then consider (err) e where "x = Return (Inl e)" | (got) ses where "x = Return (Inr ses)"
    by (auto simp: checkout_post_def split: exec.splits sum.splits)
  then show thesis
  proof cases
    case err
    with run c post show ?thesis
      by (intro refused[of e]) (auto simp: execute_with_disposition_def checkout_post_def)
  next
    case got
    with post have co: "checked_out ses" and q: "pool_inv (Suc k) q" "sp_max_size q = sp_max_size p"
      "set (sp_idle q) \<subseteq> set (sp_idle p)" by (auto simp: checkout_post_def)
    obtain cl where cl: "session_client_mut ses = Return cl" using session_client_mut_checked_out[OF co] by blast
    obtain out s2 where out: "f cl s1 = (out, s2)" by fastforce
    obtain p1 where p1: "session_drop (ses\<lparr>ses_reusable := keeps out\<rparr>) q = Return p1" "pool_inv k p1"
      "sp_max_size p1 = sp_max_size q" "\<not> keeps out \<longrightarrow> set (sp_idle p1) \<subseteq> set (sp_idle q)"
      using session_drop_checked_out[OF co q(1), of "keeps out"] by blast
    have ses: "(case out of Return (Reuse v) \<Rightarrow> (Return (Inr v), ses\<lparr>ses_reusable := True\<rparr>)
          | Return (Evict v) \<Rightarrow> (Return (Inr v), ses) | Panic m \<Rightarrow> (Panic m, ses))
        = (case out of Return (Reuse v) \<Rightarrow> Return (Inr v) | Return (Evict v) \<Rightarrow> Return (Inr v) | Panic m \<Rightarrow> Panic m,
           ses\<lparr>ses_reusable := keeps out\<rparr>)"
      using checked_out_not_reusable[OF co]
      by (auto simp: keeps_def split: exec.splits disposition.splits)
    from run c got cl out p1(1) have "s' = s2" "p' = p1"
      "r = (case out of Return (Reuse v) \<Rightarrow> Return (Inr v) | Return (Evict v) \<Rightarrow> Return (Inr v) | Panic m \<Rightarrow> Panic m)"
      unfolding execute_with_disposition_def by (simp_all add: ses)
    with out p1 q c got ran[of cl s1 out ses q] show ?thesis by auto
  qed
qed

lemma execute_post:
  assumes "pool_inv k p" "execute be op f p s = Some (r, p', s')"
  shows "pool_inv k p' \<and> sp_max_size p' = sp_max_size p
     \<and> ((\<nexists>v. r = Return (Inr v)) \<longrightarrow> set (sp_idle p') \<subseteq> set (sp_idle p))
     \<and> ((\<forall>c. calm (f c)) \<longrightarrow> returns r)"
proof -
  let ?g = "\<lambda>client s. let (r, s') = f client s in (disposition_of r, s')"
  obtain x where x: "execute_with_disposition be op ?g p s = Some (x, p', s')"
    and r: "r = bind_exec x (\<lambda>r. Return (bind_result r (\<lambda>v. v)))"
    using assms(2) by (auto simp: execute_def)
  from assms(1) x show ?thesis
  proof (cases rule: execute_with_disposition_post)
    case (refused e)
    with r show ?thesis by simp
  next
    case (ran c s1 out)
    obtain y where y: "f c s1 = (y, s')" "out = disposition_of y" using ran(1) by (auto split: prod.splits)
    have "r = y" using ran(5) y(2) r by (auto simp: disposition_of_def split: exec.splits sum.splits)
    moreover have "keeps out \<longleftrightarrow> (\<exists>v. y = Return (Inr v))"
      using y(2) by (auto simp: keeps_def disposition_of_def split: exec.splits sum.splits)
    moreover have "(\<forall>c. calm (f c)) \<longrightarrow> returns y" using y(1) calmD[of "f c" s1 _ s'] by (cases y) auto
    ultimately show ?thesis using ran(2-4) by blast
  qed
qed

section \<open>Preparation of sessions\<close>

definition lifecycle_sql :: "session_pool \<Rightarrow> string" where
  "lifecycle_sql p = ''SET statement_timeout = '' @ show_nat (as_millis (sp_operation_timeout p))
     @ ''; SET lock_timeout = '' @ show_nat (as_millis (min LOCK_TIMEOUT (sp_operation_timeout p)))
     @ ''; SET application_name = '' @ quote_literal (sp_application_name p)"

definition prepared :: "session_pool \<Rightarrow> admin_session \<Rightarrow> event list \<Rightarrow> bool" where
  "prepared p ses es \<longleftrightarrow> (\<exists>c pre e to. ses = fresh_session (PersistentClient (Some c))
     \<and> es = pre @ [e, Batch_event (client_session c) to (lifecycle_sql p) (Replied ())]
     \<and> ((\<exists>url ct. e = Connect_event url ct (Connected (client_session c)))
        \<or> (\<exists>rt. e = Batch_event (client_session c) rt ''DISCARD ALL'' (Replied ()))))"

lemma configure_lifecycle_event:
  assumes "configure_lifecycle_session_with_timeout be c (sp_operation_timeout p) (sp_application_name p) to s
      = (Return (Inr x), t)"
  shows "trace t = trace s @ [Batch_event (client_session c) to (lifecycle_sql p) (Replied ())]"
  using assms
  by (auto simp: configure_lifecycle_session_with_timeout_def io_bind_ok_iff duration_millis_def lifecycle_sql_def
      split: if_splits dest: batch_ok_event)

lemma clock_keeps_trace:
  "checkout_remaining be d s = (Return (Inr x), t) \<Longrightarrow> trace t = trace s"
  by (auto simp: checkout_remaining_def deadline_remaining_def read_clock_def io_bind_ok_iff
      split: prod.splits option.splits)

lemma prepare_reused_prepared:
  assumes "prepare_reused be p dl client s = (Return (Inr x), t)"
  shows "prepared p (fresh_session client) (trace t)"
proof -
  obtain c where c: "client = PersistentClient (Some c)"
    and run: "prepare_reused_lifecycle_session be c (sp_operation_timeout p) (sp_application_name p) dl s
      = (Return (Inr x), t)"
    using assms by (cases client) (auto simp: prepare_reused_def io_bind_ok_iff persistent_client_mut_def)
  from run obtain r1 s1 s2 r2 s3 where "checkout_remaining be dl s = (Return (Inr r1), s1)"
    "batch_execute_with_timeout be c r1 ''reset pooled admin session'' ''DISCARD ALL'' s1 = (Return (Inr ()), s2)"
    "checkout_remaining be dl s2 = (Return (Inr r2), s3)"
    "configure_lifecycle_session_with_timeout be c (sp_operation_timeout p) (sp_application_name p) r2 s3
       = (Return (Inr x), t)"
    by (auto simp: prepare_reused_lifecycle_session_def io_bind_ok_iff)
  from clock_keeps_trace[OF this(1)] batch_ok_event(1)[OF this(2)] clock_keeps_trace[OF this(3)]
    configure_lifecycle_event[OF this(4)]
  have "trace t = trace s @ [Batch_event (client_session c) r1 ''DISCARD ALL'' (Replied ()),
      Batch_event (client_session c) r2 (lifecycle_sql p) (Replied ())]" by simp
  then show ?thesis unfolding prepared_def c by blast
qed

lemma connect_lifecycle_prepared:
  assumes "connect_lifecycle be p op s = (Return (Inr client), t)"
  shows "prepared p (fresh_session client) (trace t)"
proof -
  from assms obtain c u where con: "AdminClient_connect be (sp_admin_url p) CONNECT_TIMEOUT
        (client_operation_timeout (sp_operation_timeout p)) op s = (Return (Inr c), u)"
    and cfg: "configure_lifecycle_session_with_timeout be c (sp_operation_timeout p) (sp_application_name p)
        (request_timeout c) u = (Return (Inr ()), t)"
    and client: "client = PersistentClient (Some c)"
    by (auto simp: connect_lifecycle_def io_bind_ok_iff prepare_new_lifecycle_session_def
        configure_lifecycle_session_def PersistentClient_new_def)
  from con have "trace u = trace s @ [Connect_event (sp_admin_url p) CONNECT_TIMEOUT (Connected (client_session c))]"
    by (auto simp: AdminClient_connect_def Let_def split: prod.splits connect_reply.splits)
  with configure_lifecycle_event[OF cfg]
  have "trace t = trace s @ [Connect_event (sp_admin_url p) CONNECT_TIMEOUT (Connected (client_session c)),
      Batch_event (client_session c) (request_timeout c) (lifecycle_sql p) (Replied ())]" by simp
  then show ?thesis unfolding prepared_def client by blast
qed

lemma lifecycle_sql_cong:
  "acquire_now be dl p s = (Granted c p', s') \<Longrightarrow> lifecycle_sql p' = lifecycle_sql p"
  "release_slot p = Return p' \<Longrightarrow> lifecycle_sql p' = lifecycle_sql p"
  by (auto simp: lifecycle_sql_def acquire_now_def acquire_checkout_def release_slot_def bind_exec_Return_iff
      split: if_splits prod.splits exec.splits sum.splits option.splits)

lemma checkout_loop_ok_cases:
  assumes "checkout_loop be op dl p s = Some (Return (Inr ses), p', s')"
  obtains (connected) q s1 client where "acquire_now be dl p s = (Granted None q, s1)"
      "connect_lifecycle be q op s1 = (Return (Inr client), s')" "ses = fresh_session client"
    | (reused) q s1 client u where "acquire_now be dl p s = (Granted (Some client) q, s1)"
      "prepare_reused be q dl client s1 = (Return (Inr u), s')" "ses = fresh_session client"
    | (again) q s1 client q2 s3 where "acquire_now be dl p s = (Granted (Some client) q, s1)"
      "release_slot q = Return q2" "checkout_loop be op dl q2 s3 = Some (Return (Inr ses), p', s')"
  using assms
  by (subst (asm) checkout_loop.simps)
     (auto split: prod.splits acquired.splits option.splits exec.splits sum.splits if_splits)

lemma checkout_loop_prepared:
  assumes "checkout_loop be op dl p s = Some (Return (Inr ses), p', s')"
  shows "prepared p ses (trace s')"
  using assms
proof (induction "length (sp_idle p)" arbitrary: p s rule: less_induct)
  case less
  have cong: "prepared q ses es = prepared p ses es" if "lifecycle_sql q = lifecycle_sql p" for q es
    using that by (simp add: prepared_def)
  from less.prems show ?case
  proof (cases rule: checkout_loop_ok_cases)
    case (connected q s1 client)
    with connect_lifecycle_prepared[OF connected(2)] cong[OF lifecycle_sql_cong(1)] show ?thesis by blast
  next
    case (reused q s1 client u)
    with prepare_reused_prepared[OF reused(2)] cong[OF lifecycle_sql_cong(1)] show ?thesis by blast
  next
    case (again q s1 client q2 s3)
    then have "prepared q2 ses (trace s')"
      using less.hyps[of q2] acquire_now_idle release_slot_idle by metis
    with again(1,2) cong lifecycle_sql_cong show ?thesis by metis
  qed
qed

section \<open>Properties\<close>

text \<open>An empty pool of two sessions, for concrete instances.\<close>

definition demo_pool :: session_pool where
  "demo_pool = AdminSessionPool_new ''url'' (from_secs 1) ''a'' 2"

lemma demo_pool_reachable:
  "pool_reachable ''url'' (from_secs 1) ''a'' 2 \<lparr>ps_pool = demo_pool\<lparr>sp_total := 1\<rparr>, ps_out = [None]\<rparr>"
proof -
  have "pool_reachable ''url'' (from_secs 1) ''a'' 2 \<lparr>ps_pool = demo_pool, ps_out = []\<rparr>"
    by (rule reachable_init) (simp add: pool_start_def demo_pool_def)
  moreover have "pool_step \<lparr>ps_pool = demo_pool, ps_out = []\<rparr>
      \<lparr>ps_pool = demo_pool\<lparr>sp_total := 1\<rparr>, ps_out = None # ps_out \<lparr>ps_pool = demo_pool, ps_out = []\<rparr>\<rparr>"
    by (rule pool_step.grant[where dl = "\<lparr>dl_started = 0, dl_timeout = 0\<rparr>" and remaining = None])
       (simp add: acquire_checkout_def demo_pool_def AdminSessionPool_new_def)
  ultimately show ?thesis by (metis reachable_step pool_system.select_convs(2))
qed

text \<open>C23: Whatever callers do concurrently, the pool's count is the number of idle sessions plus the
  slots in use, it never exceeds the pool size, a closed pool keeps no idle session, and none of
  the pool's internal expectations can fail: releasing a held slot, returning a held session and
  closing the pool always succeed.\<close>

theorem session_pool_bounded_and_panic_free:
  assumes "pool_reachable url t project n s"
  shows "sp_total (ps_pool s) = length (sp_idle (ps_pool s)) + length (ps_out s)
     \<and> sp_total (ps_pool s) \<le> max n 1
     \<and> (sp_closed (ps_pool s) \<longrightarrow> sp_idle (ps_pool s) = [])
     \<and> (ps_out s \<noteq> [] \<longrightarrow> returns (release_slot (ps_pool s)))
     \<and> (\<forall>c reusable. Some c \<in> set (ps_out s) \<longrightarrow>
          returns (session_drop \<lparr>ses_client = Some c, ses_reusable = reusable\<rparr> (ps_pool s)))
     \<and> returns (pool_close (ps_pool s))"
proof -
  note inv = pool_sys.reachable_inv[OF assms]
  then have p: "pool_inv (length (ps_out s)) (ps_pool s)" "sp_max_size (ps_pool s) = max n 1"
    by (auto simp: pool_system_inv_def)
  have ne: "returns (release_slot (ps_pool s))
      \<and> (\<forall>c reusable. Some c \<in> set (ps_out s) \<longrightarrow>
          returns (session_drop \<lparr>ses_client = Some c, ses_reusable = reusable\<rparr> (ps_pool s)))"
    if ne: "ps_out s \<noteq> []"
  proof -
    from ne p(1) obtain k where k: "pool_inv (Suc k) (ps_pool s)" by (cases "ps_out s") auto
    have "\<exists>p'. session_drop \<lparr>ses_client = Some c, ses_reusable = b\<rparr> (ps_pool s) = Return p'"
      if "Some c \<in> set (ps_out s)" for c b
    proof -
      have "persistent_inner c \<noteq> None" using inv that by (auto simp: pool_system_inv_def)
      with session_drop_inv[OF k, of "\<lparr>ses_client = Some c, ses_reusable = b\<rparr>" c] show ?thesis by auto
    qed
    with release_slot_inv[OF k] show ?thesis by (auto simp: returns_iff)
  qed
  have "\<forall>c reusable. Some c \<in> set (ps_out s) \<longrightarrow>
      returns (session_drop \<lparr>ses_client = Some c, ses_reusable = reusable\<rparr> (ps_pool s))"
    using ne by (metis empty_iff empty_set)
  moreover have "returns (pool_close (ps_pool s))" using pool_close_inv[OF p(1)] by (auto simp: returns_iff)
  ultimately show ?thesis using p ne by (simp add: pool_inv_def)
qed

theorem session_pool_bounded_and_panic_free_witness:
  "returns (release_slot (demo_pool\<lparr>sp_total := 1\<rparr>)) \<and> returns (pool_close (demo_pool\<lparr>sp_total := 1\<rparr>))"
  using session_pool_bounded_and_panic_free[OF demo_pool_reachable] by simp



text \<open>C25: Every session handed out is freshly connected or was reset with \<open>DISCARD ALL\<close>, and in both cases
  its timeouts and application name were set by the last request before it is used.\<close>

theorem sessions_prepared_before_use:
  assumes "checkout be op p s = Some (Return (Inr ses), p', s')"
  shows "\<exists>c pre e to. ses = fresh_session (PersistentClient (Some c))
     \<and> trace s' = pre @ [e, Batch_event (client_session c) to (lifecycle_sql p) (Replied ())]
     \<and> ((\<exists>url ct. e = Connect_event url ct (Connected (client_session c)))
        \<or> (\<exists>rt. e = Batch_event (client_session c) rt ''DISCARD ALL'' (Replied ())))"
proof -
  obtain dl s0 where "Deadline_new be (sp_operation_timeout p) s = (Return (Inr dl), s0)"
    using Deadline_new_ok by blast
  with assms have "checkout_loop be op dl p s0 = Some (Return (Inr ses), p', s')" by (simp add: checkout_def)
  from checkout_loop_prepared[OF this] show ?thesis by (auto simp: prepared_def)
qed

theorem sessions_prepared_before_use_witness:
  "\<exists>ses p' s' pre e. checkout mini_server ''op'' demo_pool mini_start = Some (Return (Inr ses), p', s')
     \<and> trace s' = pre @ [e, Batch_event 1 (from_secs 2) (lifecycle_sql demo_pool) (Replied ())]"
proof -
  have sql: "mini_batch (''SET '' @ q) w = (Replied (), w)" for q w
    by (simp add: mini_batch_def strip_prefix.simps)
  let ?c = "\<lparr>client_session = 1, request_timeout = client_operation_timeout (from_secs 1)\<rparr>"
  obtain s' where co: "checkout mini_server ''op'' demo_pool mini_start =
      Some (Return (Inr (fresh_session (PersistentClient_new ?c))), demo_pool\<lparr>sp_total := 1\<rparr>, s')"
    using sql
    by (auto simp: checkout_def Deadline_new_def read_clock_def io_bind_def checkout_loop.simps acquire_now_def
        acquire_checkout_def connect_lifecycle_def admin_defs AdminClient_connect_def request_defs
        mini_server_def demo_pool_def AdminSessionPool_new_def duration_millis_def run_admin_operation_def
        u64_max_def std_defs LOCK_TIMEOUT_def)
  from sessions_prepared_before_use[OF co]
  obtain c pre e to where c: "PersistentClient_new ?c = PersistentClient (Some c)"
    "trace s' = pre @ [e, Batch_event (client_session c) to (lifecycle_sql demo_pool) (Replied ())]"
    by (auto simp: fresh_session_def)
  have "to = from_secs 2"
    using co c(2) sql
    by (auto simp: checkout_def Deadline_new_def read_clock_def io_bind_def checkout_loop.simps acquire_now_def
        acquire_checkout_def connect_lifecycle_def admin_defs AdminClient_connect_def request_defs
        mini_server_def demo_pool_def AdminSessionPool_new_def duration_millis_def run_admin_operation_def
        u64_max_def std_defs LOCK_TIMEOUT_def mini_start_def client_operation_timeout_def
        CLIENT_OPERATION_TIMEOUT_GRACE_def duration_max_def)
  with co c show ?thesis by (auto simp: PersistentClient_new_def)
qed

end
