(* ===== verification/Stale.thy ===== *)
theory Stale
  imports Admin_Properties
begin

text \<open>
  Owner-aware removal of stale databases (\<open>cleanup_stale_blocking\<close> and its helpers in
  \<open>src/harness.rs\<close>). The wall clock is read once per pass; its reading is an argument.
\<close>

section \<open>Classification\<close>

record cleanup_report =
  dropped_test_databases :: nat
  dropped_templates :: nat
  skipped_active :: nat
  skipped_fresh :: nat
  skipped_unrecognized :: nat

definition default_report :: cleanup_report where
  "default_report = \<lparr>dropped_test_databases = 0, dropped_templates = 0, skipped_active = 0,
     skipped_fresh = 0, skipped_unrecognized = 0\<rparr>"

definition total_dropped :: "cleanup_report \<Rightarrow> nat" where
  "total_dropped self = dropped_test_databases self + dropped_templates self"

datatype cleanup_classification =
    Ignore
  | Unrecognized
  | Fresh
  | Candidate database_name int

definition metadata_matches_name :: "resource_metadata \<Rightarrow> database_name \<Rightarrow> bool exec" where
  "metadata_matches_name metadata name =
     (case (metadata, db_kind name) of
        (TestMeta _ _ _, Test) \<Rightarrow> Return True
      | (TemplateMeta project _ fingerprint _ _ _, Template) \<Rightarrow>
          bind_exec (DatabaseName_template project fingerprint) (\<lambda>expected. Return (expected = name))
      | _ \<Rightarrow> Return False)"

definition classify_cleanup_record ::
  "project_name \<Rightarrow> database_record \<Rightarrow> nat \<Rightarrow> duration \<Rightarrow> cleanup_classification exec" where
  "classify_cleanup_record project rec now stale_after =
     (case from_existing project (rec_name rec) of
        None \<Rightarrow> Return Ignore
      | Some name \<Rightarrow>
          (case Option.bind (rec_comment rec) parse of
             None \<Rightarrow> Return Unrecognized
           | Some metadata \<Rightarrow>
               if meta_project metadata \<noteq> project then Return Unrecognized
               else
                 bind_exec (metadata_matches_name metadata name) (\<lambda>matches.
                 if \<not> matches then Return Unrecognized
                 else if now - meta_created_at metadata < as_secs stale_after then Return Fresh
                 else Return (Candidate name (lock_key metadata)))))"

definition revalidate_cleanup_candidate ::
  "project_name \<Rightarrow> database_record \<Rightarrow> database_record option \<Rightarrow> int \<Rightarrow> nat \<Rightarrow> duration \<Rightarrow> cleanup_report
     \<Rightarrow> (database_name option \<times> cleanup_report) exec" where
  "revalidate_cleanup_candidate project snapshot current held_key now stale_after report =
     (case current of
        None \<Rightarrow> Return (None, report)
      | Some cur \<Rightarrow>
          bind_exec (classify_cleanup_record project cur now stale_after) (\<lambda>cls.
          Return (case cls of
              Ignore \<Rightarrow> (None, report)
            | Unrecognized \<Rightarrow> (None, report\<lparr>skipped_unrecognized := skipped_unrecognized report + 1\<rparr>)
            | Fresh \<Rightarrow> (None, report\<lparr>skipped_fresh := skipped_fresh report + 1\<rparr>)
            | Candidate name key \<Rightarrow>
                if cur = snapshot \<and> key = held_key then (Some name, report) else (None, report))))"

section \<open>One candidate\<close>

definition cleanup_candidate_after_lock ::
  "'w backend \<Rightarrow> admin_client \<Rightarrow> project_name \<Rightarrow> database_record \<Rightarrow> int \<Rightarrow> nat \<Rightarrow> duration \<Rightarrow> cleanup_report
     \<Rightarrow> ('w, database_kind option \<times> cleanup_report) io" where
  "cleanup_candidate_after_lock be client project snapshot held_key now stale_after report =
     io_bind (io_exec (expect (from_existing project (rec_name snapshot))
        ''classified cleanup candidate has a valid managed database name'')) (\<lambda>snapshot_name.
     io_bind (find_database be client snapshot_name) (\<lambda>current.
     io_bind (io_exec (revalidate_cleanup_candidate project snapshot current held_key now stale_after report))
       (\<lambda>(candidate, report).
       case candidate of
         None \<Rightarrow> io_ok (None, report)
       | Some name \<Rightarrow>
           io_bind (drop_database be client name) (\<lambda>_. io_ok (Some (db_kind name), report)))))"

text \<open>
  \<open>finish_locked_cleanup\<close>: the lock is released whatever the operation returned; the
  operation's error wins.
\<close>

definition finish_locked_cleanup :: "'a result \<Rightarrow> ('w, unit) io \<Rightarrow> ('w, 'a) io" where
  "finish_locked_cleanup operation unlock =
     io_bind (io_try unlock) (\<lambda>unlocked.
       case operation of
         Inr v \<Rightarrow> (case unlocked of Inr _ \<Rightarrow> io_ok v | Inl e \<Rightarrow> io_err e)
       | Inl e \<Rightarrow> io_err e)"

text \<open>
  One round of the loop. The report is threaded by value; it is read only when the pass succeeds,
  so what it holds after an error does not matter.
\<close>

definition cleanup_record ::
  "'w backend \<Rightarrow> admin_client \<Rightarrow> project_name \<Rightarrow> nat \<Rightarrow> duration \<Rightarrow> database_record \<Rightarrow> cleanup_report
     \<Rightarrow> ('w, cleanup_report) io" where
  "cleanup_record be client project now stale_after rec report =
     io_bind (io_exec (classify_cleanup_record project rec now stale_after)) (\<lambda>cls.
     case cls of
       Ignore \<Rightarrow> io_ok report
     | Unrecognized \<Rightarrow> io_ok (report\<lparr>skipped_unrecognized := skipped_unrecognized report + 1\<rparr>)
     | Fresh \<Rightarrow> io_ok (report\<lparr>skipped_fresh := skipped_fresh report + 1\<rparr>)
     | Candidate _ key \<Rightarrow>
         io_bind (try_acquire_advisory_lock be client key) (\<lambda>acquired.
         if \<not> acquired then io_ok (report\<lparr>skipped_active := skipped_active report + 1\<rparr>)
         else
           io_bind (io_try (cleanup_candidate_after_lock be client project rec key now stale_after report))
             (\<lambda>cleanup_result.
           io_bind (finish_locked_cleanup cleanup_result (release_advisory_lock be client key))
             (\<lambda>(dropped_kind, report).
             io_ok (case dropped_kind of
                 None \<Rightarrow> report
               | Some Test \<Rightarrow> report\<lparr>dropped_test_databases := dropped_test_databases report + 1\<rparr>
               | Some Template \<Rightarrow> report\<lparr>dropped_templates := dropped_templates report + 1\<rparr>)))))"

fun cleanup_records ::
  "'w backend \<Rightarrow> admin_client \<Rightarrow> project_name \<Rightarrow> nat \<Rightarrow> duration \<Rightarrow> database_record list \<Rightarrow> cleanup_report
     \<Rightarrow> ('w, cleanup_report) io" where
  "cleanup_records be client project now stale_after [] report = io_ok report"
| "cleanup_records be client project now stale_after (rec # records) report =
     io_bind (cleanup_record be client project now stale_after rec report)
       (cleanup_records be client project now stale_after records)"

definition cleanup_stale_blocking ::
  "'w backend \<Rightarrow> string \<Rightarrow> project_name \<Rightarrow> duration \<Rightarrow> duration \<Rightarrow> nat \<Rightarrow> ('w, cleanup_report) io" where
  "cleanup_stale_blocking be admin_url project stale_after operation_timeout now =
     io_bind (connect_admin be admin_url operation_timeout
        ''connect for stale PostgreSQL database cleanup'') (\<lambda>client.
     io_bind (validate_postgres_18 be client) (\<lambda>_.
     io_bind (list_databases be client) (\<lambda>records.
     cleanup_records be client project now stale_after records default_report)))"

definition DEFAULT_CLEANUP_OPERATION_TIMEOUT :: duration where
  "DEFAULT_CLEANUP_OPERATION_TIMEOUT = from_secs 90"

definition cleanup_stale_with ::
  "'w backend \<Rightarrow> 'u url_api \<Rightarrow> 'u admin_database_url \<Rightarrow> project_name \<Rightarrow> duration \<Rightarrow> duration \<Rightarrow> nat
     \<Rightarrow> ('w, cleanup_report) io" where
  "cleanup_stale_with be api admin_url project stale_after operation_timeout now =
     run_blocking (cleanup_stale_blocking be (admin_url_as_str api admin_url) project stale_after
       operation_timeout now)"

definition cleanup_stale_databases ::
  "'w backend \<Rightarrow> 'u url_api \<Rightarrow> string \<Rightarrow> string \<Rightarrow> duration \<Rightarrow> nat \<Rightarrow> ('w, cleanup_report) io" where
  "cleanup_stale_databases be api url_value project stale_after now =
     io_bind (io_result (AdminDatabaseUrl_parse api url_value)) (\<lambda>admin_url.
     io_bind (io_result (ProjectName_new project)) (\<lambda>project.
     cleanup_stale_with be api admin_url project stale_after DEFAULT_CLEANUP_OPERATION_TIMEOUT now))"

section \<open>Classification never panics and is exact\<close>

lemma metadata_matches_name_returns:
  "wf_metadata m \<Longrightarrow> returns (metadata_matches_name m n)"
  by (cases m; cases "db_kind n") (auto simp: metadata_matches_name_def DatabaseName_template_Return)

lemma returns_bind: "returns e \<Longrightarrow> (\<And>x. returns (f x)) \<Longrightarrow> returns (bind_exec e f)"
  by (cases e) auto

lemma classify_returns [no_panic]: "returns (classify_cleanup_record p r now stale)"
  unfolding classify_cleanup_record_def
  by (auto simp: bind_eq_Some_conv split: option.split
      intro!: returns_bind metadata_matches_name_returns dest: parse_wf)

text \<open>A removable database: managed name, own project, consistent comment, and old enough.\<close>

definition removable :: "project_name \<Rightarrow> nat \<Rightarrow> duration \<Rightarrow> database_record \<Rightarrow> database_name \<Rightarrow> int \<Rightarrow> bool" where
  "removable project now stale_after rec name key \<longleftrightarrow>
     (\<exists>comment metadata. from_existing project (rec_name rec) = Some name
        \<and> rec_comment rec = Some comment \<and> parse comment = Some metadata
        \<and> meta_project metadata = project \<and> metadata_matches_name metadata name = Return True
        \<and> as_secs stale_after \<le> now - meta_created_at metadata \<and> lock_key metadata = key)"

lemma classify_candidate_iff:
  "classify_cleanup_record p r now stale = Return (Candidate n k) \<longleftrightarrow> removable p now stale r n k"
proof (cases "from_existing p (rec_name r)")
  case None
  then show ?thesis by (simp add: classify_cleanup_record_def removable_def)
next
  case n: (Some m)
  show ?thesis
  proof (cases "Option.bind (rec_comment r) parse")
    case None
    with n show ?thesis by (auto simp: classify_cleanup_record_def removable_def)
  next
    case (Some md)
    then obtain c where c: "rec_comment r = Some c" "parse c = Some md" by (auto simp: bind_eq_Some_conv)
    obtain b where "metadata_matches_name md m = Return b"
      using metadata_matches_name_returns[OF parse_wf[OF c(2)]] by (auto simp: returns_iff)
    with n Some c show ?thesis by (cases b) (auto simp: classify_cleanup_record_def removable_def not_less)
  qed
qed

lemma revalidate_Some:
  assumes "revalidate_cleanup_candidate p snap cur k now stale rep = Return (Some n, rep')"
  shows "cur = Some snap \<and> removable p now stale snap n k"
proof -
  from assms obtain x cls where x: "cur = Some x" "classify_cleanup_record p x now stale = Return cls"
    by (auto simp: revalidate_cleanup_candidate_def bind_exec_Return_iff split: option.splits)
  with assms show ?thesis
    by (cases cls) (auto simp: revalidate_cleanup_candidate_def classify_candidate_iff split: if_splits)
qed

lemma removable_name: "removable p now stale r n k \<Longrightarrow> rec_name r = db_value n \<and> wf_name n"
  by (auto simp: removable_def dest: from_existing_value)

section \<open>The requests of a pass\<close>

text \<open>
  The requests made for one record: nothing, a lock attempt, or a lock attempt that succeeded,
  followed by a fresh lookup of the same database, at most one drop, and the release of the lock. A
  drop is there only if the looked-up record is removable under the key that is held.
\<close>

definition try_lock_event :: "admin_client \<Rightarrow> int \<Rightarrow> sql_row reply \<Rightarrow> event" where
  "try_lock_event c k r =
     Query_one_event (client_session c) (request_timeout c) ''SELECT pg_try_advisory_lock($1)'' [SqlInt k] r"

definition unlock_event :: "admin_client \<Rightarrow> int \<Rightarrow> sql_row reply \<Rightarrow> event" where
  "unlock_event c k r =
     Query_one_event (client_session c) (request_timeout c) ''SELECT pg_advisory_unlock($1)'' [SqlInt k] r"

definition find_event :: "admin_client \<Rightarrow> database_name \<Rightarrow> sql_row option reply \<Rightarrow> event" where
  "find_event c n r =
     Query_opt_event (client_session c) (request_timeout c)
       ''SELECT datname, shobj_description(oid, 'pg_database') FROM pg_database WHERE datname = $1''
       [SqlText (db_value n)] r"

definition drop_event :: "admin_client \<Rightarrow> database_name \<Rightarrow> unit reply \<Rightarrow> event" where
  "drop_event c n r = Batch_event (client_session c) (request_timeout c) (drop_sql n) r"

inductive record_requests :: "admin_client \<Rightarrow> project_name \<Rightarrow> nat \<Rightarrow> duration \<Rightarrow> event list \<Rightarrow> bool"
  for c p now stale where
  none: "record_requests c p now stale []"
| attempt: "record_requests c p now stale [try_lock_event c k r]"
| looked: "r = Replied (SqlBool True # row) \<Longrightarrow>
    record_requests c p now stale [try_lock_event c k r, find_event c n f, unlock_event c k u]"
| dropped: "r = Replied (SqlBool True # row) \<Longrightarrow> f = Replied (Some found) \<Longrightarrow> record_of_row found = Return rec \<Longrightarrow>
    removable p now stale rec n k \<Longrightarrow>
    record_requests c p now stale
      [try_lock_event c k r, find_event c n f, drop_event c n d, unlock_event c k u]"

lemma query_one_cases:
  assumes "query_one be c op q ps s = (r, t)"
  obtains reply where "r = Return (run_admin_operation (request_timeout c) op reply)"
    "trace t = trace s @ [Query_one_event (client_session c) (request_timeout c) q ps reply]"
  using assms by (auto simp: query_one_def query_one_with_timeout_def Let_def split: prod.splits)

lemma get_bool_first: "get_bool row 0 = Return b \<longleftrightarrow> (\<exists>rest. row = SqlBool b # rest)"
  by (cases row) (auto simp: get_bool_def column_def split: sql_value.splits)

lemma try_lock_cases:
  assumes "try_acquire_advisory_lock be c k s = (r, t)"
  obtains reply where "trace t = trace s @ [try_lock_event c k reply]"
    and "r = Return (Inr True) \<Longrightarrow> \<exists>row. reply = Replied (SqlBool True # row)"
proof -
  obtain x u where x: "query_one be c ''try PostgreSQL advisory lock'' ''SELECT pg_try_advisory_lock($1)''
      [SqlInt k] s = (x, u)" by fastforce
  then obtain reply where reply: "x = Return (run_admin_operation (request_timeout c) ''try PostgreSQL advisory lock'' reply)"
    "trace u = trace s @ [try_lock_event c k reply]"
    unfolding try_lock_event_def by (rule query_one_cases)
  have "t = u" using assms x reply(1)
    by (auto simp: try_acquire_advisory_lock_def io_bind_def io_exec_def split: sum.splits)
  moreover have "\<exists>row. reply = Replied (SqlBool True # row)" if "r = Return (Inr True)"
    using assms x reply(1) that
    by (auto simp: try_acquire_advisory_lock_def io_bind_ok_iff run_admin_operation_ok_iff get_bool_first)
  ultimately show thesis using that reply(2) by blast
qed

lemma release_event:
  assumes "release_advisory_lock be c k s = (r, t)"
  obtains reply v where "trace t = trace s @ [unlock_event c k reply]" "r = Return v"
proof -
  obtain x u where x: "query_one be c ''release PostgreSQL advisory lock'' ''SELECT pg_advisory_unlock($1)''
      [SqlInt k] s = (x, u)" by fastforce
  then obtain reply where "x = Return (run_admin_operation (request_timeout c) ''release PostgreSQL advisory lock'' reply)"
    "trace u = trace s @ [unlock_event c k reply]"
    unfolding unlock_event_def by (rule query_one_cases)
  with assms x that show thesis
    by (auto simp: release_advisory_lock_def io_bind_def split: sum.splits)
qed

lemma find_database_cases:
  assumes "find_database be c n s = (Return r, t)"
  obtains reply where "trace t = trace s @ [find_event c n reply]"
    and "\<And>rec. r = Inr (Some rec) \<Longrightarrow> \<exists>row. reply = Replied (Some row) \<and> record_of_row row = Return rec"
  using assms
  by (auto simp: find_database_def query_opt_def find_event_def io_bind_def io_exec_def Let_def
      run_admin_operation_def split: prod.splits sum.splits option.splits exec.splits reply.splits)

lemma candidate_cases:
  assumes "cleanup_candidate_after_lock be c p snap k now stale rep s = (Return r, t)"
  obtains (looked) n f where "trace t = trace s @ [find_event c n f]"
    | (dropped) n found rec d where "trace t = trace s @ [find_event c n (Replied (Some found)), drop_event c n d]"
      "record_of_row found = Return rec" "removable p now stale rec n k"
proof -
  obtain n where n: "from_existing p (rec_name snap) = Some n"
    using assms by (auto simp: cleanup_candidate_after_lock_def io_bind_def split: option.splits)
       (cases "from_existing p (rec_name snap)"; auto)
  obtain fr u where fr: "find_database be c n s = (Return fr, u)"
    using assms n by (auto simp: cleanup_candidate_after_lock_def io_bind_def split: prod.splits exec.splits)
  obtain f where f: "trace u = trace s @ [find_event c n f]"
    and found: "\<And>rec. fr = Inr (Some rec) \<Longrightarrow> \<exists>row. f = Replied (Some row) \<and> record_of_row row = Return rec"
    using find_database_cases[OF fr] by blast
  have rest: "io_bind (io_exec (revalidate_cleanup_candidate p snap cur k now stale rep))
       (\<lambda>(candidate, report). case candidate of None \<Rightarrow> io_ok (None, report)
         | Some name \<Rightarrow> io_bind (drop_database be c name) (\<lambda>_. io_ok (Some (db_kind name), report))) u = (Return r, t)"
    if "fr = Inr cur" for cur
    using assms n fr that by (simp add: cleanup_candidate_after_lock_def io_bind_def)
  show thesis
  proof (cases fr)
    case (Inl e)
    with assms n fr have "t = u" by (simp add: cleanup_candidate_after_lock_def io_bind_def)
    with f looked show ?thesis by blast
  next
    case (Inr cur)
    obtain cand rep' where rv: "revalidate_cleanup_candidate p snap cur k now stale rep = Return (cand, rep')"
      using rest[OF Inr] by (cases "revalidate_cleanup_candidate p snap cur k now stale rep") (auto simp: io_bind_def)
    show ?thesis
    proof (cases cand)
      case None
      with rest[OF Inr] rv have "t = u" by (simp add: io_bind_def)
      with f looked show ?thesis by blast
    next
      case (Some m)
      note rm = revalidate_Some[OF rv[unfolded Some]]
      have "m = n" using rm n by (auto simp: removable_def)
      obtain d where "trace t = trace u @ [drop_event c m d]"
        using rest[OF Inr] rv Some
        by (auto simp: io_bind_def drop_database_def request_defs drop_event_def Let_def split: prod.splits sum.splits)
      moreover obtain row where "f = Replied (Some row)" "record_of_row row = Return snap"
        using found[of snap] Inr rm by blast
      ultimately show ?thesis using dropped[of n row d snap] f rm \<open>m = n\<close> by simp
    qed
  qed
qed

lemma finish_locked_cases:
  assumes "finish_locked_cleanup r (release_advisory_lock be c k) s = (x, t)"
  obtains u where "trace t = trace s @ [unlock_event c k u]"
proof -
  obtain v w where w: "release_advisory_lock be c k s = (v, w)" by fastforce
  from release_event[OF w] obtain u v' where u: "trace w = trace s @ [unlock_event c k u]" "v = Return v'" by blast
  with assms w have "t = w"
    by (auto simp: finish_locked_cleanup_def io_bind_def io_try_def split: sum.splits)
  with u that show thesis by blast
qed

lemma cleanup_record_requests:
  assumes "cleanup_record be c p now stale rec rep s = (Return r, t)"
  obtains es where "trace t = trace s @ es" "record_requests c p now stale es"
proof -
  obtain cls where cls: "classify_cleanup_record p rec now stale = Return cls"
    using classify_returns by (metis returns_iff)
  show thesis
  proof (cases cls)
    case (Candidate n k)
    obtain lr u where l: "try_acquire_advisory_lock be c k s = (lr, u)" by fastforce
    from try_lock_cases[OF l] obtain reply where ev: "trace u = trace s @ [try_lock_event c k reply]"
      and granted: "lr = Return (Inr True) \<Longrightarrow> \<exists>row. reply = Replied (SqlBool True # row)" by blast
    show thesis
    proof (cases "lr = Return (Inr True)")
      case False
      with assms cls Candidate l have "t = u"
        by (auto simp: cleanup_record_def io_bind_def split: exec.splits sum.splits if_splits)
      with ev that record_requests.attempt show thesis by blast
    next
      case True
      with granted obtain row where row: "reply = Replied (SqlBool True # row)" by blast
      obtain cr v where cr: "cleanup_candidate_after_lock be c p rec k now stale rep u = (Return cr, v)"
        using assms cls Candidate l True
        by (auto simp: cleanup_record_def io_bind_def io_try_def split: prod.splits exec.splits)
      obtain fr w where fr: "finish_locked_cleanup cr (release_advisory_lock be c k) v = (fr, w)" by fastforce
      have "t = w" using assms cls Candidate l True cr fr
        by (auto simp: cleanup_record_def io_bind_def io_try_def split: exec.splits sum.splits)
      obtain x where x: "trace w = trace v @ [unlock_event c k x]" using finish_locked_cases[OF fr] by blast
      from cr show thesis
      proof (cases rule: candidate_cases)
        case (looked m f)
        with ev x \<open>t = w\<close> that[of "[try_lock_event c k reply, find_event c m f, unlock_event c k x]"]
          record_requests.looked[OF row] show thesis by simp
      next
        case (dropped m found rec' d)
        with ev x \<open>t = w\<close> that[of "[try_lock_event c k reply, find_event c m (Replied (Some found)),
            drop_event c m d, unlock_event c k x]"]
          record_requests.dropped[OF row refl dropped(2,3)] show thesis by simp
      qed
    qed
  qed (use assms cls that[of "[]"] record_requests.none in \<open>auto simp: cleanup_record_def io_bind_def\<close>)
qed

lemma cleanup_records_requests:
  assumes "cleanup_records be c p now stale recs rep s = (Return r, t)"
  shows "\<exists>blocks. trace t = trace s @ concat blocks \<and> list_all (record_requests c p now stale) blocks"
  using assms
proof (induction recs arbitrary: rep s)
  case Nil
  then show ?case by (intro exI[of _ "[]"]) simp
next
  case (Cons rec recs)
  obtain x u where x: "cleanup_record be c p now stale rec rep s = (Return x, u)"
    using Cons.prems by (auto simp: io_bind_def split: prod.splits exec.splits)
  obtain es where es: "trace u = trace s @ es" "record_requests c p now stale es"
    using cleanup_record_requests[OF x] by blast
  show ?case
  proof (cases x)
    case (Inl e)
    with Cons.prems x es show ?thesis by (intro exI[of _ "[es]"]) (simp add: io_bind_def)
  next
    case (Inr rep')
    with Cons.prems x have "cleanup_records be c p now stale recs rep' u = (Return r, t)" by (simp add: io_bind_def)
    from Cons.IH[OF this] es obtain bs where "trace t = trace s @ concat (es # bs)"
      "list_all (record_requests c p now stale) (es # bs)" by auto
    then show ?thesis by blast
  qed
qed

text \<open>Requests that cannot remove a database.\<close>

definition harmless :: "event \<Rightarrow> bool" where
  "harmless e \<longleftrightarrow> (case e of Batch_event _ _ q _ \<Rightarrow> take 4 q = ''SET '' | _ \<Rightarrow> True)"

definition quiet :: "('w, 'a) io \<Rightarrow> bool" where
  "quiet m \<longleftrightarrow> (\<forall>s r t. m s = (r, t) \<longrightarrow> (\<exists>es. trace t = trace s @ es \<and> list_all harmless es))"

lemma quietD: "quiet m \<Longrightarrow> m s = (r, t) \<Longrightarrow> \<exists>es. trace t = trace s @ es \<and> list_all harmless es"
  unfolding quiet_def by blast

lemma quiet_bind:
  assumes "quiet m" "\<And>x. quiet (f x)" shows "quiet (io_bind m f)"
  unfolding quiet_def
proof (intro allI impI)
  fix s r t assume "io_bind m f s = (r, t)"
  then show "\<exists>es. trace t = trace s @ es \<and> list_all harmless es"
  proof (cases rule: io_bind_cases)
    case (ok x u)
    from quietD[OF assms(1) ok(1)] quietD[OF assms(2) ok(2)] show ?thesis by fastforce
  qed (auto dest: quietD[OF assms(1)])
qed

lemma quiet_try: "quiet m \<Longrightarrow> quiet (io_try m)"
  unfolding quiet_def by (auto elim!: io_try_cases)

lemma quiet_simple:
  "quiet (io_ok x)" "quiet (io_err e)" "quiet (io_result r)" "quiet (io_exec v)"
  by (auto simp: quiet_def io_exec_def)

lemma quiet_requests:
  "quiet (client_query be c op q ps)" "quiet (query_one be c op q ps)"
  "quiet (AdminClient_connect be url ct rt op)"
  "quiet (batch_execute_with_timeout be c timeout op (CHR ''S'' # CHR ''E'' # CHR ''T'' # CHR '' '' # q))"
  by (auto simp: quiet_def request_defs AdminClient_connect_def Let_def harmless_def
      split: prod.splits connect_reply.splits)

lemmas quiet_intros = quiet_bind quiet_try quiet_simple quiet_requests

lemma quiet_prefix:
  "quiet (connect_admin be url op what)" "quiet (validate_postgres_18 be c)" "quiet (list_databases be c)"
  by (auto simp: connect_admin_def connect_admin_with_timeout_def configure_session_timeouts_def
      configure_session_timeouts_with_timeout_def validate_postgres_18_def list_databases_def
      intro!: quiet_intros split: sum.split)

lemma stale_pass_requests:
  assumes "cleanup_stale_blocking be url p stale op now s = (Return r, t)"
  shows "\<exists>c start blocks. trace t = trace s @ start @ concat blocks
     \<and> list_all harmless start \<and> list_all (record_requests c p now stale) blocks"
proof -
  have none: ?thesis if "trace t = trace s @ es" "list_all harmless es" for es
    using that by (intro exI[of _ "[]"] exI[of _ es] exI conjI) simp_all
  show ?thesis
    using assms unfolding cleanup_stale_blocking_def
  proof (cases rule: io_bind_cases)
    case (ok c u)
    note q1 = quietD[OF quiet_prefix(1) ok(1)]
    from ok(2) show ?thesis
    proof (cases rule: io_bind_cases)
      case (ok x v)
      note q2 = quietD[OF quiet_prefix(2) ok(1)]
      from ok(2) show ?thesis
      proof (cases rule: io_bind_cases)
        case (ok recs w)
        note q3 = quietD[OF quiet_prefix(3) ok(1)]
        from cleanup_records_requests[OF ok(2)] obtain bs where
          bs: "trace t = trace w @ concat bs" "list_all (record_requests c p now stale) bs" by blast
        from q1 q2 q3 obtain e1 e2 e3 where "trace w = trace s @ (e1 @ e2 @ e3)" "list_all harmless (e1 @ e2 @ e3)"
          by auto
        with bs show ?thesis by (metis append.assoc)
      next
        case (err e)
        from q1 q2 quietD[OF quiet_prefix(3) err(1)] none show ?thesis by fastforce
      qed simp
    next
      case (err e)
      from q1 quietD[OF quiet_prefix(2) err(1)] none show ?thesis by fastforce
    qed simp
  next
    case (err e)
    from quietD[OF quiet_prefix(1) err(1)] none show ?thesis by blast
  qed simp
qed

section \<open>A concrete pass\<close>

definition demo_project :: project_name where "demo_project = ProjectName ''a''"

definition demo_stale_name :: database_name where
  "demo_stale_name = \<lparr>db_value = ''pgh_a_test_'' @ replicate 32 (CHR ''0''), db_kind = Test\<rparr>"

definition demo_record :: database_record where
  "demo_record = \<lparr>rec_name = db_value demo_stale_name, rec_comment = Some (encode mini_metadata)\<rparr>"

definition demo_row :: sql_row where
  "demo_row = [SqlText (rec_name demo_record), SqlText (encode mini_metadata)]"

text \<open>The concrete server with one stale database and every advisory lock free.\<close>

definition demo_stale_server :: "string list backend" where
  "demo_stale_server = mini_server\<lparr>
     be_query := (\<lambda>c t q ps w. (Replied [demo_row], w)),
     be_query_one := (\<lambda>c t q ps w. (Replied [if ps = [] then SqlInt 180001 else SqlBool True], w)),
     be_query_opt := (\<lambda>c t q ps w. (Replied (Some demo_row), w))\<rparr>"

lemma demo_from_existing: "from_existing demo_project (rec_name demo_record) = Some demo_stale_name"
  unfolding demo_project_def demo_record_def demo_stale_name_def by code_simp

lemma demo_removable: "removable demo_project 100 0 demo_record demo_stale_name 1"
proof -
  have "parse (encode mini_metadata) = Some mini_metadata"
    by (rule parse_encode)
       (simp add: mini_metadata_def wf_project_def i64_def i64_min_def i64_max_def u64_max_def std_defs)
  with demo_from_existing show ?thesis
    by (simp add: removable_def)
       (simp add: demo_record_def mini_metadata_def demo_project_def metadata_matches_name_def demo_stale_name_def
          std_defs)
qed

lemma demo_record_of_row: "record_of_row demo_row = Return demo_record"
  by (simp add: record_of_row_def demo_row_def get_text_def get_text_opt_def column_def demo_record_def)

lemma demo_cleanup_record:
  "\<exists>t. cleanup_record demo_stale_server c demo_project 100 0 demo_record default_report s
     = (Return (Inr (default_report\<lparr>dropped_test_databases := 1\<rparr>)), t)"
proof -
  have cls: "classify_cleanup_record demo_project demo_record 100 0 = Return (Candidate demo_stale_name 1)"
    using demo_removable by (simp add: classify_candidate_iff)
  have wf: "wf_name demo_stale_name" using demo_from_existing from_existing_value by blast
  have "revalidate_cleanup_candidate demo_project demo_record (Some demo_record) 1 100 0 default_report
      = Return (Some demo_stale_name, default_report)"
    by (simp add: revalidate_cleanup_candidate_def cls)
  with cls show ?thesis
    by (simp add: cleanup_record_def cleanup_candidate_after_lock_def demo_from_existing find_database_def
        drop_database_def try_acquire_advisory_lock_def release_advisory_lock_def finish_locked_cleanup_def
        io_bind_def io_try_def request_defs demo_stale_server_def mini_server_def mini_statements[OF wf]
        run_admin_operation_def get_bool_def column_def demo_record_of_row)
       (simp add: demo_stale_name_def default_report_def)
qed

lemma demo_stale_pass:
  "\<exists>t. cleanup_stale_blocking demo_stale_server ''url'' demo_project 0 (from_secs 1) 100 mini_start
     = (Return (Inr (default_report\<lparr>dropped_test_databases := 1\<rparr>)), t)"
proof -
  have sql: "mini_batch (''SET '' @ q) w = (Replied (), w)" for q w
    by (simp add: mini_batch_def strip_prefix.simps)
  let ?c = "\<lparr>client_session = 1, request_timeout = client_operation_timeout (from_secs 1)\<rparr>"
  obtain u where "connect_admin demo_stale_server ''url'' (from_secs 1)
      ''connect for stale PostgreSQL database cleanup'' mini_start = (Return (Inr ?c), u)"
    using sql
    by (auto simp: connect_admin_def connect_admin_with_timeout_def configure_session_timeouts_def
        configure_session_timeouts_with_timeout_def AdminClient_connect_def request_defs io_bind_def
        demo_stale_server_def mini_server_def duration_millis_def run_admin_operation_def u64_max_def std_defs
        LOCK_TIMEOUT_def)
  moreover obtain v where "validate_postgres_18 demo_stale_server ?c u = (Return (Inr ()), v)"
    by (simp add: validate_postgres_18_def io_bind_def io_try_def request_defs demo_stale_server_def
        run_admin_operation_def get_int_def column_def i32_div_def)
  moreover obtain w where "list_databases demo_stale_server ?c v = (Return (Inr [demo_record]), w)"
    by (simp add: list_databases_def io_bind_def request_defs demo_stale_server_def run_admin_operation_def
        demo_record_of_row)
  moreover obtain t where "cleanup_record demo_stale_server ?c demo_project 100 0 demo_record default_report w
     = (Return (Inr (default_report\<lparr>dropped_test_databases := 1\<rparr>)), t)"
    using demo_cleanup_record by blast
  ultimately show ?thesis by (auto simp: cleanup_stale_blocking_def io_bind_def)
qed

section \<open>Properties\<close>

text \<open>C10: A stale-cleanup pass that does not panic removes only databases it may remove. After connecting,
  its requests are one of four sequences per catalog record: none, a lock attempt, a successful lock
  attempt with a fresh lookup and the unlock, or the same with one \<open>DROP\<close> between lookup and unlock.
  In the last case the looked-up record has a managed name of the project, a comment of the same
  project and kind, an age of at least the threshold, and the lock held is its owner's. Every lock
  taken is released, also when a request fails.\<close>

theorem stale_cleanup_guarded:
  assumes "cleanup_stale_blocking be url p stale op now s = (Return r, t)"
  shows "\<exists>c start blocks. trace t = trace s @ start @ concat blocks
     \<and> list_all harmless start \<and> list_all (record_requests c p now stale) blocks"
  using assms by (rule stale_pass_requests)

theorem stale_cleanup_guarded_witness:
  "\<exists>t c start blocks. cleanup_stale_blocking demo_stale_server ''url'' demo_project 0 (from_secs 1) 100 mini_start
       = (Return (Inr (default_report\<lparr>dropped_test_databases := 1\<rparr>)), t)
     \<and> trace t = start @ concat blocks \<and> list_all harmless start
     \<and> list_all (record_requests c demo_project 100 0) blocks"
proof -
  obtain t where t: "cleanup_stale_blocking demo_stale_server ''url'' demo_project 0 (from_secs 1) 100 mini_start
       = (Return (Inr (default_report\<lparr>dropped_test_databases := 1\<rparr>)), t)" using demo_stale_pass by blast
  from stale_cleanup_guarded[OF t] t show ?thesis by (auto simp: mini_start_def)
qed

text \<open>The classification of a catalog record never panics and marks it as a candidate exactly when its
  name is a managed name of the project, its comment parses to metadata of the project that belongs
  to that name, and it is old enough; the candidate carries that name and the owner's lock key.\<close>

lemma stale_classification_exact:
  "returns (classify_cleanup_record p rec now stale)
   \<and> (classify_cleanup_record p rec now stale = Return (Candidate n k) \<longleftrightarrow> removable p now stale rec n k)"
  using classify_returns classify_candidate_iff by blast

end
