(* ===== verification/Prewarm.thy ===== *)
theory Prewarm
  imports Cleanup Names
begin

text \<open>
  The queue of prewarmed databases (\<open>PrewarmPoolState\<close>, \<open>PrewarmPoolInner\<close> and their guards in
  \<open>src/harness.rs\<close>). The functions below are the sections that run under the pool's mutex and the
  calls on its two semaphores; the step relation interleaves them between callers that reserve
  ready tokens, creations, returned leases and deletions. \<open>saturating_sub\<close> is subtraction on
  \<open>nat\<close>.
\<close>

section \<open>State\<close>

record prepared_database =
  pd_name :: database_name
  pd_database_url :: string

datatype return_phase = Deleting | Creating | Complete

record 's prewarm_pool =
  pw_capacity :: nat
  pw_ready :: "prepared_database list"
  pw_leased :: nat
  pw_creating :: nat
  pw_deleting :: nat
  pw_accepting :: bool
  pw_cleanup_started :: bool
  pw_ready_admission :: 's
  pw_closed :: 's

record prewarm_status =
  st_capacity :: nat
  st_ready :: nat
  st_leased :: nat
  st_creating :: nat
  st_deleting :: nat
  st_closed :: bool

definition PrewarmPool_new :: "'s semaphore \<Rightarrow> nat \<Rightarrow> 's prewarm_pool" where
  "PrewarmPool_new sem capacity =
     \<lparr>pw_capacity = capacity, pw_ready = [], pw_leased = 0, pw_creating = 0, pw_deleting = 0,
      pw_accepting = True, pw_cleanup_started = False,
      pw_ready_admission = sem_new sem 0, pw_closed = sem_new sem 0\<rparr>"

definition occupied_slots :: "'s prewarm_pool \<Rightarrow> nat" where
  "occupied_slots self = length (pw_ready self) + pw_leased self + pw_creating self + pw_deleting self"

definition pool_status :: "'s prewarm_pool \<Rightarrow> prewarm_status" where
  "pool_status self =
     \<lparr>st_capacity = pw_capacity self, st_ready = length (pw_ready self), st_leased = pw_leased self,
      st_creating = pw_creating self, st_deleting = pw_deleting self, st_closed = (\<not> pw_accepting self)\<rparr>"

definition prewarm_capacity_check :: "nat \<Rightarrow> nat \<Rightarrow> unit result" where
  "prewarm_capacity_check capacity max_capacity =
     (if capacity = 0 \<or> capacity > max_capacity
      then Inl (InvalidPrewarmCapacity capacity max_capacity) else Inr ())"

section \<open>Sections under the mutex\<close>

text \<open>The first result is the list of idle databases that this call must delete, if it is the first.\<close>

definition begin_cleanup :: "'s prewarm_pool \<Rightarrow> prepared_database list option \<times> 's prewarm_pool" where
  "begin_cleanup self =
     (let s1 = self\<lparr>pw_accepting := False\<rparr>
      in if pw_cleanup_started s1 then (None, s1)
         else (Some (pw_ready s1),
               s1\<lparr>pw_cleanup_started := True, pw_ready := [],
                  pw_deleting := pw_deleting s1 + length (pw_ready s1)\<rparr>))"

definition fail_and_begin_cleanup ::
  "return_phase \<Rightarrow> 's prewarm_pool \<Rightarrow> prepared_database list option \<times> 's prewarm_pool" where
  "fail_and_begin_cleanup phase self =
     (case phase of
        Deleting \<Rightarrow> begin_cleanup (self\<lparr>pw_deleting := pw_deleting self - 1\<rparr>)
      | Creating \<Rightarrow> begin_cleanup (self\<lparr>pw_creating := pw_creating self - 1\<rparr>)
      | Complete \<Rightarrow> (None, self))"

definition begin_creation :: "'s prewarm_pool \<Rightarrow> unit result \<times> 's prewarm_pool" where
  "begin_creation self =
     (if \<not> pw_accepting self then (Inl PrewarmPoolClosed, self)
      else if occupied_slots self \<ge> pw_capacity self then (Inl PrewarmPoolClosed, self)
      else (Inr (), self\<lparr>pw_creating := pw_creating self + 1\<rparr>))"

definition take_ready :: "'s prewarm_pool \<Rightarrow> prepared_database option \<times> 's prewarm_pool" where
  "take_ready self =
     (if \<not> pw_accepting self then (None, self)
      else (case pw_ready self of
              [] \<Rightarrow> (None, self)
            | prepared # rest \<Rightarrow> (Some prepared, self\<lparr>pw_ready := rest, pw_leased := pw_leased self + 1\<rparr>)))"

definition begin_return :: "'s prewarm_pool \<Rightarrow> return_phase \<times> 's prewarm_pool" where
  "begin_return self =
     (Deleting, self\<lparr>pw_leased := pw_leased self - 1, pw_deleting := pw_deleting self + 1\<rparr>)"

text \<open>
  The locked part of \<open>finish_creation\<close>; \<open>True\<close> when the database was queued as ready, so that a
  token is added next, \<open>False\<close> when the caller receives it back with a counted deletion.
\<close>

definition finish_creation :: "prepared_database \<Rightarrow> 's prewarm_pool \<Rightarrow> bool \<times> 's prewarm_pool" where
  "finish_creation prepared self =
     (let s1 = self\<lparr>pw_creating := pw_creating self - 1\<rparr>
      in if pw_accepting s1 \<and> \<not> pw_cleanup_started s1
         then (True, s1\<lparr>pw_ready := pw_ready s1 @ [prepared]\<rparr>)
         else (False, s1\<lparr>pw_deleting := pw_deleting s1 + 1\<rparr>))"

definition add_ready_token :: "'s semaphore \<Rightarrow> 's prewarm_pool \<Rightarrow> 's prewarm_pool" where
  "add_ready_token sem self = self\<lparr>pw_ready_admission := sem_add_permits sem 1 (pw_ready_admission self)\<rparr>"

text \<open>\<open>PrewarmReturn::after_drop\<close>: \<open>True\<close> asks for a replacement.\<close>

definition after_drop :: "'s prewarm_pool \<Rightarrow> bool \<times> return_phase \<times> 's prewarm_pool" where
  "after_drop self =
     (let s1 = self\<lparr>pw_deleting := pw_deleting self - 1\<rparr>
      in if pw_accepting s1 \<and> \<not> pw_cleanup_started s1
         then (True, Creating, s1\<lparr>pw_creating := pw_creating s1 + 1\<rparr>)
         else (False, Complete, s1))"

text \<open>\<open>ClosedPrewarmDeletion::finish\<close> and the drop of an active one.\<close>

definition deletion_finish :: "'s prewarm_pool \<Rightarrow> 's prewarm_pool" where
  "deletion_finish self = self\<lparr>pw_deleting := pw_deleting self - 1\<rparr>"

text \<open>The semaphores that \<open>finish_close\<close> closes.\<close>

definition close_semaphores :: "'s semaphore \<Rightarrow> 's prewarm_pool \<Rightarrow> 's prewarm_pool" where
  "close_semaphores sem self =
     self\<lparr>pw_ready_admission := sem_close sem (pw_ready_admission self),
          pw_closed := sem_close sem (pw_closed self)\<rparr>"

section \<open>Interleaving\<close>

text \<open>
  Besides the pool: reserved tokens whose holders have not yet taken a database, ready databases
  whose token has not yet been added, the live guards (creations, returns with their phase, counted
  deletions) and the live leases.
\<close>

record 's prewarm_system =
  px_pool :: "'s prewarm_pool"
  px_holders :: nat
  px_owed :: nat
  px_creations :: nat
  px_returns :: "return_phase list"
  px_deletions :: nat
  px_leases :: nat

definition handed :: "prepared_database list option \<Rightarrow> nat" where
  "handed ready = (case ready of None \<Rightarrow> 0 | Some ds \<Rightarrow> length ds)"

inductive prewarm_step :: "'s semaphore \<Rightarrow> 's prewarm_system \<Rightarrow> 's prewarm_system \<Rightarrow> bool"
  for sem :: "'s semaphore" where
  reserve: "sem_acquire sem 1 (pw_ready_admission (px_pool s)) = Acquired a \<Longrightarrow>
    prewarm_step sem s (s\<lparr>px_pool := (px_pool s)\<lparr>pw_ready_admission := a\<rparr>, px_holders := px_holders s + 1\<rparr>)"
| cancel: "px_holders s = Suc h \<Longrightarrow>
    prewarm_step sem s (s\<lparr>px_pool := add_ready_token sem (px_pool s), px_holders := h\<rparr>)"
| lease: "px_holders s = Suc h \<Longrightarrow> take_ready (px_pool s) = (Some prepared, p) \<Longrightarrow>
    prewarm_step sem s (s\<lparr>px_pool := p, px_holders := h, px_leases := px_leases s + 1\<rparr>)"
| create: "begin_creation (px_pool s) = (Inr (), p) \<Longrightarrow>
    prewarm_step sem s (s\<lparr>px_pool := p, px_creations := px_creations s + 1\<rparr>)"
| publish: "px_creations s = Suc k \<Longrightarrow> finish_creation prepared (px_pool s) = (queued, p) \<Longrightarrow>
    prewarm_step sem s (s\<lparr>px_pool := p, px_creations := k,
      px_owed := px_owed s + (if queued then 1 else 0),
      px_deletions := px_deletions s + (if queued then 0 else 1)\<rparr>)"
| token: "px_owed s = Suc k \<Longrightarrow>
    prewarm_step sem s (s\<lparr>px_pool := add_ready_token sem (px_pool s), px_owed := k\<rparr>)"
| creation_failed: "px_creations s = Suc k \<Longrightarrow>
    fail_and_begin_cleanup Creating (px_pool s) = (ready, p) \<Longrightarrow>
    prewarm_step sem s (s\<lparr>px_pool := p, px_creations := k,
      px_deletions := px_deletions s + handed ready\<rparr>)"
| give_back: "px_leases s = Suc k \<Longrightarrow> begin_return (px_pool s) = (phase, p) \<Longrightarrow>
    prewarm_step sem s (s\<lparr>px_pool := p, px_leases := k, px_returns := phase # px_returns s\<rparr>)"
| database_dropped: "px_returns s = r1 @ Deleting # r2 \<Longrightarrow> after_drop (px_pool s) = (refill, phase, p) \<Longrightarrow>
    prewarm_step sem s (s\<lparr>px_pool := p, px_returns := r1 @ phase # r2\<rparr>)"
| refilled: "px_returns s = r1 @ Creating # r2 \<Longrightarrow> finish_creation prepared (px_pool s) = (queued, p) \<Longrightarrow>
    prewarm_step sem s (s\<lparr>px_pool := p, px_returns := r1 @ Complete # r2,
      px_owed := px_owed s + (if queued then 1 else 0),
      px_deletions := px_deletions s + (if queued then 0 else 1)\<rparr>)"
| return_dropped: "px_returns s = r1 @ phase # r2 \<Longrightarrow>
    fail_and_begin_cleanup phase (px_pool s) = (ready, p) \<Longrightarrow>
    prewarm_step sem s (s\<lparr>px_pool := p, px_returns := r1 @ r2,
      px_deletions := px_deletions s + handed ready\<rparr>)"
| deleted: "px_deletions s = Suc k \<Longrightarrow>
    prewarm_step sem s (s\<lparr>px_pool := deletion_finish (px_pool s), px_deletions := k\<rparr>)"
| close: "begin_cleanup (px_pool s) = (ready, p) \<Longrightarrow>
    prewarm_step sem s (s\<lparr>px_pool := p, px_deletions := px_deletions s + handed ready\<rparr>)"
| shut: "\<not> pw_accepting (px_pool s) \<Longrightarrow>
    prewarm_step sem s (s\<lparr>px_pool := close_semaphores sem (px_pool s)\<rparr>)"

inductive_cases prewarm_stepE: "prewarm_step sem s t"

lemmas prewarm_step_cases = prewarm_stepE [consumes 1, case_names reserve cancel lease create publish
  token creation_failed give_back database_dropped refilled return_dropped deleted close shut]

definition prewarm_start :: "'s semaphore \<Rightarrow> nat \<Rightarrow> 's prewarm_system \<Rightarrow> bool" where
  "prewarm_start sem capacity s \<longleftrightarrow>
     s = \<lparr>px_pool = PrewarmPool_new sem capacity, px_holders = 0, px_owed = 0, px_creations = 0,
          px_returns = [], px_deletions = 0, px_leases = 0\<rparr>"

section \<open>Accounting\<close>

definition in_phase :: "return_phase \<Rightarrow> 's prewarm_system \<Rightarrow> nat" where
  "in_phase phase s = count (mset (px_returns s)) phase"

text \<open>Every counter of the pool is the number of live guards it stands for, within the capacity.\<close>

definition slots_inv :: "nat \<Rightarrow> 's prewarm_system \<Rightarrow> bool" where
  "slots_inv capacity s \<longleftrightarrow>
     pw_capacity (px_pool s) = capacity
   \<and> pw_leased (px_pool s) = px_leases s
   \<and> pw_creating (px_pool s) = px_creations s + in_phase Creating s
   \<and> pw_deleting (px_pool s) = px_deletions s + in_phase Deleting s
   \<and> occupied_slots (px_pool s) \<le> capacity
   \<and> (pw_cleanup_started (px_pool s) \<longleftrightarrow> \<not> pw_accepting (px_pool s))
   \<and> (\<not> pw_accepting (px_pool s) \<longrightarrow> pw_ready (px_pool s) = [])"

definition tokens_inv :: "'s semaphore \<Rightarrow> 's prewarm_system \<Rightarrow> bool" where
  "tokens_inv sem s \<longleftrightarrow>
     (pw_accepting (px_pool s) \<longrightarrow>
        sem_available sem (pw_ready_admission (px_pool s)) + px_holders s + px_owed s
          = length (pw_ready (px_pool s)))"

lemmas pool_ops = begin_cleanup_def fail_and_begin_cleanup_def begin_creation_def take_ready_def
  begin_return_def finish_creation_def add_ready_token_def after_drop_def deletion_finish_def
  close_semaphores_def Let_def

lemma slots_inv_step:
  assumes "slots_inv c s" "prewarm_step sem s t" shows "slots_inv c t"
  using assms(2)
proof (cases rule: prewarm_step_cases)
  case (return_dropped r1 phase r2 ready p)
  with assms(1) show ?thesis
    by (cases phase)
       (auto simp: slots_inv_def occupied_slots_def in_phase_def pool_ops handed_def split: if_splits)
qed (use assms(1) in \<open>auto simp: slots_inv_def occupied_slots_def in_phase_def pool_ops handed_def
      split: if_splits list.splits\<close>)

lemma tokens_inv_step:
  assumes "semaphore_laws sem" "tokens_inv sem s" "slots_inv c s" "prewarm_step sem s t"
  shows "tokens_inv sem t"
  using assms(4)
proof (cases rule: prewarm_step_cases)
  case (reserve a)
  with semaphore_lawsD(3)[OF assms(1) reserve(2)] assms(2) show ?thesis by (auto simp: tokens_inv_def)
next
  case (return_dropped r1 phase r2 ready p)
  with assms(2) show ?thesis
    by (cases phase) (auto simp: tokens_inv_def pool_ops split: if_splits)
qed (use assms in \<open>auto simp: tokens_inv_def slots_inv_def pool_ops semaphore_lawsD split: if_splits list.splits\<close>)

definition prewarm_inv :: "'s semaphore \<Rightarrow> nat \<Rightarrow> 's prewarm_system \<Rightarrow> bool" where
  "prewarm_inv sem capacity s \<longleftrightarrow> slots_inv capacity s \<and> (semaphore_laws sem \<longrightarrow> tokens_inv sem s)"

interpretation prewarm_sys: invariant_system "prewarm_start sem capacity" "prewarm_step sem" "prewarm_inv sem capacity"
  for sem :: "'s semaphore" and capacity
proof
  fix s :: "'s prewarm_system"
  assume "prewarm_start sem capacity s"
  then show "prewarm_inv sem capacity s"
    by (auto simp: prewarm_start_def prewarm_inv_def slots_inv_def tokens_inv_def PrewarmPool_new_def
        occupied_slots_def in_phase_def semaphore_lawsD)
next
  fix s t :: "'s prewarm_system"
  assume "prewarm_inv sem capacity s" and step: "prewarm_step sem s t"
  then show "prewarm_inv sem capacity t"
    using slots_inv_step[OF _ step] tokens_inv_step[OF _ _ _ step] by (auto simp: prewarm_inv_def)
qed

abbreviation prewarm_reachable :: "'s semaphore \<Rightarrow> nat \<Rightarrow> 's prewarm_system \<Rightarrow> bool" where
  "prewarm_reachable sem capacity \<equiv> reachable (prewarm_start sem capacity) (prewarm_step sem)"

section \<open>Properties\<close>

definition demo_prepared :: prepared_database where
  "demo_prepared = \<lparr>pd_name = \<lparr>db_value = ''x'', db_kind = Test\<rparr>, pd_database_url = ''url''\<rparr>"

text \<open>A pool of two with one ready database and a caller that holds its token.\<close>

definition demo_prewarm :: "(nat \<times> bool) prewarm_system" where
  "demo_prewarm =
     \<lparr>px_pool = (PrewarmPool_new counting_semaphore 2)\<lparr>pw_ready := [demo_prepared]\<rparr>,
      px_holders = 1, px_owed = 0, px_creations = 0, px_returns = [], px_deletions = 0, px_leases = 0\<rparr>"

lemma demo_prewarm_reachable: "prewarm_reachable counting_semaphore 2 demo_prewarm"
proof -
  let ?s0 = "\<lparr>px_pool = PrewarmPool_new counting_semaphore 2, px_holders = 0, px_owed = 0, px_creations = 0,
      px_returns = [], px_deletions = 0, px_leases = 0\<rparr>"
  let ?s1 = "?s0\<lparr>px_pool := (PrewarmPool_new counting_semaphore 2)\<lparr>pw_creating := 1\<rparr>, px_creations := 1\<rparr>"
  let ?s2 = "?s0\<lparr>px_pool := px_pool demo_prewarm, px_owed := 1\<rparr>"
  let ?s3 = "?s0\<lparr>px_pool := (px_pool demo_prewarm)\<lparr>pw_ready_admission := (1, False)\<rparr>\<rparr>"
  note defs = PrewarmPool_new_def counting_semaphore_def pool_ops occupied_slots_def demo_prewarm_def
  have by_step: "prewarm_reachable sem c s \<Longrightarrow> prewarm_step sem s t \<Longrightarrow> t = u \<Longrightarrow> prewarm_reachable sem c u"
    for sem :: "(nat \<times> bool) semaphore" and c s t u by (simp add: reachable_step)
  have r0: "prewarm_reachable counting_semaphore 2 ?s0" by (rule reachable_init) (simp add: prewarm_start_def)
  have r1: "prewarm_reachable counting_semaphore 2 ?s1"
    by (rule by_step[OF r0], rule prewarm_step.create) (simp_all add: defs)
  have r2: "prewarm_reachable counting_semaphore 2 ?s2"
    by (rule by_step[OF r1], rule prewarm_step.publish[where k = 0 and prepared = demo_prepared and queued = True])
       (simp_all add: defs)
  have r3: "prewarm_reachable counting_semaphore 2 ?s3"
    by (rule by_step[OF r2], rule prewarm_step.token[where k = 0]) (simp_all add: defs)
  show ?thesis
    by (rule by_step[OF r3], rule prewarm_step.reserve[where a = "(0, False)"]) (simp_all add: defs)
qed

text \<open>C26: In every interleaving of creations, leases, returns, failures, deletions and closing, each counter
  of a prewarm pool equals the number of live guards it stands for (so no saturating decrement ever
  loses a slot), the occupied slots never exceed the capacity, and a closed pool has handed all its
  idle databases to deletion.\<close>

theorem prewarm_slots_accounted:
  assumes "prewarm_reachable sem capacity s"
  shows "pw_leased (px_pool s) = px_leases s
     \<and> pw_creating (px_pool s) = px_creations s + in_phase Creating s
     \<and> pw_deleting (px_pool s) = px_deletions s + in_phase Deleting s
     \<and> occupied_slots (px_pool s) \<le> capacity
     \<and> (st_closed (pool_status (px_pool s)) \<longrightarrow> pw_ready (px_pool s) = [])"
  using prewarm_sys.reachable_inv[OF assms] by (simp add: prewarm_inv_def slots_inv_def pool_status_def)

theorem prewarm_slots_accounted_witness:
  "pw_leased (px_pool demo_prewarm) = 0 \<and> occupied_slots (px_pool demo_prewarm) \<le> 2"
  using prewarm_slots_accounted[OF demo_prewarm_reachable] by (simp add: demo_prewarm_def)

text \<open>A ready token is worth a database: as long as the pool accepts callers, whoever holds a token
  finds a ready database, so leasing fails with the closed error only after the pool was closed.\<close>

lemma ready_token_yields_database:
  assumes "semaphore_laws sem" "prewarm_reachable sem capacity s"
    and "0 < px_holders s" "pw_accepting (px_pool s)"
  shows "\<exists>prepared p. take_ready (px_pool s) = (Some prepared, p) \<and> prepared \<in> set (pw_ready (px_pool s))
     \<and> pw_leased p = pw_leased (px_pool s) + 1"
proof -
  have "sem_available sem (pw_ready_admission (px_pool s)) + px_holders s + px_owed s = length (pw_ready (px_pool s))"
    using prewarm_sys.reachable_inv[OF assms(2)] assms by (simp add: prewarm_inv_def tokens_inv_def)
  with assms(3) have "length (pw_ready (px_pool s)) > 0" by linarith
  then obtain d ds where "pw_ready (px_pool s) = d # ds" by (cases "pw_ready (px_pool s)") auto
  with assms(4) show ?thesis by (simp add: take_ready_def)
qed

end
