(* ===== verification/Template_Cache.thy ===== *)
theory Template_Cache
  imports Fingerprint
begin

text \<open>
  The process-local template cache (\<open>TemplateCache\<close>, \<open>TemplateFlight\<close>, \<open>TemplateCacheInitializer\<close>
  and \<open>TemplateCacheWaiter\<close> of \<open>src/server.rs\<close>). A flight and a template are objects behind \<open>Arc\<close>;
  they are represented by addresses in two stores. \<open>ca_alive\<close> is the set of templates with a strong
  reference outside the cache: a \<open>Weak\<close> upgrades exactly for those. Everything that runs under the
  cache mutex is one function; the callers interleave between them.
\<close>

section \<open>State\<close>

record flight =
  fl_completed :: bool
  fl_template :: "nat option"

datatype cache_entry = Initializing_entry nat | Ready_entry nat

record cache =
  ca_entries :: "(template_fingerprint \<times> cache_entry) list"
  ca_flights :: "flight list"
  ca_alive :: "nat list"

text \<open>Guards that callers hold.\<close>

record initializer =
  in_fingerprint :: template_fingerprint
  in_flight :: nat
  in_active :: bool

datatype cache_action =
    Act_ready nat
  | Act_initialize initializer
  | Act_wait nat

definition new_cache :: cache where
  "new_cache = \<lparr>ca_entries = [], ca_flights = [], ca_alive = []\<rparr>"

definition upgrade :: "cache \<Rightarrow> nat \<Rightarrow> nat option" where
  "upgrade c t = (if t \<in> set (ca_alive c) then Some t else None)"

definition prune_expired_ready_entries :: "cache \<Rightarrow> cache" where
  "prune_expired_ready_entries c =
     c\<lparr>ca_entries := filter (\<lambda>(_, e). \<not> (case e of Ready_entry t \<Rightarrow> t \<notin> set (ca_alive c) | _ \<Rightarrow> False))
        (ca_entries c)\<rparr>"

definition insert_entry :: "template_fingerprint \<Rightarrow> cache_entry \<Rightarrow> cache \<Rightarrow> cache" where
  "insert_entry f e c = c\<lparr>ca_entries := (f, e) # filter (\<lambda>(g, _). g \<noteq> f) (ca_entries c)\<rparr>"

definition remove_entry :: "template_fingerprint \<Rightarrow> cache \<Rightarrow> cache" where
  "remove_entry f c = c\<lparr>ca_entries := filter (\<lambda>(g, _). g \<noteq> f) (ca_entries c)\<rparr>"

definition TemplateFlight_new :: flight where
  "TemplateFlight_new = \<lparr>fl_completed = False, fl_template = None\<rparr>"

section \<open>Operations\<close>

definition cold_acquisition :: "template_fingerprint \<Rightarrow> cache \<Rightarrow> cache_action \<times> cache" where
  "cold_acquisition f c =
     (let c1 = prune_expired_ready_entries c;
          fl = length (ca_flights c1);
          c2 = c1\<lparr>ca_flights := ca_flights c1 @ [TemplateFlight_new]\<rparr>
      in (Act_initialize \<lparr>in_fingerprint = f, in_flight = fl, in_active = True\<rparr>,
          insert_entry f (Initializing_entry fl) c2))"

definition template_cache_action :: "template_fingerprint \<Rightarrow> cache \<Rightarrow> cache_action \<times> cache" where
  "template_cache_action f c =
     (case map_of (ca_entries c) f of
        Some (Ready_entry t) \<Rightarrow>
          (case upgrade c t of
             Some t \<Rightarrow> (Act_ready t, c)
           | None \<Rightarrow> cold_acquisition f c)
      | Some (Initializing_entry fl) \<Rightarrow> (Act_wait fl, c)
      | None \<Rightarrow> cold_acquisition f c)"

definition owns_entry :: "initializer \<Rightarrow> cache \<Rightarrow> bool" where
  "owns_entry self c \<longleftrightarrow> map_of (ca_entries c) (in_fingerprint self) = Some (Initializing_entry (in_flight self))"

definition flight_publish :: "nat \<Rightarrow> nat \<Rightarrow> cache \<Rightarrow> cache" where
  "flight_publish fl t c =
     c\<lparr>ca_flights := (ca_flights c)[fl := ((ca_flights c) ! fl)\<lparr>fl_template := Some t\<rparr>]\<rparr>"

definition flight_complete :: "nat \<Rightarrow> cache \<Rightarrow> cache" where
  "flight_complete fl c =
     c\<lparr>ca_flights := (ca_flights c)[fl := ((ca_flights c) ! fl)\<lparr>fl_completed := True\<rparr>]\<rparr>"

text \<open>
  \<open>publish\<close> and \<open>drop\<close> of an initializer: first the section under the mutex, then the wake-up of
  the waiters outside it. The caller of \<open>publish\<close> holds the new template, so it is alive.
\<close>

definition publish_locked :: "initializer \<Rightarrow> nat \<Rightarrow> cache \<Rightarrow> cache" where
  "publish_locked self t c =
     (if owns_entry self c
      then insert_entry (in_fingerprint self) (Ready_entry t) (flight_publish (in_flight self) t c) else c)"

definition initializer_publish :: "initializer \<Rightarrow> nat \<Rightarrow> cache \<Rightarrow> nat \<times> cache" where
  "initializer_publish self t c = (t, flight_complete (in_flight self) (publish_locked self t c))"

definition drop_locked :: "initializer \<Rightarrow> cache \<Rightarrow> cache" where
  "drop_locked self c = (if owns_entry self c then remove_entry (in_fingerprint self) c else c)"

definition initializer_drop :: "initializer \<Rightarrow> cache \<Rightarrow> cache" where
  "initializer_drop self c =
     (if \<not> in_active self then c else flight_complete (in_flight self) (drop_locked self c))"

text \<open>\<open>wait\<close> of a registered waiter; the outer \<open>None\<close> is a waiter that is still pending.\<close>

definition waiter_wait :: "nat \<Rightarrow> cache \<Rightarrow> nat option option" where
  "waiter_wait fl c =
     (if fl_completed (ca_flights c ! fl) then Some (fl_template (ca_flights c ! fl)) else None)"

section \<open>Interleaving\<close>

text \<open>
  \<open>tc_active\<close> are the live initializers, \<open>tc_waking\<close> the flights whose owner has left the mutex
  but has not completed them yet, \<open>tc_waiters\<close> the registered waiters with the fingerprint they asked
  for. \<open>tc_published\<close> is a history of the templates installed so far; a new template is a new object.
  A template expires when its last strong reference goes; a waiter's flight keeps what it publishes.
\<close>

record cache_system =
  tc_cache :: cache
  tc_active :: "initializer list"
  tc_waking :: "nat list"
  tc_waiters :: "(template_fingerprint \<times> nat) list"
  tc_published :: "(nat \<times> template_fingerprint) list"

inductive cache_step :: "cache_system \<Rightarrow> cache_system \<Rightarrow> bool" where
  hit: "template_cache_action f (tc_cache s) = (Act_ready t, c) \<Longrightarrow> cache_step s (s\<lparr>tc_cache := c\<rparr>)"
| join: "template_cache_action f (tc_cache s) = (Act_wait fl, c) \<Longrightarrow>
    cache_step s (s\<lparr>tc_cache := c, tc_waiters := (f, fl) # tc_waiters s\<rparr>)"
| start: "template_cache_action f (tc_cache s) = (Act_initialize i, c) \<Longrightarrow>
    cache_step s (s\<lparr>tc_cache := c, tc_active := i # tc_active s\<rparr>)"
| install: "tc_active s = a1 @ i # a2 \<Longrightarrow> t \<notin> fst ` set (tc_published s) \<Longrightarrow>
    cache_step s (s\<lparr>tc_cache := publish_locked i t ((tc_cache s)\<lparr>ca_alive := t # ca_alive (tc_cache s)\<rparr>),
      tc_active := a1 @ a2, tc_waking := in_flight i # tc_waking s,
      tc_published := (t, in_fingerprint i) # tc_published s\<rparr>)"
| abandon: "tc_active s = a1 @ i # a2 \<Longrightarrow>
    cache_step s (s\<lparr>tc_cache := drop_locked i (tc_cache s), tc_active := a1 @ a2,
      tc_waking := in_flight i # tc_waking s\<rparr>)"
| wake: "tc_waking s = w1 @ fl # w2 \<Longrightarrow>
    cache_step s (s\<lparr>tc_cache := flight_complete fl (tc_cache s), tc_waking := w1 @ w2\<rparr>)"
| resume: "tc_waiters s = w1 @ (f, fl) # w2 \<Longrightarrow> waiter_wait fl (tc_cache s) = Some r \<Longrightarrow>
    cache_step s (s\<lparr>tc_waiters := w1 @ w2\<rparr>)"
| expire: "(\<And>f fl t. (f, fl) \<in> set (tc_waiters s) \<Longrightarrow> fl_template (ca_flights (tc_cache s) ! fl) = Some t \<Longrightarrow> P t) \<Longrightarrow>
    cache_step s (s\<lparr>tc_cache := (tc_cache s)\<lparr>ca_alive := filter P (ca_alive (tc_cache s))\<rparr>\<rparr>)"

inductive_cases cache_stepE: "cache_step s t"

lemmas cache_step_cases = cache_stepE [consumes 1, case_names hit join start install abandon wake resume expire]

definition cache_start :: "cache_system \<Rightarrow> bool" where
  "cache_start s \<longleftrightarrow>
     s = \<lparr>tc_cache = new_cache, tc_active = [], tc_waking = [], tc_waiters = [], tc_published = []\<rparr>"

section \<open>Single flight\<close>

text \<open>
  The invariant has two halves. Flights: entries under initialization and live initializers
  correspond one to one, and a flight that is not completed has its initializer or its wake-up
  still ahead. Templates: a published template that is alive is the one the cache holds for
  its fingerprint, and a waiter's flight publishes only such a template.
\<close>

definition flights_ok :: "cache_system \<Rightarrow> bool" where
  "flights_ok s \<longleftrightarrow>
     distinct (map fst (ca_entries (tc_cache s)))
   \<and> distinct (map in_flight (tc_active s))
   \<and> (\<forall>f fl. map_of (ca_entries (tc_cache s)) f = Some (Initializing_entry fl) \<longleftrightarrow>
        (\<exists>i \<in> set (tc_active s). in_fingerprint i = f \<and> in_flight i = fl))
   \<and> (\<forall>i \<in> set (tc_active s). in_active i \<and> in_flight i < length (ca_flights (tc_cache s))
        \<and> fl_template (ca_flights (tc_cache s) ! in_flight i) = None)
   \<and> (\<forall>fl < length (ca_flights (tc_cache s)). fl_completed (ca_flights (tc_cache s) ! fl)
        \<or> fl \<in> in_flight ` set (tc_active s) \<or> fl \<in> set (tc_waking s))
   \<and> (\<forall>fl \<in> set (tc_waking s). fl < length (ca_flights (tc_cache s)))
   \<and> (\<forall>f fl. (f, fl) \<in> set (tc_waiters s) \<longrightarrow> fl < length (ca_flights (tc_cache s)))"

definition templates_ok :: "cache_system \<Rightarrow> bool" where
  "templates_ok s \<longleftrightarrow>
     distinct (map fst (tc_published s))
   \<and> set (ca_alive (tc_cache s)) \<subseteq> fst ` set (tc_published s)
   \<and> (\<forall>t f. (t, f) \<in> set (tc_published s) \<longrightarrow> t \<in> set (ca_alive (tc_cache s)) \<longrightarrow>
        map_of (ca_entries (tc_cache s)) f = Some (Ready_entry t))
   \<and> (\<forall>t f. map_of (ca_entries (tc_cache s)) f = Some (Ready_entry t) \<longrightarrow> (t, f) \<in> set (tc_published s))
   \<and> (\<forall>f fl i. (f, fl) \<in> set (tc_waiters s) \<longrightarrow> i \<in> set (tc_active s) \<longrightarrow> in_flight i = fl \<longrightarrow>
        in_fingerprint i = f)
   \<and> (\<forall>f fl t. (f, fl) \<in> set (tc_waiters s) \<longrightarrow> fl_template (ca_flights (tc_cache s) ! fl) = Some t \<longrightarrow>
        (t, f) \<in> set (tc_published s) \<and> t \<in> set (ca_alive (tc_cache s)))"

definition cache_inv :: "cache_system \<Rightarrow> bool" where
  "cache_inv s \<longleftrightarrow> flights_ok s \<and> templates_ok s"

subsection \<open>Lookups after each operation\<close>

declare map_of_eq_Some_iff [simp del]

lemma map_of_without: "map_of (filter (\<lambda>(g, _). g \<noteq> f) xs) g = (if g = f then None else map_of xs g)"
  by (induction xs) auto

lemma distinct_without: "distinct (map fst xs) \<Longrightarrow> distinct (map fst (filter P xs))"
  by (induction xs) auto

lemma without_not_key: "f \<notin> fst ` set (filter (\<lambda>(g, _). g \<noteq> f) xs)"
  by auto

lemma map_of_filter_value:
  "distinct (map fst xs) \<Longrightarrow>
     map_of (filter (\<lambda>(_, e). P e) xs) g =
       (case map_of xs g of Some e \<Rightarrow> if P e then Some e else None | None \<Rightarrow> None)"
  by (induction xs) (auto split: option.splits simp: map_of_eq_None_iff dest: map_of_SomeD)

definition expired_entry :: "cache \<Rightarrow> cache_entry \<Rightarrow> bool" where
  "expired_entry c e \<longleftrightarrow> (case e of Ready_entry t \<Rightarrow> t \<notin> set (ca_alive c) | _ \<Rightarrow> False)"

lemma map_of_prune:
  assumes "distinct (map fst (ca_entries c))"
  shows "map_of (ca_entries (prune_expired_ready_entries c)) g =
     (case map_of (ca_entries c) g of Some e \<Rightarrow> if expired_entry c e then None else Some e | None \<Rightarrow> None)"
  using map_of_filter_value[OF assms, of "\<lambda>e. \<not> expired_entry c e" g]
  by (simp add: prune_expired_ready_entries_def expired_entry_def cong: if_cong split: option.splits)

lemma prune_rest [simp]:
  "ca_flights (prune_expired_ready_entries c) = ca_flights c"
  "ca_alive (prune_expired_ready_entries c) = ca_alive c"
  by (simp_all add: prune_expired_ready_entries_def)

lemma insert_entry_simps [simp]:
  "map_of (ca_entries (insert_entry f e c)) g = (if g = f then Some e else map_of (ca_entries c) g)"
  "ca_flights (insert_entry f e c) = ca_flights c"
  "ca_alive (insert_entry f e c) = ca_alive c"
  by (simp_all add: insert_entry_def map_of_without)

lemma insert_entry_distinct:
  "distinct (map fst (ca_entries c)) \<Longrightarrow> distinct (map fst (ca_entries (insert_entry f e c)))"
  using without_not_key[of f "ca_entries c"] by (simp add: insert_entry_def distinct_without)

lemma remove_entry_simps [simp]:
  "map_of (ca_entries (remove_entry f c)) g = (if g = f then None else map_of (ca_entries c) g)"
  "ca_flights (remove_entry f c) = ca_flights c"
  "ca_alive (remove_entry f c) = ca_alive c"
  "distinct (map fst (ca_entries c)) \<Longrightarrow> distinct (map fst (ca_entries (remove_entry f c)))"
  by (simp_all add: remove_entry_def map_of_without distinct_without)

lemma flight_simps [simp]:
  "ca_entries (flight_publish fl t c) = ca_entries c" "ca_alive (flight_publish fl t c) = ca_alive c"
  "length (ca_flights (flight_publish fl t c)) = length (ca_flights c)"
  "ca_entries (flight_complete fl c) = ca_entries c" "ca_alive (flight_complete fl c) = ca_alive c"
  "length (ca_flights (flight_complete fl c)) = length (ca_flights c)"
  by (simp_all add: flight_publish_def flight_complete_def)

lemma flight_publish_nth:
  "fl < length (ca_flights c) \<Longrightarrow> ca_flights (flight_publish fl t c) ! k =
     (if k = fl then (ca_flights c ! fl)\<lparr>fl_template := Some t\<rparr> else ca_flights c ! k)"
  by (simp add: flight_publish_def nth_list_update)

lemma flight_complete_nth:
  "fl < length (ca_flights c) \<Longrightarrow> ca_flights (flight_complete fl c) ! k =
     (if k = fl then (ca_flights c ! fl)\<lparr>fl_completed := True\<rparr> else ca_flights c ! k)"
  by (simp add: flight_complete_def nth_list_update)

subsection \<open>What an acquisition returns\<close>

lemma action_ready:
  "template_cache_action f c = (Act_ready t, c') \<longleftrightarrow>
     c' = c \<and> map_of (ca_entries c) f = Some (Ready_entry t) \<and> t \<in> set (ca_alive c)"
  by (auto simp: template_cache_action_def cold_acquisition_def upgrade_def Let_def
      split: option.splits cache_entry.splits if_splits)

lemma action_wait:
  "template_cache_action f c = (Act_wait fl, c') \<longleftrightarrow>
     c' = c \<and> map_of (ca_entries c) f = Some (Initializing_entry fl)"
  by (auto simp: template_cache_action_def cold_acquisition_def upgrade_def Let_def
      split: option.splits cache_entry.splits if_splits)

lemma action_initialize:
  assumes "template_cache_action f c = (Act_initialize i, c')"
  shows "case map_of (ca_entries c) f of None \<Rightarrow> True | Some e \<Rightarrow> expired_entry c e"
    and "i = \<lparr>in_fingerprint = f, in_flight = length (ca_flights c), in_active = True\<rparr>"
    and "c' = insert_entry f (Initializing_entry (length (ca_flights c)))
           ((prune_expired_ready_entries c)\<lparr>ca_flights := ca_flights c @ [TemplateFlight_new]\<rparr>)"
  using assms
  by (auto simp: template_cache_action_def cold_acquisition_def upgrade_def Let_def expired_entry_def
      split: option.splits cache_entry.splits if_splits)

subsection \<open>Preservation\<close>

lemma flights_okD:
  assumes "flights_ok s"
  shows "distinct (map fst (ca_entries (tc_cache s)))"
    and "distinct (map in_flight (tc_active s))"
    and "map_of (ca_entries (tc_cache s)) f = Some (Initializing_entry fl) \<longleftrightarrow>
        (\<exists>i \<in> set (tc_active s). in_fingerprint i = f \<and> in_flight i = fl)"
    and "i \<in> set (tc_active s) \<Longrightarrow> in_active i \<and> in_flight i < length (ca_flights (tc_cache s))
        \<and> fl_template (ca_flights (tc_cache s) ! in_flight i) = None"
    and "fl < length (ca_flights (tc_cache s)) \<Longrightarrow> fl_completed (ca_flights (tc_cache s) ! fl)
        \<or> fl \<in> in_flight ` set (tc_active s) \<or> fl \<in> set (tc_waking s)"
    and "fl \<in> set (tc_waking s) \<Longrightarrow> fl < length (ca_flights (tc_cache s))"
    and "(f, fl) \<in> set (tc_waiters s) \<Longrightarrow> fl < length (ca_flights (tc_cache s))"
  by (insert assms, unfold flights_ok_def, blast+)

lemma flights_okI:
  assumes "distinct (map fst (ca_entries (tc_cache s)))"
    and "distinct (map in_flight (tc_active s))"
    and "\<And>f fl. map_of (ca_entries (tc_cache s)) f = Some (Initializing_entry fl) \<longleftrightarrow>
        (\<exists>i \<in> set (tc_active s). in_fingerprint i = f \<and> in_flight i = fl)"
    and "\<And>i. i \<in> set (tc_active s) \<Longrightarrow> in_active i \<and> in_flight i < length (ca_flights (tc_cache s))
        \<and> fl_template (ca_flights (tc_cache s) ! in_flight i) = None"
    and "\<And>fl. fl < length (ca_flights (tc_cache s)) \<Longrightarrow> fl_completed (ca_flights (tc_cache s) ! fl)
        \<or> fl \<in> in_flight ` set (tc_active s) \<or> fl \<in> set (tc_waking s)"
    and "\<And>fl. fl \<in> set (tc_waking s) \<Longrightarrow> fl < length (ca_flights (tc_cache s))"
    and "\<And>f fl. (f, fl) \<in> set (tc_waiters s) \<Longrightarrow> fl < length (ca_flights (tc_cache s))"
  shows "flights_ok s"
  by (unfold flights_ok_def) (use assms in blast)

lemma templates_okI:
  assumes "distinct (map fst (tc_published s))"
    and "\<And>t. t \<in> set (ca_alive (tc_cache s)) \<Longrightarrow> t \<in> fst ` set (tc_published s)"
    and "\<And>t f. (t, f) \<in> set (tc_published s) \<Longrightarrow> t \<in> set (ca_alive (tc_cache s)) \<Longrightarrow>
        map_of (ca_entries (tc_cache s)) f = Some (Ready_entry t)"
    and "\<And>t f. map_of (ca_entries (tc_cache s)) f = Some (Ready_entry t) \<Longrightarrow> (t, f) \<in> set (tc_published s)"
    and "\<And>f fl i. (f, fl) \<in> set (tc_waiters s) \<Longrightarrow> i \<in> set (tc_active s) \<Longrightarrow> in_flight i = fl \<Longrightarrow>
        in_fingerprint i = f"
    and "\<And>f fl t. (f, fl) \<in> set (tc_waiters s) \<Longrightarrow> fl_template (ca_flights (tc_cache s) ! fl) = Some t \<Longrightarrow>
        (t, f) \<in> set (tc_published s) \<and> t \<in> set (ca_alive (tc_cache s))"
  shows "templates_ok s"
  by (unfold templates_ok_def) (use assms in blast)

lemma templates_okD:
  assumes "templates_ok s"
  shows "distinct (map fst (tc_published s))"
    and "t \<in> set (ca_alive (tc_cache s)) \<Longrightarrow> t \<in> fst ` set (tc_published s)"
    and "(t, f) \<in> set (tc_published s) \<Longrightarrow> t \<in> set (ca_alive (tc_cache s)) \<Longrightarrow>
        map_of (ca_entries (tc_cache s)) f = Some (Ready_entry t)"
    and "map_of (ca_entries (tc_cache s)) f = Some (Ready_entry t) \<Longrightarrow> (t, f) \<in> set (tc_published s)"
    and "(f, fl) \<in> set (tc_waiters s) \<Longrightarrow> i \<in> set (tc_active s) \<Longrightarrow> in_flight i = fl \<Longrightarrow> in_fingerprint i = f"
    and "(f, fl) \<in> set (tc_waiters s) \<Longrightarrow> fl_template (ca_flights (tc_cache s) ! fl) = Some t \<Longrightarrow>
        (t, f) \<in> set (tc_published s) \<and> t \<in> set (ca_alive (tc_cache s))"
  by (insert assms, unfold templates_ok_def, blast+)

lemma active_owns_entry:
  assumes "flights_ok s" "i \<in> set (tc_active s)"
  shows "map_of (ca_entries (tc_cache s)) (in_fingerprint i) = Some (Initializing_entry (in_flight i))"
  using assms by (auto simp: flights_okD(3))

lemma active_unique:
  assumes "flights_ok s" "i \<in> set (tc_active s)" "j \<in> set (tc_active s)"
    and "in_fingerprint i = in_fingerprint j \<or> in_flight i = in_flight j"
  shows "i = j"
proof -
  have "in_flight i = in_flight j"
    using assms(4) active_owns_entry[OF assms(1,2)] active_owns_entry[OF assms(1,3)] by auto
  then show ?thesis using flights_okD(2)[OF assms(1)] assms(2,3) by (simp add: distinct_map inj_on_def)
qed

lemma active_split:
  assumes "flights_ok s" "tc_active s = a1 @ i # a2" "j \<in> set a1 \<union> set a2"
  shows "in_fingerprint j \<noteq> in_fingerprint i \<and> in_flight j \<noteq> in_flight i"
proof -
  have "i \<notin> set a1 \<union> set a2" using flights_okD(2)[OF assms(1)] assms(2) by auto
  then show ?thesis using active_unique[OF assms(1), of j i] assms(2,3) by auto
qed

lemma publish_locked_owner:
  assumes "map_of (ca_entries c) (in_fingerprint i) = Some (Initializing_entry (in_flight i))"
  shows "publish_locked i t (c\<lparr>ca_alive := as\<rparr>) =
    insert_entry (in_fingerprint i) (Ready_entry t) (flight_publish (in_flight i) t (c\<lparr>ca_alive := as\<rparr>))"
  using assms by (simp add: publish_locked_def owns_entry_def)

lemma prune_distinct:
  "distinct (map fst (ca_entries c)) \<Longrightarrow> distinct (map fst (ca_entries (prune_expired_ready_entries c)))"
  by (simp add: prune_expired_ready_entries_def distinct_without)

lemma prune_initializing:
  "distinct (map fst (ca_entries c)) \<Longrightarrow>
   map_of (ca_entries (prune_expired_ready_entries c)) g = Some (Initializing_entry fl) \<longleftrightarrow>
   map_of (ca_entries c) g = Some (Initializing_entry fl)"
  by (auto simp: map_of_prune expired_entry_def split: option.splits cache_entry.splits)

lemma prune_ready:
  "distinct (map fst (ca_entries c)) \<Longrightarrow>
   map_of (ca_entries (prune_expired_ready_entries c)) g = Some (Ready_entry t) \<longleftrightarrow>
   map_of (ca_entries c) g = Some (Ready_entry t) \<and> t \<in> set (ca_alive c)"
  by (auto simp: map_of_prune expired_entry_def split: option.splits cache_entry.splits)

text \<open>The field equations of the state after a step, as the rules below take them.\<close>

definition cache_fields ::
    "cache_system \<Rightarrow> cache \<Rightarrow> initializer list \<Rightarrow> nat list \<Rightarrow> (template_fingerprint \<times> nat) list \<Rightarrow>
     (nat \<times> template_fingerprint) list \<Rightarrow> bool" where
  "cache_fields s c a wk ws pb \<longleftrightarrow>
     tc_cache s = c \<and> tc_active s = a \<and> tc_waking s = wk \<and> tc_waiters s = ws \<and> tc_published s = pb"

lemma cache_fieldsD:
  assumes "cache_fields s c a wk ws pb"
  shows "tc_cache s = c" "tc_active s = a" "tc_waking s = wk" "tc_waiters s = ws" "tc_published s = pb"
  using assms by (simp_all add: cache_fields_def)

lemma start_flights:
  assumes f: "flights_ok s" and act: "template_cache_action f (tc_cache s) = (Act_initialize i, c)"
    and u: "cache_fields u c (i # tc_active s) (tc_waking s) (tc_waiters s) (tc_published s)"
  shows "flights_ok u"
proof -
  note a = action_initialize[OF act]
  note d = flights_okD(1)[OF f]
  have none: "in_fingerprint j \<noteq> f" if "j \<in> set (tc_active s)" for j
    using active_owns_entry[OF f that] a(1) by (auto simp: expired_entry_def)
  have below: "in_flight j < length (ca_flights (tc_cache s))" if "j \<in> set (tc_active s)" for j
    using flights_okD(4)[OF f that] by simp
  have entries: "map_of (ca_entries c) g = Some (Initializing_entry fl) \<longleftrightarrow>
      (\<exists>j \<in> set (i # tc_active s). in_fingerprint j = g \<and> in_flight j = fl)" for g fl
    using none by (auto simp: a(2,3) prune_initializing[OF d] flights_okD(3)[OF f])
  have flights: "ca_flights c = ca_flights (tc_cache s) @ [TemplateFlight_new]" by (simp add: a(3))
  have "distinct (map in_flight (i # tc_active s))"
    using flights_okD(2)[OF f] below by (force simp: a(2))
  moreover have "distinct (map fst (ca_entries c))" by (simp add: a(3) insert_entry_distinct prune_distinct d)
  moreover have "\<forall>j \<in> set (i # tc_active s). in_active j \<and> in_flight j < length (ca_flights c)
        \<and> fl_template (ca_flights c ! in_flight j) = None"
    using flights_okD(4)[OF f] by (auto simp: flights nth_append a(2) TemplateFlight_new_def less_SucI)
  moreover have "fl_completed (ca_flights c ! fl) \<or> fl \<in> in_flight ` set (i # tc_active s) \<or> fl \<in> set (tc_waking s)"
    if "fl < length (ca_flights c)" for fl
    using that flights_okD(5)[OF f, of fl] by (auto simp: flights nth_append a(2) less_Suc_eq)
  moreover have "fl < length (ca_flights c)" if "fl \<in> set (tc_waking s) \<or> (g, fl) \<in> set (tc_waiters s)" for g fl
    using that flights_okD(6)[OF f, of fl] flights_okD(7)[OF f, of g fl] by (auto simp: flights less_SucI)
  moreover note entries
  ultimately show ?thesis by - (rule flights_okI; unfold cache_fieldsD[OF u]; blast)
qed

lemma start_templates:
  assumes f: "flights_ok s" and tm: "templates_ok s"
    and act: "template_cache_action f (tc_cache s) = (Act_initialize i, c)"
    and u: "cache_fields u c (i # tc_active s) (tc_waking s) (tc_waiters s) (tc_published s)"
  shows "templates_ok u"
proof -
  note a = action_initialize[OF act]
  note d = flights_okD(1)[OF f]
  have alive: "ca_alive c = ca_alive (tc_cache s)" by (simp add: a(3))
  have dead: "t \<notin> set (ca_alive (tc_cache s))" if "(t, f) \<in> set (tc_published s)" for t
    using templates_okD(3)[OF tm that] a(1) by (auto simp: expired_entry_def)
  have "map_of (ca_entries c) g = Some (Ready_entry t)"
    if "(t, g) \<in> set (tc_published s)" "t \<in> set (ca_alive (tc_cache s))" for t g
    using dead[of t] that templates_okD(3)[OF tm that] by (auto simp: a(3) prune_ready[OF d])
  moreover have "(t, g) \<in> set (tc_published s)" if "map_of (ca_entries c) g = Some (Ready_entry t)" for t g
    using that templates_okD(4)[OF tm] by (auto simp: a(3) prune_ready[OF d] split: if_splits)
  moreover have "in_fingerprint j = g"
    if "(g, fl) \<in> set (tc_waiters s)" "j \<in> set (i # tc_active s)" "in_flight j = fl" for g fl j
    using flights_okD(7)[OF f that(1)] templates_okD(5)[OF tm that(1)] that(2,3) by (auto simp: a(2))
  moreover have "(t, g) \<in> set (tc_published s) \<and> t \<in> set (ca_alive (tc_cache s))"
    if "(g, fl) \<in> set (tc_waiters s)" "fl_template (ca_flights c ! fl) = Some t" for g fl t
    using flights_okD(7)[OF f that(1)] templates_okD(6)[OF tm that(1)] that(2) by (auto simp: a(3) nth_append)
  moreover note templates_okD(1,2)[OF tm]
  ultimately show ?thesis by - (rule templates_okI; unfold cache_fieldsD[OF u] alive; blast)
qed

text \<open>\<open>publish\<close> and \<open>drop\<close> have the same effect on the flights.\<close>

lemma leave_flights:
  assumes f: "flights_ok s" and act: "tc_active s = a1 @ i # a2"
    and u: "cache_fields u c (a1 @ a2) (in_flight i # tc_waking s) (tc_waiters s) pb"
    and d: "distinct (map fst (ca_entries c))"
    and e: "\<And>g fl. map_of (ca_entries c) g = Some (Initializing_entry fl) \<longleftrightarrow>
        g \<noteq> in_fingerprint i \<and> map_of (ca_entries (tc_cache s)) g = Some (Initializing_entry fl)"
    and l: "length (ca_flights c) = length (ca_flights (tc_cache s))"
    and k: "\<And>k. fl_completed (ca_flights c ! k) = fl_completed (ca_flights (tc_cache s) ! k)"
    and t: "\<And>k. k \<noteq> in_flight i \<Longrightarrow> fl_template (ca_flights c ! k) = fl_template (ca_flights (tc_cache s) ! k)"
  shows "flights_ok u"
proof -
  have rest: "j \<in> set (tc_active s) \<and> in_fingerprint j \<noteq> in_fingerprint i \<and> in_flight j \<noteq> in_flight i"
    if "j \<in> set (a1 @ a2)" for j
    using active_split[OF f act, of j] that act by auto
  have "map_of (ca_entries c) g = Some (Initializing_entry fl) \<longleftrightarrow>
      (\<exists>j \<in> set (a1 @ a2). in_fingerprint j = g \<and> in_flight j = fl)" for g fl
    using rest act by (auto simp: e flights_okD(3)[OF f])
  moreover have "distinct (map in_flight (a1 @ a2))" using flights_okD(2)[OF f] act by auto
  moreover have "in_active j \<and> in_flight j < length (ca_flights (tc_cache s))
        \<and> fl_template (ca_flights c ! in_flight j) = None" if "j \<in> set (a1 @ a2)" for j
    using flights_okD(4)[OF f, of j] rest[OF that] t by auto
  moreover have "fl_completed (ca_flights (tc_cache s) ! fl) \<or> fl \<in> in_flight ` set (a1 @ a2) \<or>
      fl \<in> set (in_flight i # tc_waking s)" if "fl < length (ca_flights (tc_cache s))" for fl
    using flights_okD(5)[OF f that] act by auto
  moreover have "fl < length (ca_flights (tc_cache s))" if "fl \<in> set (in_flight i # tc_waking s)" for fl
    using that flights_okD(4)[OF f, of i] flights_okD(6)[OF f, of fl] act by auto
  moreover note d flights_okD(7)[OF f]
  ultimately show ?thesis by - (rule flights_okI; unfold cache_fieldsD[OF u] l k; blast)
qed

lemma install_flights:
  assumes f: "flights_ok s" and act: "tc_active s = a1 @ i # a2"
    and u: "cache_fields u (publish_locked i t ((tc_cache s)\<lparr>ca_alive := t # ca_alive (tc_cache s)\<rparr>)) (a1 @ a2)
      (in_flight i # tc_waking s) (tc_waiters s) pb"
  shows "flights_ok u"
proof -
  have i: "i \<in> set (tc_active s)" using act by simp
  note pub = publish_locked_owner[OF active_owns_entry[OF f i]]
  have b: "in_flight i < length (ca_flights (tc_cache s))" using flights_okD(4)[OF f i] by simp
  show ?thesis
    by (rule leave_flights[OF f act u]) (simp_all add: pub insert_entry_distinct flights_okD(1)[OF f] flight_publish_nth b)
qed

lemma abandon_flights:
  assumes f: "flights_ok s" and act: "tc_active s = a1 @ i # a2"
    and u: "cache_fields u (drop_locked i (tc_cache s)) (a1 @ a2) (in_flight i # tc_waking s) (tc_waiters s) pb"
  shows "flights_ok u"
proof -
  have i: "i \<in> set (tc_active s)" using act by simp
  have "drop_locked i (tc_cache s) = remove_entry (in_fingerprint i) (tc_cache s)"
    using active_owns_entry[OF f i] by (simp add: drop_locked_def owns_entry_def)
  then show ?thesis
    by - (rule leave_flights[OF f act u]; simp add: flights_okD(1)[OF f])
qed

lemma install_templates:
  assumes f: "flights_ok s" and tm: "templates_ok s" and act: "tc_active s = a1 @ i # a2"
    and fresh: "t \<notin> fst ` set (tc_published s)"
    and u: "cache_fields u (publish_locked i t ((tc_cache s)\<lparr>ca_alive := t # ca_alive (tc_cache s)\<rparr>)) (a1 @ a2)
      (in_flight i # tc_waking s) (tc_waiters s) ((t, in_fingerprint i) # tc_published s)"
  shows "templates_ok u"
proof -
  have i: "i \<in> set (tc_active s)" using act by simp
  note own = active_owns_entry[OF f i]
  note pub = publish_locked_owner[OF own]
  have b: "in_flight i < length (ca_flights (tc_cache s))" using flights_okD(4)[OF f i] by simp
  have sub: "j \<in> set (tc_active s)" if "j \<in> set (a1 @ a2)" for j using that act by auto
  show ?thesis
  proof (rule templates_okI; unfold cache_fieldsD[OF u] pub insert_entry_simps flight_simps)
    fix r g assume "(r, g) \<in> set ((t, in_fingerprint i) # tc_published s)"
      "r \<in> set (ca_alive ((tc_cache s)\<lparr>ca_alive := t # ca_alive (tc_cache s)\<rparr>))"
    then show "(if g = in_fingerprint i then Some (Ready_entry t)
        else map_of (ca_entries ((tc_cache s)\<lparr>ca_alive := t # ca_alive (tc_cache s)\<rparr>)) g) = Some (Ready_entry r)"
      using templates_okD(3)[OF tm, of r g] fresh own by force
  next
    fix g fl r assume "(g, fl) \<in> set (tc_waiters s)" and "fl_template (ca_flights (flight_publish (in_flight i) t
        ((tc_cache s)\<lparr>ca_alive := t # ca_alive (tc_cache s)\<rparr>)) ! fl) = Some r"
    then show "(r, g) \<in> set ((t, in_fingerprint i) # tc_published s) \<and>
        r \<in> set (ca_alive ((tc_cache s)\<lparr>ca_alive := t # ca_alive (tc_cache s)\<rparr>))"
      using templates_okD(5)[OF tm _ i, of g fl] templates_okD(6)[OF tm, of g fl r] b
      by (auto simp: flight_publish_nth split: if_splits)
  next
    fix g fl j assume "(g, fl) \<in> set (tc_waiters s)" "j \<in> set (a1 @ a2)" "in_flight j = fl"
    then show "in_fingerprint j = g" using templates_okD(5)[OF tm] sub by blast
  qed (use templates_okD(1,2,4)[OF tm] fresh in \<open>auto split: if_splits\<close>)
qed

lemma abandon_templates:
  assumes f: "flights_ok s" and tm: "templates_ok s" and act: "tc_active s = a1 @ i # a2"
    and u: "cache_fields u (drop_locked i (tc_cache s)) (a1 @ a2) (in_flight i # tc_waking s) (tc_waiters s)
      (tc_published s)"
  shows "templates_ok u"
proof -
  have i: "i \<in> set (tc_active s)" using act by simp
  note own = active_owns_entry[OF f i]
  have drop: "drop_locked i (tc_cache s) = remove_entry (in_fingerprint i) (tc_cache s)"
    using own by (simp add: drop_locked_def owns_entry_def)
  have sub: "j \<in> set (tc_active s)" if "j \<in> set (a1 @ a2)" for j using that act by auto
  show ?thesis
  proof (rule templates_okI; unfold cache_fieldsD[OF u] drop remove_entry_simps)
    fix g fl j assume "(g, fl) \<in> set (tc_waiters s)" "j \<in> set (a1 @ a2)" "in_flight j = fl"
    then show "in_fingerprint j = g" using templates_okD(5)[OF tm] sub by blast
  next
    fix t g assume "(t, g) \<in> set (tc_published s)" "t \<in> set (ca_alive (tc_cache s))"
    then show "(if g = in_fingerprint i then None else map_of (ca_entries (tc_cache s)) g) = Some (Ready_entry t)"
      using templates_okD(3)[OF tm, of t g] own by auto
  next
    fix t g assume "(if g = in_fingerprint i then None else map_of (ca_entries (tc_cache s)) g) = Some (Ready_entry t)"
    then show "(t, g) \<in> set (tc_published s)" using templates_okD(4)[OF tm, of g t] by (auto split: if_splits)
  qed (use templates_okD(1,2,6)[OF tm] in blast)+
qed

lemma wake_flights:
  assumes f: "flights_ok s" and wk: "tc_waking s = w1 @ fl # w2"
    and u: "cache_fields u (flight_complete fl (tc_cache s)) (tc_active s) (w1 @ w2) (tc_waiters s) (tc_published s)"
  shows "flights_ok u"
proof -
  have b: "fl < length (ca_flights (tc_cache s))" using flights_okD(6)[OF f] wk by simp
  note nth = flight_complete_nth[OF b]
  have t: "fl_template (ca_flights (flight_complete fl (tc_cache s)) ! k) = fl_template (ca_flights (tc_cache s) ! k)" for k
    by (simp add: nth)
  have "fl_completed (ca_flights (flight_complete fl (tc_cache s)) ! k) \<or> k \<in> in_flight ` set (tc_active s) \<or>
      k \<in> set (w1 @ w2)" if "k < length (ca_flights (tc_cache s))" for k
    using flights_okD(5)[OF f that] wk by (auto simp: nth)
  moreover have "k < length (ca_flights (tc_cache s))" if "k \<in> set (w1 @ w2)" for k
    using flights_okD(6)[OF f, of k] that wk by auto
  moreover note flights_okD(1-4,7)[OF f]
  ultimately show ?thesis by - (rule flights_okI; unfold cache_fieldsD[OF u] flight_simps t; blast)
qed

lemma wake_templates:
  assumes f: "flights_ok s" and tm: "templates_ok s" and wk: "tc_waking s = w1 @ fl # w2"
    and u: "cache_fields u (flight_complete fl (tc_cache s)) (tc_active s) (w1 @ w2) (tc_waiters s) (tc_published s)"
  shows "templates_ok u"
proof -
  have b: "fl < length (ca_flights (tc_cache s))" using flights_okD(6)[OF f] wk by simp
  have t: "fl_template (ca_flights (flight_complete fl (tc_cache s)) ! k) = fl_template (ca_flights (tc_cache s) ! k)" for k
    by (simp add: flight_complete_nth[OF b])
  show ?thesis
    by (rule templates_okI; unfold cache_fieldsD[OF u] flight_simps t) (use templates_okD[OF tm] in blast)+
qed

lemma waiters_inv:
  assumes inv: "cache_inv s"
    and u: "cache_fields u (tc_cache s) (tc_active s) (tc_waking s) ws (tc_published s)"
    and new: "\<And>f fl. (f, fl) \<in> set ws \<Longrightarrow>
      (f, fl) \<in> set (tc_waiters s) \<or> map_of (ca_entries (tc_cache s)) f = Some (Initializing_entry fl)"
  shows "cache_inv u"
proof -
  have f: "flights_ok s" and tm: "templates_ok s" using inv by (simp_all add: cache_inv_def)
  have new': "fl < length (ca_flights (tc_cache s)) \<and>
      (\<forall>i \<in> set (tc_active s). in_flight i = fl \<longrightarrow> in_fingerprint i = g) \<and>
      (\<forall>t. fl_template (ca_flights (tc_cache s) ! fl) = Some t \<longrightarrow>
        (t, g) \<in> set (tc_published s) \<and> t \<in> set (ca_alive (tc_cache s)))" if mem: "(g, fl) \<in> set ws" for g fl
    using new[OF mem]
  proof
    assume "(g, fl) \<in> set (tc_waiters s)"
    then show ?thesis using flights_okD(7)[OF f] templates_okD(5,6)[OF tm] by blast
  next
    assume "map_of (ca_entries (tc_cache s)) g = Some (Initializing_entry fl)"
    then obtain i where i: "i \<in> set (tc_active s)" "in_fingerprint i = g" "in_flight i = fl"
      using flights_okD(3)[OF f] by blast
    have "in_fingerprint j = g" if "j \<in> set (tc_active s)" "in_flight j = fl" for j
      using active_unique[OF f that(1) i(1)] that(2) i(2,3) by simp
    moreover have "fl < length (ca_flights (tc_cache s))" "fl_template (ca_flights (tc_cache s) ! fl) = None"
      using flights_okD(4)[OF f i(1)] i(3) by simp_all
    ultimately show ?thesis by simp
  qed
  have "flights_ok u"
    using flights_okD(1-6)[OF f] new' by - (rule flights_okI; unfold cache_fieldsD[OF u]; blast)
  moreover have "templates_ok u"
    using templates_okD(1-4)[OF tm] new' by - (rule templates_okI; unfold cache_fieldsD[OF u]; blast)
  ultimately show ?thesis by (simp add: cache_inv_def)
qed

lemma expire_inv:
  assumes inv: "cache_inv s"
    and held: "\<And>f fl t. (f, fl) \<in> set (tc_waiters s) \<Longrightarrow> fl_template (ca_flights (tc_cache s) ! fl) = Some t \<Longrightarrow> P t"
  shows "cache_inv (s\<lparr>tc_cache := (tc_cache s)\<lparr>ca_alive := filter P (ca_alive (tc_cache s))\<rparr>\<rparr>)"
proof -
  let ?u = "s\<lparr>tc_cache := (tc_cache s)\<lparr>ca_alive := filter P (ca_alive (tc_cache s))\<rparr>\<rparr>"
  have f: "flights_ok s" and tm: "templates_ok s" using inv by (simp_all add: cache_inv_def)
  have u: "cache_fields ?u ((tc_cache s)\<lparr>ca_alive := filter P (ca_alive (tc_cache s))\<rparr>) (tc_active s) (tc_waking s)
    (tc_waiters s) (tc_published s)" by (simp add: cache_fields_def)
  have c: "ca_entries ((tc_cache s)\<lparr>ca_alive := as\<rparr>) = ca_entries (tc_cache s)"
    "ca_flights ((tc_cache s)\<lparr>ca_alive := as\<rparr>) = ca_flights (tc_cache s)"
    "ca_alive ((tc_cache s)\<lparr>ca_alive := as\<rparr>) = as" for as by simp_all
  have "flights_ok ?u"
    using flights_okD[OF f] by - (rule flights_okI; unfold cache_fieldsD[OF u] c; blast)
  moreover have "templates_ok ?u"
    using templates_okD[OF tm] held
    by - (rule templates_okI; unfold cache_fieldsD[OF u] c set_filter mem_Collect_eq; blast)
  ultimately show ?thesis by (simp add: cache_inv_def)
qed

lemma cache_inv_step:
  assumes inv: "cache_inv s" and step: "cache_step s u"
  shows "cache_inv u"
proof -
  have f: "flights_ok s" and tm: "templates_ok s" using inv by (simp_all add: cache_inv_def)
  from step show ?thesis
  proof (cases rule: cache_step_cases)
    case (hit f t c)
    then show ?thesis using inv by (simp add: action_ready)
  next
    case (join g fl c)
    then show ?thesis
      by - (rule waiters_inv[OF inv, of _ "(g, fl) # tc_waiters s"]; auto simp: cache_fields_def action_wait)
  next
    case (start g i c)
    show ?thesis unfolding cache_inv_def start(1)
      by (rule conjI[OF start_flights[OF f start(2)] start_templates[OF f tm start(2)]]) (simp_all add: cache_fields_def)
  next
    case (install a1 i a2 t)
    show ?thesis unfolding cache_inv_def install(1)
      by (rule conjI[OF install_flights[OF f install(2)] install_templates[OF f tm install(2,3)]])
        (simp_all add: cache_fields_def)
  next
    case (abandon a1 i a2)
    show ?thesis unfolding cache_inv_def abandon(1)
      by (rule conjI[OF abandon_flights[OF f abandon(2)] abandon_templates[OF f tm abandon(2)]])
        (simp_all add: cache_fields_def)
  next
    case (wake w1 fl w2)
    show ?thesis unfolding cache_inv_def wake(1)
      by (rule conjI[OF wake_flights[OF f wake(2)] wake_templates[OF f tm wake(2)]]) (simp_all add: cache_fields_def)
  next
    case (resume w1 g fl w2 r)
    then show ?thesis by - (rule waiters_inv[OF inv, of _ "w1 @ w2"]; auto simp: cache_fields_def)
  next
    case (expire P)
    show ?thesis unfolding expire(1) by (rule expire_inv[OF inv expire(2)])
  qed
qed

lemma cache_inv_start: "cache_start s \<Longrightarrow> cache_inv s"
  by (simp add: cache_start_def cache_inv_def flights_ok_def templates_ok_def new_cache_def)

interpretation cache_sys: invariant_system cache_start cache_step cache_inv
  by unfold_locales (rule cache_inv_start, assumption, rule cache_inv_step)

section \<open>Properties\<close>

lemma active_publish:
  assumes f: "flights_ok s" and i: "i \<in> set (tc_active s)"
  shows "waiter_wait (in_flight i) (snd (initializer_publish i t ((tc_cache s)\<lparr>ca_alive := t # ca_alive (tc_cache s)\<rparr>)))
      = Some (Some t)"
    and "fst (template_cache_action (in_fingerprint i)
      (snd (initializer_publish i t ((tc_cache s)\<lparr>ca_alive := t # ca_alive (tc_cache s)\<rparr>)))) = Act_ready t"
proof -
  note pub = publish_locked_owner[OF active_owns_entry[OF f i]]
  have b: "in_flight i < length (ca_flights (tc_cache s))" using flights_okD(4)[OF f i] by simp
  show "waiter_wait (in_flight i) (snd (initializer_publish i t ((tc_cache s)\<lparr>ca_alive := t # ca_alive (tc_cache s)\<rparr>)))
      = Some (Some t)"
    using b by (simp add: initializer_publish_def pub waiter_wait_def flight_complete_nth flight_publish_nth)
  show "fst (template_cache_action (in_fingerprint i)
      (snd (initializer_publish i t ((tc_cache s)\<lparr>ca_alive := t # ca_alive (tc_cache s)\<rparr>)))) = Act_ready t"
    by (simp add: initializer_publish_def pub template_cache_action_def upgrade_def)
qed

lemma active_drop:
  assumes f: "flights_ok s" and i: "i \<in> set (tc_active s)"
  shows "waiter_wait (in_flight i) (initializer_drop i (tc_cache s)) = Some None"
    and "\<exists>j. fst (template_cache_action (in_fingerprint i) (initializer_drop i (tc_cache s))) = Act_initialize j"
proof -
  have b: "in_active i" "in_flight i < length (ca_flights (tc_cache s))"
    "fl_template (ca_flights (tc_cache s) ! in_flight i) = None"
    using flights_okD(4)[OF f i] by simp_all
  have "drop_locked i (tc_cache s) = remove_entry (in_fingerprint i) (tc_cache s)"
    using active_owns_entry[OF f i] by (simp add: drop_locked_def owns_entry_def)
  then show "waiter_wait (in_flight i) (initializer_drop i (tc_cache s)) = Some None"
    and "\<exists>j. fst (template_cache_action (in_fingerprint i) (initializer_drop i (tc_cache s))) = Act_initialize j"
    using b by (simp_all add: initializer_drop_def waiter_wait_def flight_complete_nth template_cache_action_def
        cold_acquisition_def Let_def)
qed

text \<open>A concrete run: one caller starts initializing, a second one joins its flight.\<close>

definition demo_fp :: template_fingerprint where
  "demo_fp = TemplateFingerprint (replicate 32 7)"

definition demo_flight :: cache_system where
  "demo_flight =
     (let i = \<lparr>in_fingerprint = demo_fp, in_flight = 0, in_active = True\<rparr>
      in \<lparr>tc_cache = \<lparr>ca_entries = [(demo_fp, Initializing_entry 0)], ca_flights = [TemplateFlight_new], ca_alive = []\<rparr>,
          tc_active = [i], tc_waking = [], tc_waiters = [(demo_fp, 0)], tc_published = []\<rparr>)"

lemma demo_flight_reachable: "reachable cache_start cache_step demo_flight"
proof -
  define i where "i = \<lparr>in_fingerprint = demo_fp, in_flight = 0, in_active = True\<rparr>"
  define c where "c = \<lparr>ca_entries = [(demo_fp, Initializing_entry 0)], ca_flights = [TemplateFlight_new], ca_alive = []\<rparr>"
  define s0 where "s0 = \<lparr>tc_cache = new_cache, tc_active = [], tc_waking = [], tc_waiters = [], tc_published = []\<rparr>"
  define s1 where "s1 = s0\<lparr>tc_cache := c, tc_active := i # tc_active s0\<rparr>"
  have r0: "reachable cache_start cache_step s0" by (rule reachable_init) (simp add: cache_start_def s0_def)
  have "template_cache_action demo_fp (tc_cache s0) = (Act_initialize i, c)"
    by (simp add: template_cache_action_def cold_acquisition_def new_cache_def insert_entry_def
        prune_expired_ready_entries_def i_def c_def s0_def)
  then have r1: "reachable cache_start cache_step s1"
    unfolding s1_def by (rule reachable_step[OF r0 cache_step.start])
  have "template_cache_action demo_fp (tc_cache s1) = (Act_wait 0, c)"
    by (simp add: template_cache_action_def s1_def c_def)
  then have "reachable cache_start cache_step (s1\<lparr>tc_cache := c, tc_waiters := (demo_fp, 0) # tc_waiters s1\<rparr>)"
    by (rule reachable_step[OF r1 cache_step.join])
  moreover have "s1\<lparr>tc_cache := c, tc_waiters := (demo_fp, 0) # tc_waiters s1\<rparr> = demo_flight"
    by (simp add: demo_flight_def s1_def s0_def i_def c_def)
  ultimately show ?thesis by (simp only:)
qed

text \<open>C21: Templates are initialized at most once at a time and shared: in every interleaving of callers,
  no fingerprint has two live initializers or two live templates; a caller is given a cached template
  only if that template was published for the requested fingerprint and is still alive, it waits only
  behind a live initializer of the same fingerprint, and it becomes the initializer only when there is
  neither an initializer nor a live template for it.\<close>

theorem template_single_flight:
  assumes "reachable cache_start cache_step s"
  shows "inj_on in_fingerprint (set (tc_active s))
     \<and> (\<forall>t u. (t, f) \<in> set (tc_published s) \<and> (u, f) \<in> set (tc_published s)
          \<and> t \<in> set (ca_alive (tc_cache s)) \<and> u \<in> set (ca_alive (tc_cache s)) \<longrightarrow> t = u)
     \<and> (case fst (template_cache_action f (tc_cache s)) of
          Act_ready t \<Rightarrow> (t, f) \<in> set (tc_published s) \<and> t \<in> set (ca_alive (tc_cache s))
        | Act_wait fl \<Rightarrow> (\<exists>i \<in> set (tc_active s). in_fingerprint i = f \<and> in_flight i = fl)
        | Act_initialize i \<Rightarrow> in_fingerprint i = f \<and> in_active i \<and> f \<notin> in_fingerprint ` set (tc_active s)
            \<and> (\<forall>t. (t, f) \<in> set (tc_published s) \<longrightarrow> t \<notin> set (ca_alive (tc_cache s))))"
proof -
  have f: "flights_ok s" and tm: "templates_ok s"
    using cache_sys.reachable_inv[OF assms] by (simp_all add: cache_inv_def)
  obtain a c where act: "template_cache_action f (tc_cache s) = (a, c)" by fastforce
  have "case a of
          Act_ready t \<Rightarrow> (t, f) \<in> set (tc_published s) \<and> t \<in> set (ca_alive (tc_cache s))
        | Act_wait fl \<Rightarrow> (\<exists>i \<in> set (tc_active s). in_fingerprint i = f \<and> in_flight i = fl)
        | Act_initialize i \<Rightarrow> in_fingerprint i = f \<and> in_active i \<and> f \<notin> in_fingerprint ` set (tc_active s)
            \<and> (\<forall>t. (t, f) \<in> set (tc_published s) \<longrightarrow> t \<notin> set (ca_alive (tc_cache s)))"
  proof (cases a)
    case (Act_ready t)
    then show ?thesis using act templates_okD(4)[OF tm] by (simp add: action_ready)
  next
    case (Act_wait fl)
    then show ?thesis using act by (simp add: action_wait flights_okD(3)[OF f])
  next
    case (Act_initialize i)
    note a = action_initialize[OF act[unfolded Act_initialize]]
    have "in_fingerprint j \<noteq> f" if "j \<in> set (tc_active s)" for j
      using active_owns_entry[OF f that] a(1) by (auto simp: expired_entry_def)
    moreover have "t \<notin> set (ca_alive (tc_cache s))" if "(t, f) \<in> set (tc_published s)" for t
      using templates_okD(3)[OF tm that] a(1) by (auto simp: expired_entry_def)
    ultimately have "f \<notin> in_fingerprint ` set (tc_active s)"
      "\<forall>t. (t, f) \<in> set (tc_published s) \<longrightarrow> t \<notin> set (ca_alive (tc_cache s))" by blast+
    then show ?thesis by (simp add: Act_initialize a(2))
  qed
  moreover have "inj_on in_fingerprint (set (tc_active s))"
    using active_unique[OF f] by (auto simp: inj_on_def)
  moreover have "t = u" if "(t, f) \<in> set (tc_published s)" "(u, f) \<in> set (tc_published s)"
      "t \<in> set (ca_alive (tc_cache s))" "u \<in> set (ca_alive (tc_cache s))" for t u
    using templates_okD(3)[OF tm that(1,3)] templates_okD(3)[OF tm that(2,4)] by simp
  ultimately show ?thesis unfolding act fst_conv by blast
qed

theorem template_single_flight_witness:
  "inj_on in_fingerprint (set (tc_active demo_flight)) \<and> fst (template_cache_action demo_fp (tc_cache demo_flight)) = Act_wait 0
   \<and> (\<exists>i \<in> set (tc_active demo_flight). in_fingerprint i = demo_fp \<and> in_flight i = 0)"
  using template_single_flight[OF demo_flight_reachable, of demo_fp]
  by (simp add: demo_flight_def template_cache_action_def)

text \<open>C22: No waiter of a template flight is stranded or misled. While a waiter is pending its initializer is
  live or about to complete the flight; what a completed flight returns is a live template published
  for the fingerprint the waiter asked for, or nothing. When the initializer publishes, its waiters
  and later callers get exactly that template; when it is dropped instead, its waiters are released
  with nothing and the next caller becomes the initializer.\<close>

theorem template_waiters_released:
  assumes "reachable cache_start cache_step s"
  shows "((f, fl) \<in> set (tc_waiters s) \<longrightarrow>
       (case waiter_wait fl (tc_cache s) of
          None \<Rightarrow> fl \<in> in_flight ` set (tc_active s) \<or> fl \<in> set (tc_waking s)
        | Some None \<Rightarrow> True
        | Some (Some t) \<Rightarrow> (t, f) \<in> set (tc_published s) \<and> t \<in> set (ca_alive (tc_cache s))))
     \<and> (i \<in> set (tc_active s) \<longrightarrow>
         (let c = snd (initializer_publish i t ((tc_cache s)\<lparr>ca_alive := t # ca_alive (tc_cache s)\<rparr>));
              d = initializer_drop i (tc_cache s)
          in waiter_wait (in_flight i) c = Some (Some t)
           \<and> fst (template_cache_action (in_fingerprint i) c) = Act_ready t
           \<and> waiter_wait (in_flight i) d = Some None
           \<and> (\<exists>j. fst (template_cache_action (in_fingerprint i) d) = Act_initialize j)))"
proof -
  have f: "flights_ok s" and tm: "templates_ok s"
    using cache_sys.reachable_inv[OF assms] by (simp_all add: cache_inv_def)
  have "case waiter_wait fl (tc_cache s) of
          None \<Rightarrow> fl \<in> in_flight ` set (tc_active s) \<or> fl \<in> set (tc_waking s)
        | Some None \<Rightarrow> True
        | Some (Some t) \<Rightarrow> (t, f) \<in> set (tc_published s) \<and> t \<in> set (ca_alive (tc_cache s))"
    if w: "(f, fl) \<in> set (tc_waiters s)"
    using flights_okD(5)[OF f flights_okD(7)[OF f w]] templates_okD(6)[OF tm w]
    by (auto simp: waiter_wait_def split: option.splits)
  then show ?thesis using active_publish[OF f, of i t] active_drop[OF f, of i] by (simp add: Let_def)
qed

theorem template_waiters_released_witness:
  "waiter_wait 0 (tc_cache demo_flight) = None
   \<and> waiter_wait 0 (snd (initializer_publish (hd (tc_active demo_flight)) 5 ((tc_cache demo_flight)\<lparr>ca_alive := [5]\<rparr>))) = Some (Some 5)
   \<and> waiter_wait 0 (initializer_drop (hd (tc_active demo_flight)) (tc_cache demo_flight)) = Some None"
proof -
  have "waiter_wait 0 (tc_cache demo_flight) = None"
    by (simp add: demo_flight_def waiter_wait_def TemplateFlight_new_def)
  moreover have "in_flight (hd (tc_active demo_flight)) = 0" "ca_alive (tc_cache demo_flight) = []"
    "hd (tc_active demo_flight) \<in> set (tc_active demo_flight)" by (simp_all add: demo_flight_def)
  ultimately show ?thesis
    using template_waiters_released[OF demo_flight_reachable, of demo_fp 0 "hd (tc_active demo_flight)" 5]
    by (simp add: Let_def)
qed

end
