(* ===== verification/Server.thy ===== *)
theory Server
  imports Admin_Properties Sessions Cleanup Template_Cache
begin

text \<open>
  The server state (\<open>ServerInner\<close> of \<open>src/server.rs\<close>): what the end of a start builds, the sizes
  derived from the connection settings of the server, and creations through the server's admission
  gate. The parts of a server that change (cleanup queue with its gate, session pool, template
  cache, registered prewarm pools) are values next to the fixed fields.
\<close>

section \<open>Sizes\<close>

definition LIFECYCLE_ADMIN_CONNECTION_SHARE_DIVISOR :: nat where
  "LIFECYCLE_ADMIN_CONNECTION_SHARE_DIVISOR = 4"
definition CLEANUP_ADMIN_SESSION_SHARE_DIVISOR :: nat where
  "CLEANUP_ADMIN_SESSION_SHARE_DIVISOR = 2"
definition MAX_CLEANUP_WORKERS :: nat where "MAX_CLEANUP_WORKERS = 4"

definition per_harness_admin_session_pool_size :: "connection_limits \<Rightarrow> nat \<Rightarrow> nat" where
  "per_harness_admin_session_pool_size limits slots =
     (let postgres_headroom_limit = max (slots div LIFECYCLE_ADMIN_CONNECTION_SHARE_DIVISOR) 1
      in max (min (max_simultaneous_leases limits) postgres_headroom_limit) 1)"

record cleanup_limits =
  worker_count :: nat
  queue_capacity :: nat

definition cleanup_queue_limits :: "nat \<Rightarrow> cleanup_limits" where
  "cleanup_queue_limits admin_pool_size =
     (let workers = min (max (admin_pool_size div CLEANUP_ADMIN_SESSION_SHARE_DIVISOR) 1) MAX_CLEANUP_WORKERS
      in \<lparr>worker_count = workers, queue_capacity = workers\<rparr>)"

lemmas size_defs = per_harness_admin_session_pool_size_def cleanup_queue_limits_def
  LIFECYCLE_ADMIN_CONNECTION_SHARE_DIVISOR_def CLEANUP_ADMIN_SESSION_SHARE_DIVISOR_def
  MAX_CLEANUP_WORKERS_def

section \<open>State\<close>

record 'u server_inner =
  srv_admin_url :: "'u admin_database_url"
  srv_project :: project_name
  srv_owner_key :: int
  srv_operation_timeout :: duration
  srv_template_wait_timeout :: duration
  srv_stale_after :: duration
  srv_cleanup_on_start :: bool
  srv_connection_limits :: connection_limits
  srv_container :: "nat option"

text \<open>
  \<open>ss_prewarm_pools\<close> lists the registered pools by address; the admission gate is the one that the
  cleanup queue holds.
\<close>

record ('u, 'g) server_state =
  ss_inner :: "'u server_inner"
  ss_workers :: nat
  ss_cleanup :: "'g cleanup_queue"
  ss_sessions :: session_pool
  ss_cache :: cache
  ss_prewarm_pools :: "nat list"
  ss_owner_lock :: "persistent_client option"

definition is_external :: "'u server_inner \<Rightarrow> bool" where
  "is_external self \<longleftrightarrow> srv_container self = None"

definition container_id :: "(nat \<Rightarrow> string) \<Rightarrow> 'u server_inner \<Rightarrow> string option" where
  "container_id ids self = map_option ids (srv_container self)"

section \<open>The end of a start\<close>

text \<open>\<open>spawn\<close> gives the result of starting each cleanup worker thread.\<close>

definition finish_start_with_client ::
  "'w backend \<Rightarrow> 'u url_api \<Rightarrow> 'g semaphore \<Rightarrow> (nat \<Rightarrow> string option) \<Rightarrow> harness_config
     \<Rightarrow> connection_limits \<Rightarrow> 'u admin_database_url \<Rightarrow> nat option \<Rightarrow> int \<Rightarrow> admin_client
     \<Rightarrow> ('w, ('u, 'g) server_state) io" where
  "finish_start_with_client be api sem spawn config limits admin_url container owner_key owner_lock =
     io_bind (validate_postgres_18 be owner_lock) (\<lambda>_.
     io_bind (regular_connection_slots be owner_lock) (\<lambda>slots.
     let admin_pool_size = per_harness_admin_session_pool_size limits slots
     in io_bind (acquire_advisory_lock be owner_lock owner_key) (\<lambda>_.
        let admin_sessions = AdminSessionPool_new (admin_url_as_str api admin_url)
              (cfg_operation_timeout config) (project_as_str (cfg_project config)) admin_pool_size;
            database_admission = DatabaseAdmission_new sem (connection_budget limits);
            cleanup_limits = cleanup_queue_limits admin_pool_size
        in io_bind (io_result (DatabaseCleanupQueue_new (worker_count cleanup_limits)
                (queue_capacity cleanup_limits) database_admission spawn)) (\<lambda>(workers, database_cleanup).
           io_ok \<lparr>ss_inner = \<lparr>srv_admin_url = admin_url, srv_project = cfg_project config,
                     srv_owner_key = owner_key, srv_operation_timeout = cfg_operation_timeout config,
                     srv_template_wait_timeout = cfg_template_wait_timeout config,
                     srv_stale_after = cfg_stale_after config,
                     srv_cleanup_on_start = cfg_cleanup_on_start config,
                     srv_connection_limits = limits, srv_container = container\<rparr>,
                  ss_workers = workers, ss_cleanup = database_cleanup, ss_sessions = admin_sessions,
                  ss_cache = new_cache, ss_prewarm_pools = [],
                  ss_owner_lock = Some (PersistentClient_new owner_lock)\<rparr>))))"

definition finish_start_with ::
  "'w backend \<Rightarrow> 'u url_api \<Rightarrow> 'g semaphore \<Rightarrow> (nat \<Rightarrow> string option) \<Rightarrow> harness_config
     \<Rightarrow> connection_limits \<Rightarrow> 'u admin_database_url \<Rightarrow> nat option \<Rightarrow> int
     \<Rightarrow> (string \<Rightarrow> duration \<Rightarrow> string \<Rightarrow> ('w, admin_client) io) \<Rightarrow> ('w, ('u, 'g) server_state) io" where
  "finish_start_with be api sem spawn config limits admin_url container owner_key connector =
     io_bind (connector (admin_url_as_str api admin_url) (cfg_operation_timeout config)
                ''connect to PostgreSQL test server'') (\<lambda>owner_lock.
     finish_start_with_client be api sem spawn config limits admin_url container owner_key owner_lock)"

definition finish_start ::
  "'w backend \<Rightarrow> 'u url_api \<Rightarrow> 'g semaphore \<Rightarrow> (nat \<Rightarrow> string option) \<Rightarrow> harness_config
     \<Rightarrow> connection_limits \<Rightarrow> 'u admin_database_url \<Rightarrow> nat option \<Rightarrow> int
     \<Rightarrow> ('w, ('u, 'g) server_state) io" where
  "finish_start be api sem spawn config limits admin_url container owner_key =
     finish_start_with be api sem spawn config limits admin_url container owner_key (connect_admin be)"

section \<open>Creations through the gate\<close>

text \<open>
  Code that creates databases runs in a world that also holds the admission gate. The driver calls
  do not touch it.
\<close>

definition lift_reply :: "('w \<Rightarrow> 'r \<times> 'w) \<Rightarrow> 'g \<times> 'w \<Rightarrow> 'r \<times> 'g \<times> 'w" where
  "lift_reply f gw = (let (r, w) = f (snd gw) in (r, fst gw, w))"

definition lift_backend :: "'w backend \<Rightarrow> ('g \<times> 'w) backend" where
  "lift_backend be = \<lparr>
     be_connect = (\<lambda>u t. lift_reply (be_connect be u t)),
     be_batch = (\<lambda>c t q. lift_reply (be_batch be c t q)),
     be_query = (\<lambda>c t q ps. lift_reply (be_query be c t q ps)),
     be_query_one = (\<lambda>c t q ps. lift_reply (be_query_one be c t q ps)),
     be_query_opt = (\<lambda>c t q ps. lift_reply (be_query_opt be c t q ps)),
     be_now = lift_reply (be_now be)\<rparr>"

definition create_managed_database_classified ::
  "'g semaphore \<Rightarrow> ('g \<times> 'w) backend \<Rightarrow> admin_client \<Rightarrow> database_name \<Rightarrow> string \<Rightarrow> resource_metadata
     \<Rightarrow> ('g \<times> 'w, managed_database_creation_failure + unit) io" where
  "create_managed_database_classified sem be client database_name template_name metadata s =
     (let (result, gate, s') = attempt_managed_creation sem
            (creation_operation be client (database_name, template_name, metadata)) (fst (world s)) s
      in (Return (Inr result), s'\<lparr>world := (gate, snd (world s'))\<rparr>))"

definition acquire_database_permit ::
  "'g semaphore \<Rightarrow> 'u server_inner \<Rightarrow> 'g \<Rightarrow> (nat result \<times> 'g) option" where
  "acquire_database_permit sem self gate =
     admission_acquire sem (connections_per_database (srv_connection_limits self)) gate"

end
