(* ===== verification/Templates.thy ===== *)
theory Templates
  imports Server Stale
begin

text \<open>
  Coordination of template databases between processes (\<open>begin_template\<close>, \<open>TemplateInitialization\<close>
  and their helpers in \<open>src/harness.rs\<close>). The wall-clock reading that metadata records is an
  argument. The loop of \<open>begin_template\<close> is a partial function: \<open>None\<close> is a call that does not return.
\<close>

section \<open>Keys and metadata\<close>

definition template_lock_key ::
  "(bytes \<Rightarrow> bytes) \<Rightarrow> project_name \<Rightarrow> template_fingerprint \<Rightarrow> int exec" where
  "template_lock_key sha256 project fingerprint =
     advisory_key sha256 ''template'' (project_as_str project @ '':'' @ to_hex fingerprint)"

definition template_coordination_key ::
  "(bytes \<Rightarrow> bytes) \<Rightarrow> project_name \<Rightarrow> template_fingerprint \<Rightarrow> int exec" where
  "template_coordination_key sha256 project fingerprint =
     advisory_key sha256 ''template-coordination'' (project_as_str project @ '':'' @ to_hex fingerprint)"

definition template_metadata_matches ::
  "resource_metadata \<Rightarrow> project_name \<Rightarrow> template_identity \<Rightarrow> int \<Rightarrow> template_state \<Rightarrow> bool" where
  "template_metadata_matches metadata project identity key state =
     (case metadata of
        TestMeta _ _ _ \<Rightarrow> False
      | TemplateMeta metadata_project metadata_lock_key fingerprint parent metadata_state _ \<Rightarrow>
          metadata_project = project \<and> metadata_lock_key = key
          \<and> fingerprint = id_fingerprint identity \<and> parent = id_parent identity
          \<and> metadata_state = state)"

definition recoverable_template_initialization ::
  "resource_metadata \<Rightarrow> project_name \<Rightarrow> template_identity \<Rightarrow> int \<Rightarrow> bool" where
  "recoverable_template_initialization metadata project identity key =
     template_metadata_matches metadata project identity key Initializing"

definition template_record_is_ready ::
  "database_record option \<Rightarrow> project_name \<Rightarrow> template_identity \<Rightarrow> int \<Rightarrow> bool" where
  "template_record_is_ready rec project identity key =
     (case Option.bind (Option.bind rec rec_comment) parse of
        None \<Rightarrow> False
      | Some metadata \<Rightarrow> template_metadata_matches metadata project identity key Ready)"

section \<open>Inspection under the shared lock\<close>

definition template_is_ready ::
  "'w backend \<Rightarrow> 'u server_inner \<Rightarrow> admin_client \<Rightarrow> database_name \<Rightarrow> template_identity \<Rightarrow> int \<Rightarrow> ('w, bool) io" where
  "template_is_ready be server client name identity key =
     io_bind (find_database be client name) (\<lambda>rec.
     io_ok (template_record_is_ready rec (srv_project server) identity key))"

definition acquire_and_inspect_shared_template_lock ::
  "'w backend \<Rightarrow> 'u server_inner \<Rightarrow> admin_client \<Rightarrow> database_name \<Rightarrow> template_identity \<Rightarrow> int \<Rightarrow> ('w, bool) io" where
  "acquire_and_inspect_shared_template_lock be server client name identity key =
     io_bind (acquire_shared_template_advisory_lock be client key (srv_template_wait_timeout server)
                (srv_operation_timeout server)) (\<lambda>_.
     io_bind (template_is_ready be server client name identity key) (\<lambda>ready.
     if ready then io_ok True
     else io_bind (release_shared_advisory_lock be client key) (\<lambda>_. io_ok False)))"

section \<open>Initialization\<close>

datatype template_source = Empty | Template_source database_name

fun source_name :: "template_source \<Rightarrow> string" where
  "source_name Empty = ''template0''"
| "source_name (Template_source name) = db_value name"

record 'u template_initialization =
  ti_server :: "'u server_inner"
  ti_name :: database_name
  ti_identity :: template_identity
  ti_lock_key :: int
  ti_coordination_key :: int
  ti_exclusive_lock :: persistent_client

datatype 'u template_preparation =
    Prepared_ready persistent_client
  | Prepared_initialize "'u template_initialization"

definition initialization_finish ::
  "'w backend \<Rightarrow> nat \<Rightarrow> 'u template_initialization \<Rightarrow> ('w, persistent_client) io" where
  "initialization_finish be unix_now self =
     (let server = ti_server self; name = ti_name self; identity = ti_identity self;
          key = ti_lock_key self; coordination_key = ti_coordination_key self
      in io_bind (io_exec (persistent_client_mut (ti_exclusive_lock self))) (\<lambda>client.
         io_bind (disable_database_connections be client name) (\<lambda>_.
         io_bind (terminate_database_connections be client name (srv_operation_timeout server)) (\<lambda>_.
         io_bind (set_database_metadata be client name
                    (ResourceMetadata_template unix_now (srv_project server) key identity Ready)) (\<lambda>_.
         io_bind (release_advisory_lock be client key) (\<lambda>_.
         io_bind (acquire_and_inspect_shared_template_lock be server client name identity key) (\<lambda>ready.
         io_bind (release_advisory_lock be client coordination_key) (\<lambda>_.
         if ready then io_ok (ti_exclusive_lock self)
         else io_err (InconsistentMetadata (db_value name))))))))))"

text \<open>\<open>abort\<close> issues all three requests; the first failure is returned.\<close>

definition initialization_abort ::
  "'w backend \<Rightarrow> 'u template_initialization \<Rightarrow> ('w, unit) io" where
  "initialization_abort be self =
     io_bind (io_exec (persistent_client_mut (ti_exclusive_lock self))) (\<lambda>client.
     io_bind (io_try (drop_database be client (ti_name self))) (\<lambda>cleanup.
     io_bind (io_try (release_advisory_lock be client (ti_lock_key self))) (\<lambda>unlock_template.
     io_bind (io_try (release_advisory_lock be client (ti_coordination_key self))) (\<lambda>unlock_coordination.
     io_result (bind_result (bind_result cleanup (\<lambda>_. unlock_template)) (\<lambda>_. unlock_coordination))))))"

section \<open>\<open>begin_template\<close>\<close>

text \<open>
  The last part of an iteration, under both exclusive locks and with no ready template: remove what
  an interrupted initialization left, and create the database.
\<close>

definition replace_unfinished_template ::
  "'w backend \<Rightarrow> 'u server_inner \<Rightarrow> admin_client \<Rightarrow> database_name \<Rightarrow> template_identity \<Rightarrow> int \<Rightarrow> ('w, unit) io" where
  "replace_unfinished_template be server client name identity key =
     io_bind (find_database be client name) (\<lambda>found.
     case found of
       None \<Rightarrow> io_ok ()
     | Some rec \<Rightarrow>
         (case Option.bind (rec_comment rec) parse of
            Some metadata \<Rightarrow>
              if recoverable_template_initialization metadata (srv_project server) identity key
              then drop_database be client name
              else io_err (InconsistentMetadata (db_value name))
          | None \<Rightarrow> io_err (InconsistentMetadata (db_value name))))"

definition create_initializing_template ::
  "'g semaphore \<Rightarrow> ('g \<times> 'w) backend \<Rightarrow> nat \<Rightarrow> 'u server_inner \<Rightarrow> admin_client \<Rightarrow> database_name
     \<Rightarrow> template_identity \<Rightarrow> template_source \<Rightarrow> int \<Rightarrow> ('g \<times> 'w, unit) io" where
  "create_initializing_template sem be unix_now server client name identity source key =
     io_bind (create_managed_database_classified sem be client name (source_name source)
                (ResourceMetadata_template unix_now (srv_project server) key identity Initializing)) (\<lambda>created.
     case created of Inl failure \<Rightarrow> io_err (into_error failure) | Inr _ \<Rightarrow> io_ok ())"

text \<open>
  One pass of the loop, in three parts: the first inspection, what follows under the coordination
  lock, and what follows under both exclusive locks. \<open>None\<close> is \<open>continue\<close>.
\<close>

definition iteration_under_exclusive_lock ::
  "'g semaphore \<Rightarrow> ('g \<times> 'w) backend \<Rightarrow> nat \<Rightarrow> 'u server_inner \<Rightarrow> database_name \<Rightarrow> template_identity
     \<Rightarrow> template_source \<Rightarrow> int \<Rightarrow> int \<Rightarrow> persistent_client \<Rightarrow> admin_client
     \<Rightarrow> ('g \<times> 'w, 'u template_preparation option) io" where
  "iteration_under_exclusive_lock sem be unix_now server name identity source key coordination_key persistent client =
     io_bind (template_is_ready be server client name identity key) (\<lambda>published.
     if published then
       io_bind (release_advisory_lock be client key) (\<lambda>_.
       io_bind (acquire_and_inspect_shared_template_lock be server client name identity key) (\<lambda>ready.
       io_bind (release_advisory_lock be client coordination_key) (\<lambda>_.
       io_ok (if ready then Some (Prepared_ready persistent) else None))))
     else
       io_bind (replace_unfinished_template be server client name identity key) (\<lambda>_.
       io_bind (create_initializing_template sem be unix_now server client name identity source key) (\<lambda>_.
       io_ok (Some (Prepared_initialize
         \<lparr>ti_server = server, ti_name = name, ti_identity = identity, ti_lock_key = key,
          ti_coordination_key = coordination_key, ti_exclusive_lock = persistent\<rparr>)))))"

definition iteration_under_coordination_lock ::
  "'g semaphore \<Rightarrow> ('g \<times> 'w) backend \<Rightarrow> nat \<Rightarrow> 'u server_inner \<Rightarrow> database_name \<Rightarrow> template_identity
     \<Rightarrow> template_source \<Rightarrow> int \<Rightarrow> int \<Rightarrow> persistent_client \<Rightarrow> admin_client
     \<Rightarrow> ('g \<times> 'w, 'u template_preparation option) io" where
  "iteration_under_coordination_lock sem be unix_now server name identity source key coordination_key persistent client =
     io_bind (acquire_and_inspect_shared_template_lock be server client name identity key) (\<lambda>ready.
     if ready then
       io_bind (release_advisory_lock be client coordination_key) (\<lambda>_.
       io_ok (Some (Prepared_ready persistent)))
     else
       io_bind (acquire_template_advisory_lock be client key
                  (srv_template_wait_timeout server) (srv_operation_timeout server)) (\<lambda>_.
       iteration_under_exclusive_lock sem be unix_now server name identity source key coordination_key
         persistent client))"

definition begin_template_iteration ::
  "'g semaphore \<Rightarrow> ('g \<times> 'w) backend \<Rightarrow> nat \<Rightarrow> 'u server_inner \<Rightarrow> database_name \<Rightarrow> template_identity
     \<Rightarrow> template_source \<Rightarrow> int \<Rightarrow> int \<Rightarrow> persistent_client
     \<Rightarrow> ('g \<times> 'w, 'u template_preparation option) io" where
  "begin_template_iteration sem be unix_now server name identity source key coordination_key persistent =
     io_bind (io_exec (persistent_client_mut persistent)) (\<lambda>client.
     io_bind (acquire_and_inspect_shared_template_lock be server client name identity key) (\<lambda>ready.
     if ready then io_ok (Some (Prepared_ready persistent))
     else
       io_bind (acquire_template_advisory_lock be client coordination_key
                  (srv_template_wait_timeout server) (srv_operation_timeout server)) (\<lambda>_.
       iteration_under_coordination_lock sem be unix_now server name identity source key coordination_key
         persistent client)))"

partial_function (option) begin_template_loop ::
  "'g semaphore \<Rightarrow> ('g \<times> 'w) backend \<Rightarrow> nat \<Rightarrow> 'u server_inner \<Rightarrow> database_name \<Rightarrow> template_identity
     \<Rightarrow> template_source \<Rightarrow> int \<Rightarrow> int \<Rightarrow> persistent_client \<Rightarrow> ('g \<times> 'w) io_state
     \<Rightarrow> ('u template_preparation result exec \<times> ('g \<times> 'w) io_state) option" where
  "begin_template_loop sem be unix_now server name identity source key coordination_key persistent s =
     (case begin_template_iteration sem be unix_now server name identity source key coordination_key persistent s of
        (Return (Inr (Some preparation)), t) \<Rightarrow> Some (Return (Inr preparation), t)
      | (Return (Inr None), t) \<Rightarrow>
          begin_template_loop sem be unix_now server name identity source key coordination_key persistent t
      | (Return (Inl e), t) \<Rightarrow> Some (Return (Inl e), t)
      | (Panic m, t) \<Rightarrow> Some (Panic m, t))"

definition begin_template ::
  "(bytes \<Rightarrow> bytes) \<Rightarrow> 'u url_api \<Rightarrow> 'g semaphore \<Rightarrow> ('g \<times> 'w) backend \<Rightarrow> nat \<Rightarrow> 'u server_inner
     \<Rightarrow> database_name \<Rightarrow> template_identity \<Rightarrow> template_source \<Rightarrow> ('g \<times> 'w) io_state
     \<Rightarrow> ('u template_preparation result exec \<times> ('g \<times> 'w) io_state) option" where
  "begin_template sha256 api sem be unix_now server name identity source s =
     (case io_bind (io_exec (template_lock_key sha256 (srv_project server) (id_fingerprint identity))) (\<lambda>key.
           io_bind (io_exec (template_coordination_key sha256 (srv_project server) (id_fingerprint identity)))
             (\<lambda>coordination_key.
           io_bind (connect_admin be (admin_url_as_str api (srv_admin_url server)) (srv_operation_timeout server)
                      ''connect for PostgreSQL template coordination'') (\<lambda>client.
           io_ok (key, coordination_key, PersistentClient_new client)))) s of
        (Return (Inr (key, coordination_key, persistent)), t) \<Rightarrow>
          begin_template_loop sem be unix_now server name identity source key coordination_key persistent t
      | (Return (Inl e), t) \<Rightarrow> Some (Return (Inl e), t)
      | (Panic m, t) \<Rightarrow> Some (Panic m, t))"

section \<open>\<open>get_or_initialize_template\<close>\<close>

text \<open>
  The branch of a caller that owns the initialization, up to the lock session that the new template
  retains. \<open>initialize\<close> is the caller's closure: it runs on the world and returns an error text or
  nothing.
\<close>

definition run_initializer ::
  "('g \<times> 'w) backend \<Rightarrow> 'u url_api \<Rightarrow> nat \<Rightarrow> (string \<Rightarrow> ('g \<times> 'w) io_state \<Rightarrow> (string + unit) \<times> ('g \<times> 'w) io_state)
     \<Rightarrow> 'u template_initialization \<Rightarrow> ('g \<times> 'w, persistent_client) io" where
  "run_initializer be api unix_now initialize initialization s =
     (let url = database_url api (srv_admin_url (ti_server initialization)) (ti_name initialization)
      in case initialize url s of
           (Inr _, s1) \<Rightarrow> run_blocking (initialization_finish be unix_now initialization) s1
         | (Inl initializer, s1) \<Rightarrow>
             (case run_blocking (initialization_abort be initialization) s1 of
                (Return (Inr _), s2) \<Rightarrow> (Return (Inl (TemplateInitializer initializer)), s2)
              | (Return (Inl cleanup), s2) \<Rightarrow>
                  (Return (Inl (TemplateInitializerAndCleanup initializer cleanup)), s2)
              | (Panic m, s2) \<Rightarrow> (Panic m, s2)))"

definition prepare_template ::
  "(bytes \<Rightarrow> bytes) \<Rightarrow> 'u url_api \<Rightarrow> 'g semaphore \<Rightarrow> ('g \<times> 'w) backend \<Rightarrow> nat
     \<Rightarrow> (string \<Rightarrow> ('g \<times> 'w) io_state \<Rightarrow> (string + unit) \<times> ('g \<times> 'w) io_state)
     \<Rightarrow> 'u server_inner \<Rightarrow> template_identity \<Rightarrow> template_source \<Rightarrow> ('g \<times> 'w) io_state
     \<Rightarrow> (persistent_client result exec \<times> ('g \<times> 'w) io_state) option" where
  "prepare_template sha256 api sem be unix_now initialize server identity source s =
     (case DatabaseName_template (srv_project server) (id_fingerprint identity) of
        Panic m \<Rightarrow> Some (Panic m, s)
      | Return name \<Rightarrow>
          (case begin_template sha256 api sem be unix_now server name identity source s of
             None \<Rightarrow> None
           | Some (preparation, s1) \<Rightarrow>
               Some (case blocking_result preparation of
                   Inl e \<Rightarrow> (Return (Inl e), s1)
                 | Inr (Prepared_ready template_lock) \<Rightarrow> (Return (Inr template_lock), s1)
                 | Inr (Prepared_initialize initialization) \<Rightarrow>
                     run_initializer be api unix_now initialize initialization s1)))"

text \<open>
  The end of that branch on the cache: success publishes a new template object, every other exit
  drops the initializer.
\<close>

definition conclude_initialization ::
  "initializer \<Rightarrow> persistent_client result exec \<Rightarrow> nat \<Rightarrow> cache \<Rightarrow> nat result exec \<times> cache" where
  "conclude_initialization cache_initializer outcome inner c =
     (case outcome of
        Return (Inr template_lock) \<Rightarrow>
          (let (t, c') = initializer_publish cache_initializer inner (c\<lparr>ca_alive := inner # ca_alive c\<rparr>)
           in (Return (Inr t), c'))
      | Return (Inl e) \<Rightarrow> (Return (Inl e), initializer_drop cache_initializer c)
      | Panic m \<Rightarrow> (Panic m, initializer_drop cache_initializer c))"

text \<open>
  The whole call. Each time it takes the cache's mutex or is woken, other threads have acted on the
  cache: \<open>turns\<close> lists what they did before each of its turns, and a call whose turns run out has not
  returned. \<open>waiting\<close> is the flight it waits for.
\<close>

fun get_or_initialize_template ::
  "(bytes \<Rightarrow> bytes) \<Rightarrow> 'u url_api \<Rightarrow> 'g semaphore \<Rightarrow> ('g \<times> 'w) backend \<Rightarrow> nat
     \<Rightarrow> (string \<Rightarrow> ('g \<times> 'w) io_state \<Rightarrow> (string + unit) \<times> ('g \<times> 'w) io_state)
     \<Rightarrow> 'u server_inner \<Rightarrow> template_identity \<Rightarrow> template_source \<Rightarrow> nat
     \<Rightarrow> nat option \<Rightarrow> (cache \<Rightarrow> cache) list \<Rightarrow> cache \<Rightarrow> ('g \<times> 'w) io_state
     \<Rightarrow> (nat result exec \<times> cache \<times> ('g \<times> 'w) io_state) option" where
  "get_or_initialize_template sha256 api sem be unix_now initialize server identity source inner waiting [] c s = None"
| "get_or_initialize_template sha256 api sem be unix_now initialize server identity source inner (Some flight)
     (turn # turns) c s =
     (case waiter_wait flight (turn c) of
        None \<Rightarrow>
          get_or_initialize_template sha256 api sem be unix_now initialize server identity source inner (Some flight)
            turns (turn c) s
      | Some (Some template) \<Rightarrow> Some (Return (Inr template), turn c, s)
      | Some None \<Rightarrow>
          get_or_initialize_template sha256 api sem be unix_now initialize server identity source inner None
            turns (turn c) s)"
| "get_or_initialize_template sha256 api sem be unix_now initialize server identity source inner None
     (turn # turns) c s =
     (case template_cache_action (id_fingerprint identity) (turn c) of
        (Act_ready template, c1) \<Rightarrow> Some (Return (Inr template), c1, s)
      | (Act_wait flight, c1) \<Rightarrow>
          get_or_initialize_template sha256 api sem be unix_now initialize server identity source inner (Some flight)
            turns c1 s
      | (Act_initialize cache_initializer, c1) \<Rightarrow>
          (case (prepare_template sha256 api sem be unix_now initialize server identity source s, turns) of
             (Some (outcome, s1), meanwhile # _) \<Rightarrow>
               (let (r, c2) = conclude_initialization cache_initializer outcome inner (meanwhile c1)
                in Some (r, c2, s1))
           | _ \<Rightarrow> None))"

text \<open>
  A call that does not own the initialization sends no request and cannot fail; one that does runs the
  preparation once, from the state in which it was called, and fails only with its error.
\<close>

lemma get_or_initialize_template_once:
  assumes "get_or_initialize_template sha256 api sem be unix_now initialize server identity source inner waiting turns c s
    = Some (r, c', s')"
  shows "(s' = s \<and> (\<exists>template. r = Return (Inr template)))
    \<or> (\<exists>outcome. prepare_template sha256 api sem be unix_now initialize server identity source s = Some (outcome, s')
        \<and> (case outcome of Return (Inr _) \<Rightarrow> \<exists>template. r = Return (Inr template)
             | Return (Inl e) \<Rightarrow> r = Return (Inl e) | Panic m \<Rightarrow> r = Panic m))"
  using assms
proof (induction turns arbitrary: waiting c)
  case (Cons turn turns)
  show ?case
  proof (cases waiting)
    case None
    obtain a c1 where act: "template_cache_action (id_fingerprint identity) (turn c) = (a, c1)" by fastforce
    show ?thesis
    proof (cases a)
      case (Act_initialize i)
      with Cons.prems None act show ?thesis
        by (auto simp: conclude_initialization_def split: option.splits list.splits prod.splits exec.splits sum.splits)
    qed (use Cons None act in auto)
  qed (use Cons in \<open>auto split: option.splits\<close>)
qed simp

end
