(* ===== verification/Demo_Server.thy ===== *)
theory Demo_Server
  imports Templates
begin

text \<open>
  A server that answers every request, for exhibiting concrete runs. The replies to single-row
  queries and to optional-row queries depend on the statement; everything else succeeds. The world
  is whatever the caller brings and never changes.
\<close>

definition agreeable :: "(string \<Rightarrow> sql_row) \<Rightarrow> (string \<Rightarrow> sql_row option) \<Rightarrow> 'w backend" where
  "agreeable one opt = \<lparr>
     be_connect = (\<lambda>url t w. (Connected 1, w)),
     be_batch = (\<lambda>c t q w. (Replied (), w)),
     be_query = (\<lambda>c t q ps w. (Replied [], w)),
     be_query_one = (\<lambda>c t q ps w. (Replied (one q), w)),
     be_query_opt = (\<lambda>c t q ps w. (Replied (opt q), w)),
     be_now = (\<lambda>w. (0, w))\<rparr>"

text \<open>\<open>yields m x\<close>: from every state, \<open>m\<close> succeeds with \<open>x\<close> and leaves the world alone.\<close>

definition yields :: "('w, 'a) io \<Rightarrow> 'a \<Rightarrow> bool" where
  "yields m x \<longleftrightarrow> (\<forall>s. \<exists>t. m s = (Return (Inr x), t) \<and> world t = world s)"

named_theorems yields_intros \<open>successful operations on the agreeable server\<close>

lemma yieldsD: "yields m x \<Longrightarrow> \<exists>t. m s = (Return (Inr x), t) \<and> world t = world s"
  by (simp add: yields_def)

lemma yields_bind: "yields m x \<Longrightarrow> yields (f x) y \<Longrightarrow> yields (io_bind m f) y"
  unfolding yields_def by (metis io_bind_eq(1))

lemma yields_simple [yields_intros]: "yields (io_ok x) x" "yields (io_result (Inr x)) x" "yields (io_exec (Return x)) x"
  by (simp_all add: yields_def)

lemma yields_try: "yields m x \<Longrightarrow> yields (io_try m) (Inr x)"
  unfolding yields_def by (metis io_try_iff)

lemma yields_requests [yields_intros]:
  "yields (batch_execute_with_timeout (agreeable one opt) c t op q) ()"
  "yields (batch_execute (agreeable one opt) c op q) ()"
  "yields (client_query (agreeable one opt) c op q ps) []"
  "yields (query_one (agreeable one opt) c op q ps) (one q)"
  "yields (query_one_with_timeout (agreeable one opt) c t op q ps) (one q)"
  "yields (query_opt (agreeable one opt) c op q ps) (opt q)"
  by (simp_all add: yields_def request_defs agreeable_def run_admin_operation_def)

lemma yields_millis: "int (as_millis d) \<le> i64_max \<Longrightarrow> yields (io_result (duration_millis d)) (as_millis d)"
  by (simp add: duration_millis_def yields_def i64_max_def u64_max_def)

definition small :: "duration \<Rightarrow> bool" where "small d \<longleftrightarrow> int (as_millis d) \<le> i64_max"

lemma small_min: "small a \<Longrightarrow> small (min LOCK_TIMEOUT a)"
  by (auto simp: small_def min_def LOCK_TIMEOUT_def std_defs i64_max_def)

lemma yields_configuration [yields_intros]:
  assumes "small d"
  shows "yields (configure_session_timeouts (agreeable one opt) c d) ()"
    and "yields (configure_coordination_timeouts (agreeable one opt) c d) ()"
  using assms small_min[OF assms]
  by (auto simp: configure_session_timeouts_def configure_session_timeouts_with_timeout_def
      configure_coordination_timeouts_def small_def
      intro!: yields_bind[OF yields_millis] yields_intros)

lemma yields_connect [yields_intros]:
  assumes "small d"
  shows "yields (connect_admin (agreeable one opt) url d what)
    \<lparr>client_session = 1, request_timeout = client_operation_timeout d\<rparr>"
proof -
  have "yields (AdminClient_connect (agreeable one opt) url ct rt what) \<lparr>client_session = 1, request_timeout = rt\<rparr>" for ct rt
    by (simp add: yields_def AdminClient_connect_def agreeable_def)
  then show ?thesis
    unfolding connect_admin_def connect_admin_with_timeout_def
    by (rule yields_bind) (rule yields_bind[OF yields_configuration(1)[OF assms]], rule yields_simple)
qed

lemma yields_locks [yields_intros]:
  assumes "small w" "small d"
  shows "yields (acquire_template_advisory_lock (agreeable one opt) c k w d) ()"
    and "yields (acquire_shared_template_advisory_lock (agreeable one opt) c k w d) ()"
  unfolding acquire_template_advisory_lock_def acquire_shared_template_advisory_lock_def
  by (rule yields_bind[OF yields_configuration(2)[OF assms(1)]], rule yields_bind[OF yields_requests(5)],
      rule yields_configuration(1)[OF assms(2)])+

lemma yields_unlocks [yields_intros]:
  "yields (release_advisory_lock (agreeable one opt) c k) ()"
  "yields (release_shared_advisory_lock (agreeable one opt) c k) ()"
  "yields (acquire_advisory_lock (agreeable one opt) c k) ()"
  unfolding release_advisory_lock_def release_shared_advisory_lock_def acquire_advisory_lock_def
  by (rule yields_bind[OF yields_requests(4)], rule yields_simple)+

text \<open>A catalogue without the name, and one with a given row.\<close>

lemma yields_find_none [yields_intros]:
  "yields (find_database (agreeable one (\<lambda>_. None)) c n) None"
  unfolding find_database_def by (rule yields_bind[OF yields_requests(6)]) (simp add: yields_intros)

lemma yields_find_row:
  assumes "record_of_row row = Return rec"
  shows "yields (find_database (agreeable one (\<lambda>_. Some row)) c n) (Some rec)"
  unfolding find_database_def using assms
  by (intro yields_bind[OF yields_requests(6)]) (auto intro: yields_bind[OF yields_simple(3)] yields_simple)

lemma yields_inspect:
  assumes "small (srv_template_wait_timeout server)" "small (srv_operation_timeout server)"
    and "yields (find_database (agreeable one opt :: 'w backend) c n) rec"
  shows "yields (acquire_and_inspect_shared_template_lock (agreeable one opt :: 'w backend) server c n identity key)
    (template_record_is_ready rec (srv_project server) identity key)"
proof -
  have "yields (template_is_ready (agreeable one opt :: 'w backend) server c n identity key)
      (template_record_is_ready rec (srv_project server) identity key)"
    unfolding template_is_ready_def by (rule yields_bind[OF assms(3)]) (rule yields_simple)
  then show ?thesis
    unfolding acquire_and_inspect_shared_template_lock_def
    by (rule yields_bind[OF yields_locks(2)[OF assms(1,2)] yields_bind])
       (auto intro: yields_simple yields_bind[OF yields_unlocks(2)])
qed

lemma yields_creation:
  fixes s :: "('a \<times> 'w) io_state"
  assumes "\<not> sem_is_closed sem g" "quote_identifier tpl = Inr q" "fst (world s) = g"
  shows "\<exists>t. create_managed_database_classified sem (agreeable one opt) c n tpl md s = (Return (Inr (Inr ())), t)
    \<and> world t = world s"
proof -
  have made: "yields (create_database (agreeable one opt :: ('a \<times> 'w) backend) c n tpl) ()"
    unfolding create_database_def assms(2) by (rule yields_bind[OF yields_simple(2)]) (rule yields_requests(2))
  have tagged: "yields (set_database_metadata (agreeable one opt :: ('a \<times> 'w) backend) c n md) ()"
    unfolding set_database_metadata_def by (rule yields_requests(2))
  obtain u where u: "create_database (agreeable one opt) c n tpl s = (Return (Inr ()), u)" "world u = world s"
    using yieldsD[OF made] by blast
  obtain t where t: "set_database_metadata (agreeable one opt) c n md u = (Return (Inr ()), t)" "world t = world u"
    using yieldsD[OF tagged] by blast
  have "attempt_managed_database_creation (agreeable one opt) c n tpl md s = (Return (Inr (Inr ())), t)" "world t = world s"
    using u t by (simp_all add: attempt_managed_database_creation_def io_bind_def io_try_def)
  with assms(1,3) show ?thesis
    by (auto simp: create_managed_database_classified_def attempt_managed_creation_def ensure_open_def
        creation_operation_def)
qed

section \<open>Values for the instances\<close>

definition demo_server :: "unit server_inner" where
  "demo_server = \<lparr>srv_admin_url = AdminDatabaseUrl (), srv_project = ProjectName ''a'', srv_owner_key = 5,
     srv_operation_timeout = from_secs 2, srv_template_wait_timeout = from_secs 3, srv_stale_after = from_secs 4,
     srv_cleanup_on_start = False,
     srv_connection_limits = \<lparr>connection_budget = 2, connections_per_database = 1\<rparr>, srv_container = None\<rparr>"

definition demo_url_api :: "unit url_api" where
  "demo_url_api = \<lparr>url_parse = (\<lambda>_. Some ()), url_scheme = (\<lambda>_. ''postgres''), url_has_host = (\<lambda>_. True),
     url_path = (\<lambda>_. ''/postgres''), url_set_path = (\<lambda>_ _. ()), url_clear_fragment = (\<lambda>_. ()), url_text = (\<lambda>_. ''u'')\<rparr>"

definition demo_identity :: template_identity where
  "demo_identity = \<lparr>id_fingerprint = demo_fp, id_parent = None\<rparr>"

definition demo_template_name :: database_name where
  "demo_template_name = \<lparr>db_value = ''pgh_a_template_1'', db_kind = Template\<rparr>"

definition demo_sha :: "bytes \<Rightarrow> bytes" where "demo_sha _ = replicate 32 0"

definition demo_io :: "((nat \<times> bool) \<times> unit) io_state" where
  "demo_io = \<lparr>world = ((2, False), ()), trace = []\<rparr>"

lemma demo_small [simp]:
  "small (srv_template_wait_timeout demo_server)" "small (srv_operation_timeout demo_server)"
  by (simp_all add: demo_server_def small_def i64_max_def std_defs)

lemma demo_keys:
  "template_lock_key demo_sha p f = Return 0" "template_coordination_key demo_sha p f = Return 0"
  by (simp_all add: template_lock_key_def template_coordination_key_def advisory_key_def demo_sha_def
      i64_from_be_bytes_def from_be_bytes_def i64_max_def eval_nat_numeral)

end
