(* ===== verification/Request_Invariants.thy ===== *)
theory Request_Invariants
  imports Server
begin

text \<open>
  Predicates on the state that administrative code keeps because its single requests do. The
  interface lists the requests of \<open>Client\<close>; everything built from them inherits preservation. It is
  used for the advisory locks of a session, which only four statements change, and for what a
  server promises about its worlds.
\<close>

section \<open>Preservation\<close>

definition preserves :: "('w io_state \<Rightarrow> bool) \<Rightarrow> ('w, 'a) io \<Rightarrow> bool" where
  "preserves P m \<longleftrightarrow> (\<forall>s r t. m s = (r, t) \<longrightarrow> P s \<longrightarrow> P t)"

named_theorems preserves_intros \<open>preservation by sequencing\<close>

lemma preservesI: "(\<And>s r t. m s = (r, t) \<Longrightarrow> P s \<Longrightarrow> P t) \<Longrightarrow> preserves P m"
  by (auto simp: preserves_def)

lemma preservesD: "preserves P m \<Longrightarrow> m s = (r, t) \<Longrightarrow> P s \<Longrightarrow> P t"
  by (auto simp: preserves_def)

lemma preserves_simple [preserves_intros]:
  "preserves P (io_ok x)" "preserves P (io_err e)" "preserves P (io_result r)" "preserves P (io_exec v)"
  by (simp_all add: preserves_def io_exec_def)

lemma preserves_bind [preserves_intros]:
  assumes "preserves P m" "\<And>x. preserves P (f x)" shows "preserves P (io_bind m f)"
proof (rule preservesI)
  fix s r t assume "io_bind m f s = (r, t)" "P s"
  then show "P t"
    by (cases rule: io_bind_cases) (auto dest: preservesD[OF assms(1)] preservesD[OF assms(2)])
qed

lemma preserves_try [preserves_intros]: "preserves P m \<Longrightarrow> preserves P (io_try m)"
  by (rule preservesI, erule io_try_cases) (auto dest: preservesD)

lemma preserves_if [preserves_intros]: "preserves P m \<Longrightarrow> preserves P m' \<Longrightarrow> preserves P (if b then m else m')"
  by simp

lemma preserves_option [preserves_intros]:
  "preserves P m \<Longrightarrow> (\<And>x. preserves P (f x)) \<Longrightarrow> preserves P (case v of None \<Rightarrow> m | Some x \<Rightarrow> f x)"
  by (cases v) auto

lemma preserves_sum [preserves_intros]:
  "(\<And>x. preserves P (f x)) \<Longrightarrow> (\<And>x. preserves P (g x)) \<Longrightarrow> preserves P (case v of Inl x \<Rightarrow> f x | Inr x \<Rightarrow> g x)"
  by (cases v) auto

section \<open>Requests that take or release advisory locks\<close>

definition LOCK_SQL :: string where "LOCK_SQL = ''SELECT pg_advisory_lock($1)''"
definition LOCK_SHARED_SQL :: string where "LOCK_SHARED_SQL = ''SELECT pg_advisory_lock_shared($1)''"
definition UNLOCK_SQL :: string where "UNLOCK_SQL = ''SELECT pg_advisory_unlock($1)''"
definition UNLOCK_SHARED_SQL :: string where "UNLOCK_SHARED_SQL = ''SELECT pg_advisory_unlock_shared($1)''"

definition lock_statement :: "string \<Rightarrow> bool" where
  "lock_statement q \<longleftrightarrow> q \<in> {LOCK_SQL, LOCK_SHARED_SQL, UNLOCK_SQL, UNLOCK_SHARED_SQL}"

lemmas lock_sql_defs = LOCK_SQL_def LOCK_SHARED_SQL_def UNLOCK_SQL_def UNLOCK_SHARED_SQL_def

section \<open>The interface\<close>

locale request_invariant =
  fixes be :: "'w backend" and P :: "'w io_state \<Rightarrow> bool"
  assumes keep_batch: "be_batch be c t q (world s) = (r, w) \<Longrightarrow> P s \<Longrightarrow>
      P \<lparr>world = w, trace = trace s @ [Batch_event c t q r]\<rparr>"
    and keep_query: "be_query be c t q ps (world s) = (rs, w) \<Longrightarrow> P s \<Longrightarrow>
      P \<lparr>world = w, trace = trace s @ [Query_event c t q ps rs]\<rparr>"
    and keep_query_opt: "be_query_opt be c t q ps (world s) = (ro, w) \<Longrightarrow> P s \<Longrightarrow>
      P \<lparr>world = w, trace = trace s @ [Query_opt_event c t q ps ro]\<rparr>"
    and keep_query_one: "be_query_one be c t q ps (world s) = (r1, w) \<Longrightarrow> \<not> lock_statement q \<Longrightarrow> P s \<Longrightarrow>
      P \<lparr>world = w, trace = trace s @ [Query_one_event c t q ps r1]\<rparr>"
begin

lemma preserves_requests [preserves_intros]:
  "preserves P (batch_execute_with_timeout be c t op q)" "preserves P (batch_execute be c op q)"
  "preserves P (client_query be c op q ps)" "preserves P (query_opt be c op q ps)"
  "\<not> lock_statement q \<Longrightarrow> preserves P (query_one be c op q ps)"
  by (auto simp: preserves_def request_defs Let_def keep_batch keep_query keep_query_opt keep_query_one
      split: prod.splits)

lemma preserves_configuration [preserves_intros]:
  "preserves P (configure_session_timeouts be c op)" "preserves P (configure_coordination_timeouts be c w)"
  by (simp_all add: configure_session_timeouts_def configure_session_timeouts_with_timeout_def
      configure_coordination_timeouts_def preserves_intros)

lemma preserves_databases [preserves_intros]:
  "preserves P (create_database be c n tpl)" "preserves P (drop_database be c n)"
  "preserves P (set_database_metadata be c n md)" "preserves P (find_database be c n)"
  "preserves P (disable_database_connections be c n)"
  by (simp_all add: create_database_def drop_database_def set_database_metadata_def find_database_def
      disable_database_connections_def preserves_intros)

lemma preserves_terminate [preserves_intros]: "preserves P (terminate_database_connections be c n op)"
  unfolding terminate_database_connections_def
  by (intro preserves_intros) (simp add: lock_statement_def lock_sql_defs)

lemma preserves_creation [preserves_intros]:
  "preserves P (attempt_managed_database_creation be c n tpl md)"
  unfolding attempt_managed_database_creation_def compensate_failed_metadata_write_def
  by (intro preserves_intros)

lemma creation_operation_keeps: "creation_operation be c req s = (v, t) \<Longrightarrow> P s \<Longrightarrow> P t"
  by (auto simp: creation_operation_def split: prod.splits exec.splits sum.splits
      dest: preservesD[OF preserves_creation])

end

locale gated_request_invariant = request_invariant be P
  for be :: "('g \<times> 'w) backend" and P :: "('g \<times> 'w) io_state \<Rightarrow> bool" +
  assumes keep_gate: "P s \<Longrightarrow> P (s\<lparr>world := (g, snd (world s))\<rparr>)"
begin

lemma preserves_gated_creation [preserves_intros]:
  "preserves P (create_managed_database_classified sem be c n tpl md)"
proof (rule preservesI)
  fix s r t assume run: "create_managed_database_classified sem be c n tpl md s = (r, t)" and "P s"
  obtain v g u where a: "attempt_managed_creation sem (creation_operation be c (n, tpl, md)) (fst (world s)) s = (v, g, u)"
    by (metis prod_cases3)
  have "P u"
  proof (cases "sem_is_closed sem (fst (world s))")
    case True
    with a \<open>P s\<close> show ?thesis by (simp add: attempt_closed)
  next
    case False
    with a have "creation_operation be c (n, tpl, md) s = (v, u)"
      by (auto simp: attempt_managed_creation_def ensure_open_def split: prod.splits)
    with \<open>P s\<close> show ?thesis by (rule creation_operation_keeps[rotated])
  qed
  with run a show "P t" by (auto simp: create_managed_database_classified_def keep_gate)
qed

end

section \<open>The locks a session holds\<close>

text \<open>
  PostgreSQL's session-level advisory locks: they belong to a connection, a lock that was granted
  several times is held until it has been released as often, and releasing a lock that is not held
  changes nothing. The ledger reads the granted locks of a session off the trace.
\<close>

datatype lock_mode = Exclusive | Shared

type_synonym ledger = "(lock_mode \<times> int) multiset"

definition lock_effect :: "string \<Rightarrow> int \<Rightarrow> ledger \<Rightarrow> ledger" where
  "lock_effect q k l =
     (if q = LOCK_SQL then add_mset (Exclusive, k) l
      else if q = LOCK_SHARED_SQL then add_mset (Shared, k) l
      else if q = UNLOCK_SQL then l - {#(Exclusive, k)#}
      else if q = UNLOCK_SHARED_SQL then l - {#(Shared, k)#}
      else l)"

fun event_locks :: "nat \<Rightarrow> event \<Rightarrow> ledger \<Rightarrow> ledger" where
  "event_locks n (Connect_event u t (Connected m)) l = (if m = n then {#} else l)"
| "event_locks n (Query_one_event m t q [SqlInt k] (Replied row)) l = (if m = n then lock_effect q k l else l)"
| "event_locks n _ l = l"

definition locks :: "nat \<Rightarrow> event list \<Rightarrow> ledger" where
  "locks n tr = fold (event_locks n) tr {#}"

lemma locks_snoc: "locks n (tr @ [e]) = event_locks n e (locks n tr)"
  by (simp add: locks_def)

lemma lock_effect_other: "\<not> lock_statement q \<Longrightarrow> lock_effect q k l = l"
  by (simp add: lock_statement_def lock_effect_def)

lemma event_locks_other: "\<not> lock_statement q \<Longrightarrow> event_locks n (Query_one_event c t q ps r) l = l"
  by (cases "(n, Query_one_event c t q ps r, l)" rule: event_locks.cases) (auto simp: lock_effect_other)

lemma locks_request_invariant:
  fixes be :: "'w backend" shows "request_invariant be (\<lambda>s. locks n (trace s) = l)"
  by unfold_locales (simp_all add: locks_snoc event_locks_other)

interpretation locks_kept: request_invariant be "\<lambda>s. locks n (trace s) = l" for be :: "'w backend" and n l
  by (rule locks_request_invariant)

interpretation gated_locks_kept: gated_request_invariant be "\<lambda>s. locks n (trace s) = l"
  for be :: "('g \<times> 'w) backend" and n l
  by unfold_locales simp

section \<open>Locks taken and released\<close>

lemma query_one_ok_cases:
  assumes "query_one_with_timeout be c tm op q ps s = (Return (Inr row), t)"
  shows "trace t = trace s @ [Query_one_event (client_session c) tm q ps (Replied row)]"
  using assms by (auto simp: query_one_with_timeout_def Let_def run_admin_operation_ok_iff split: prod.splits)

lemma lock_request:
  assumes "query_one_with_timeout be c tm op q [SqlInt k] s = (Return (Inr row), t)"
  shows "locks (client_session c) (trace t) = lock_effect q k (locks (client_session c) (trace s))"
  by (simp add: query_one_ok_cases[OF assms] locks_snoc)

lemma acquire_template_locks:
  assumes "acquire_template_advisory_lock be c k w op s = (Return (Inr x), t)"
  shows "locks (client_session c) (trace t) = add_mset (Exclusive, k) (locks (client_session c) (trace s))"
proof -
  from assms obtain u row v where u: "configure_coordination_timeouts be c w s = (Return (Inr ()), u)"
    and v: "query_one_with_timeout be c (client_operation_timeout w) ''acquire PostgreSQL template advisory lock''
        LOCK_SQL [SqlInt k] u = (Return (Inr row), v)"
    and t: "configure_session_timeouts be c op v = (Return (Inr x), t)"
    by (auto simp: acquire_template_advisory_lock_def io_bind_ok_iff LOCK_SQL_def)
  show ?thesis
    using preservesD[OF locks_kept.preserves_configuration(2) u] lock_request[OF v]
      preservesD[OF locks_kept.preserves_configuration(1) t]
    by (simp add: lock_effect_def)
qed

lemma acquire_shared_template_locks:
  assumes "acquire_shared_template_advisory_lock be c k w op s = (Return (Inr x), t)"
  shows "locks (client_session c) (trace t) = add_mset (Shared, k) (locks (client_session c) (trace s))"
proof -
  from assms obtain u row v where u: "configure_coordination_timeouts be c w s = (Return (Inr ()), u)"
    and v: "query_one_with_timeout be c (client_operation_timeout w)
        ''acquire shared PostgreSQL template advisory lock'' LOCK_SHARED_SQL [SqlInt k] u = (Return (Inr row), v)"
    and t: "configure_session_timeouts be c op v = (Return (Inr x), t)"
    by (auto simp: acquire_shared_template_advisory_lock_def io_bind_ok_iff LOCK_SHARED_SQL_def)
  show ?thesis
    using preservesD[OF locks_kept.preserves_configuration(2) u] lock_request[OF v]
      preservesD[OF locks_kept.preserves_configuration(1) t]
    by (simp add: lock_effect_def lock_sql_defs)
qed

lemma release_locks:
  assumes "release_advisory_lock be c k s = (Return (Inr x), t)"
  shows "locks (client_session c) (trace t) = locks (client_session c) (trace s) - {#(Exclusive, k)#}"
  using assms
  by (auto simp: release_advisory_lock_def query_one_def io_bind_ok_iff lock_effect_def lock_sql_defs dest!: lock_request)

lemma release_shared_locks:
  assumes "release_shared_advisory_lock be c k s = (Return (Inr x), t)"
  shows "locks (client_session c) (trace t) = locks (client_session c) (trace s) - {#(Shared, k)#}"
  using assms
  by (auto simp: release_shared_advisory_lock_def query_one_def io_bind_ok_iff lock_effect_def lock_sql_defs dest!: lock_request)

lemma connect_admin_locks:
  assumes "connect_admin be url op what s = (Return (Inr c), t)"
  shows "locks (client_session c) (trace t) = {#}"
proof -
  from assms obtain u where u: "AdminClient_connect be url CONNECT_TIMEOUT (client_operation_timeout op) what s = (Return (Inr c), u)"
    and t: "configure_session_timeouts be c op u = (Return (Inr ()), t)"
    by (auto simp: connect_admin_def connect_admin_with_timeout_def io_bind_ok_iff)
  have "locks (client_session c) (trace u) = {#}"
    using u by (auto simp: AdminClient_connect_def Let_def locks_snoc split: prod.splits connect_reply.splits)
  with preservesD[OF locks_kept.preserves_configuration(1) t] show ?thesis by blast
qed

end
