(* ===== verification/Template_Properties.thy ===== *)
theory Template_Properties
  imports Demo_Server Request_Invariants
begin

text \<open>
  The lock protocol of template coordination: which locks a session holds when
  \<open>begin_template\<close> hands it out, what \<open>finish\<close> and \<open>abort\<close> leave, and when the loop ends.
\<close>

section \<open>Readings under the lock\<close>

text \<open>
  The trace ends with a catalogue reading that shows the ready template, made while the session held
  the shared lock, and the lock was held ever since.
\<close>

definition FIND_SQL :: string where
  "FIND_SQL = ''SELECT datname, shobj_description(oid, 'pg_database') FROM pg_database WHERE datname = $1''"

definition ready_reading ::
  "project_name \<Rightarrow> database_name \<Rightarrow> template_identity \<Rightarrow> int \<Rightarrow> nat \<Rightarrow> event \<Rightarrow> bool" where
  "ready_reading project name identity key n e \<longleftrightarrow>
     (\<exists>tm row rec. e = Query_opt_event n tm FIND_SQL [SqlText (db_value name)] (Replied (Some row))
        \<and> record_of_row row = Return rec \<and> template_record_is_ready (Some rec) project identity key)"

definition ready_under_lock ::
  "project_name \<Rightarrow> database_name \<Rightarrow> template_identity \<Rightarrow> int \<Rightarrow> nat \<Rightarrow> event list \<Rightarrow> bool" where
  "ready_under_lock project name identity key n tr \<longleftrightarrow>
     (\<exists>before e after. tr = before @ e # after \<and> ready_reading project name identity key n e
        \<and> (\<forall>k \<le> Suc (length after). (Shared, key) \<in># locks n (before @ take k (e # after))))"

lemma ready_under_lock_now:
  assumes "ready_reading project name identity key n e" "(Shared, key) \<in># locks n tr"
  shows "ready_under_lock project name identity key n (tr @ [e])"
proof -
  have "event_locks n e l = l" for l using assms(1) by (auto simp: ready_reading_def)
  then have "(Shared, key) \<in># locks n (tr @ take k [e])" for k
    using assms(2) by (cases k) (simp_all add: locks_snoc)
  then show ?thesis using assms(1) unfolding ready_under_lock_def by blast
qed

lemma ready_under_lock_snoc:
  assumes "ready_under_lock project name identity key n tr" "(Shared, key) \<in># locks n (tr @ [e])"
  shows "ready_under_lock project name identity key n (tr @ [e])"
proof -
  from assms(1) obtain b r a where tr: "tr = b @ r # a" "ready_reading project name identity key n r"
    and held: "\<And>k. k \<le> Suc (length a) \<Longrightarrow> (Shared, key) \<in># locks n (b @ take k (r # a))"
    unfolding ready_under_lock_def by blast
  have "(Shared, key) \<in># locks n (b @ take k (r # a @ [e]))" if "k \<le> Suc (length (a @ [e]))" for k
  proof (cases "k \<le> Suc (length a)")
    case True
    then have "take k (r # a @ [e]) = take k (r # a)" by (cases k) simp_all
    with held[OF True] show ?thesis by simp
  next
    case False
    with that have "take k (r # a @ [e]) = r # a @ [e]" by simp
    with assms(2) tr(1) show ?thesis by simp
  qed
  with tr show ?thesis unfolding ready_under_lock_def
    by (intro exI[of _ b] exI[of _ r] exI[of _ "a @ [e]"]) simp
qed

section \<open>Parts of an iteration\<close>

lemma find_database_ok:
  assumes "find_database be c name s = (Return (Inr rec), t)"
  obtains row where "be_query_opt be (client_session c) (request_timeout c) FIND_SQL [SqlText (db_value name)] (world s)
      = (Replied row, world t)"
    and "trace t = trace s @ [Query_opt_event (client_session c) (request_timeout c) FIND_SQL
      [SqlText (db_value name)] (Replied row)]"
    and "case row of None \<Rightarrow> rec = None | Some x \<Rightarrow> \<exists>y. record_of_row x = Return y \<and> rec = Some y"
proof -
  from assms obtain row u where
    q: "query_opt be c ''find disposable PostgreSQL database'' FIND_SQL [SqlText (db_value name)] s = (Return (Inr row), u)"
    and rest: "(case row of None \<Rightarrow> io_ok None
       | Some r \<Rightarrow> io_bind (io_exec (record_of_row r)) (\<lambda>rec. io_ok (Some rec))) u = (Return (Inr rec), t)"
    unfolding find_database_def FIND_SQL_def io_bind_ok_iff by blast
  from rest have "u = t" "case row of None \<Rightarrow> rec = None | Some x \<Rightarrow> \<exists>y. record_of_row x = Return y \<and> rec = Some y"
    by (auto simp: io_bind_ok_iff io_exec_def split: option.splits exec.splits)
  with q that show thesis
    by (auto simp: query_opt_def Let_def run_admin_operation_ok_iff split: prod.splits)
qed

lemma template_is_ready_true:
  assumes "template_is_ready be server c name identity key s = (Return (Inr True), t)"
  shows "\<exists>e. trace t = trace s @ [e] \<and> ready_reading (srv_project server) name identity key (client_session c) e"
proof -
  from assms obtain rec where find: "find_database be c name s = (Return (Inr rec), t)"
    and ready: "template_record_is_ready rec (srv_project server) identity key"
    by (auto simp: template_is_ready_def io_bind_ok_iff)
  from ready obtain r where r: "rec = Some r" by (cases rec) (auto simp: template_record_is_ready_def)
  from find show ?thesis
    by (rule find_database_ok) (use r ready in \<open>auto simp: ready_reading_def split: option.splits\<close>)
qed

lemma template_is_ready_locks: "preserves (\<lambda>s. locks n (trace s) = l) (template_is_ready be server c name identity key)"
  unfolding template_is_ready_def by (intro preserves_intros)

lemma inspect_locks:
  assumes run: "acquire_and_inspect_shared_template_lock be server c name identity key s = (Return (Inr ready), t)"
  shows "locks (client_session c) (trace t) =
      (if ready then add_mset (Shared, key) (locks (client_session c) (trace s)) else locks (client_session c) (trace s))"
    and "ready \<Longrightarrow> ready_under_lock (srv_project server) name identity key (client_session c) (trace t)"
proof -
  let ?n = "client_session c"
  from run obtain u r v where
    u: "acquire_shared_template_advisory_lock be c key (srv_template_wait_timeout server)
      (srv_operation_timeout server) s = (Return (Inr ()), u)"
    and v: "template_is_ready be server c name identity key u = (Return (Inr r), v)"
    and rest: "(if r then io_ok True else io_bind (release_shared_advisory_lock be c key) (\<lambda>_. io_ok False)) v
      = (Return (Inr ready), t)"
    by (auto simp: acquire_and_inspect_shared_template_lock_def io_bind_ok_iff)
  have lu: "locks ?n (trace u) = add_mset (Shared, key) (locks ?n (trace s))" by (rule acquire_shared_template_locks[OF u])
  have lv: "locks ?n (trace v) = locks ?n (trace u)"
    using preservesD[OF template_is_ready_locks v] by blast
  show "locks ?n (trace t) =
      (if ready then add_mset (Shared, key) (locks ?n (trace s)) else locks ?n (trace s))"
    using rest lu lv by (auto simp: io_bind_ok_iff dest!: release_shared_locks split: if_splits)
  show "ready_under_lock (srv_project server) name identity key ?n (trace t)" if ready
  proof -
    have "r" "t = v" using rest that by (auto simp: io_bind_ok_iff split: if_splits)
    with template_is_ready_true[of be server c name identity key u v] v obtain e where
      "trace v = trace u @ [e]" "ready_reading (srv_project server) name identity key ?n e" by auto
    with ready_under_lock_now lu \<open>t = v\<close> show ?thesis by simp
  qed
qed

lemma release_keeps_ready:
  assumes "release_advisory_lock be c k s = (Return (Inr x), t)"
    and "ready_under_lock project name identity key (client_session c) (trace s)"
    and "(Shared, key) \<in># locks (client_session c) (trace s)"
  shows "ready_under_lock project name identity key (client_session c) (trace t)"
proof -
  have "(Shared, key) \<in># locks (client_session c) (trace t)"
    using release_locks[OF assms(1)] assms(3) by (simp add: in_diff_count)
  moreover obtain e where "trace t = trace s @ [e]"
    using assms(1) by (auto simp: release_advisory_lock_def query_one_def io_bind_ok_iff dest!: query_one_ok_cases)
  ultimately show ?thesis using ready_under_lock_snoc[OF assms(2)] by simp
qed

lemma replace_unfinished_locks:
  "preserves (\<lambda>s. locks n (trace s) = l) (replace_unfinished_template be server c name identity key)"
  unfolding replace_unfinished_template_def by (intro preserves_intros)

lemma create_initializing_locks:
  "preserves (\<lambda>s. locks n (trace s) = l) (create_initializing_template sem be now server c name identity source key)"
  unfolding create_initializing_template_def by (intro preserves_intros)

section \<open>One iteration\<close>

definition prepared_ok ::
  "'u server_inner \<Rightarrow> database_name \<Rightarrow> template_identity \<Rightarrow> int \<Rightarrow> int \<Rightarrow> persistent_client \<Rightarrow> admin_client
     \<Rightarrow> ledger \<Rightarrow> event list \<Rightarrow> 'u template_preparation \<Rightarrow> bool" where
  "prepared_ok server name identity key coordination_key persistent c l tr preparation =
     (case preparation of
        Prepared_ready held \<Rightarrow> held = persistent
          \<and> locks (client_session c) tr = add_mset (Shared, key) l
          \<and> ready_under_lock (srv_project server) name identity key (client_session c) tr
      | Prepared_initialize i \<Rightarrow>
          i = \<lparr>ti_server = server, ti_name = name, ti_identity = identity, ti_lock_key = key,
               ti_coordination_key = coordination_key, ti_exclusive_lock = persistent\<rparr>
          \<and> locks (client_session c) tr = l + {#(Exclusive, key), (Exclusive, coordination_key)#})"

lemma exclusive_part_locks:
  assumes run: "iteration_under_exclusive_lock sem be now server name identity source key ck persistent c s = (Return (Inr r), t)"
    and held: "locks (client_session c) (trace s) = l + {#(Exclusive, key), (Exclusive, ck)#}"
  shows "case r of
      None \<Rightarrow> locks (client_session c) (trace t) = l
    | Some preparation \<Rightarrow> prepared_ok server name identity key ck persistent c l (trace t) preparation"
proof -
  let ?n = "client_session c"
  from run obtain b u where u: "template_is_ready be server c name identity key s = (Return (Inr b), u)"
    and rest: "(if b then
       io_bind (release_advisory_lock be c key) (\<lambda>_.
       io_bind (acquire_and_inspect_shared_template_lock be server c name identity key) (\<lambda>ready.
       io_bind (release_advisory_lock be c ck) (\<lambda>_.
       io_ok (if ready then Some (Prepared_ready persistent) else None))))
     else
       io_bind (replace_unfinished_template be server c name identity key) (\<lambda>_.
       io_bind (create_initializing_template sem be now server c name identity source key) (\<lambda>_.
       io_ok (Some (Prepared_initialize
         \<lparr>ti_server = server, ti_name = name, ti_identity = identity, ti_lock_key = key,
          ti_coordination_key = ck, ti_exclusive_lock = persistent\<rparr>))))) u = (Return (Inr r), t)"
    unfolding iteration_under_exclusive_lock_def io_bind_ok_iff by blast
  have lu: "locks ?n (trace u) = l + {#(Exclusive, key), (Exclusive, ck)#}"
    using preservesD[OF template_is_ready_locks u] held by blast
  show ?thesis
  proof (cases b)
    case True
    with rest obtain v ready w where v: "release_advisory_lock be c key u = (Return (Inr ()), v)"
      and w: "acquire_and_inspect_shared_template_lock be server c name identity key v = (Return (Inr ready), w)"
      and t: "release_advisory_lock be c ck w = (Return (Inr ()), t)"
      and r: "r = (if ready then Some (Prepared_ready persistent) else None)"
      by (auto simp: io_bind_ok_iff)
    have "ready_under_lock (srv_project server) name identity key ?n (trace t)" if ready
      by (rule release_keeps_ready[OF t inspect_locks(2)[OF w that]]) (simp add: inspect_locks(1)[OF w] that)
    with release_locks[OF t] inspect_locks(1)[OF w] release_locks[OF v] lu r
    show ?thesis by (cases ready) (simp_all add: prepared_ok_def)
  next
    case False
    with rest obtain v where v: "replace_unfinished_template be server c name identity key u = (Return (Inr ()), v)"
      and t: "create_initializing_template sem be now server c name identity source key v = (Return (Inr ()), t)"
      and r: "r = Some (Prepared_initialize
         \<lparr>ti_server = server, ti_name = name, ti_identity = identity, ti_lock_key = key,
          ti_coordination_key = ck, ti_exclusive_lock = persistent\<rparr>)"
      by (auto simp: io_bind_ok_iff)
    have "locks ?n (trace t) = l + {#(Exclusive, key), (Exclusive, ck)#}"
      using preservesD[OF create_initializing_locks t preservesD[OF replace_unfinished_locks v lu]] .
    with r show ?thesis by (simp add: prepared_ok_def)
  qed
qed

lemma coordination_part_locks:
  assumes run: "iteration_under_coordination_lock sem be now server name identity source key ck persistent c s = (Return (Inr r), t)"
    and held: "locks (client_session c) (trace s) = add_mset (Exclusive, ck) l"
  shows "case r of
      None \<Rightarrow> locks (client_session c) (trace t) = l
    | Some preparation \<Rightarrow> prepared_ok server name identity key ck persistent c l (trace t) preparation"
proof -
  let ?n = "client_session c"
  from run obtain b u where u: "acquire_and_inspect_shared_template_lock be server c name identity key s = (Return (Inr b), u)"
    and rest: "(if b then io_bind (release_advisory_lock be c ck) (\<lambda>_. io_ok (Some (Prepared_ready persistent)))
     else
       io_bind (acquire_template_advisory_lock be c key
                  (srv_template_wait_timeout server) (srv_operation_timeout server)) (\<lambda>_.
       iteration_under_exclusive_lock sem be now server name identity source key ck persistent c)) u = (Return (Inr r), t)"
    unfolding iteration_under_coordination_lock_def io_bind_ok_iff by blast
  note lu = inspect_locks[OF u]
  show ?thesis
  proof (cases b)
    case True
    with rest have rel: "release_advisory_lock be c ck u = (Return (Inr ()), t)" and r: "r = Some (Prepared_ready persistent)"
      by (auto simp: io_bind_ok_iff)
    have "ready_under_lock (srv_project server) name identity key ?n (trace t)"
      by (rule release_keeps_ready[OF rel lu(2)[OF True]]) (simp add: lu(1) True)
    with release_locks[OF rel] lu(1) held True r show ?thesis by (simp add: prepared_ok_def)
  next
    case False
    with rest obtain v where v: "acquire_template_advisory_lock be c key
          (srv_template_wait_timeout server) (srv_operation_timeout server) u = (Return (Inr ()), v)"
      and t: "iteration_under_exclusive_lock sem be now server name identity source key ck persistent c v = (Return (Inr r), t)"
      by (auto simp: io_bind_ok_iff)
    have "locks ?n (trace v) = l + {#(Exclusive, key), (Exclusive, ck)#}"
      using acquire_template_locks[OF v] lu(1) False held by simp
    from exclusive_part_locks[OF t this] show ?thesis .
  qed
qed

lemma iteration_locks:
  assumes p: "persistent_client_mut persistent = Return c"
    and run: "begin_template_iteration sem be now server name identity source key ck persistent s = (Return (Inr r), t)"
    and held: "locks (client_session c) (trace s) = l"
  shows "case r of
      None \<Rightarrow> locks (client_session c) (trace t) = l
    | Some preparation \<Rightarrow> prepared_ok server name identity key ck persistent c l (trace t) preparation"
proof -
  from run p obtain b u where u: "acquire_and_inspect_shared_template_lock be server c name identity key s = (Return (Inr b), u)"
    and rest: "(if b then io_ok (Some (Prepared_ready persistent))
     else
       io_bind (acquire_template_advisory_lock be c ck
                  (srv_template_wait_timeout server) (srv_operation_timeout server)) (\<lambda>_.
       iteration_under_coordination_lock sem be now server name identity source key ck persistent c)) u = (Return (Inr r), t)"
    unfolding begin_template_iteration_def io_bind_ok_iff by auto
  note lu = inspect_locks[OF u]
  show ?thesis
  proof (cases b)
    case True
    with rest lu held show ?thesis by (auto simp: prepared_ok_def)
  next
    case False
    with rest obtain v where v: "acquire_template_advisory_lock be c ck
          (srv_template_wait_timeout server) (srv_operation_timeout server) u = (Return (Inr ()), v)"
      and t: "iteration_under_coordination_lock sem be now server name identity source key ck persistent c v = (Return (Inr r), t)"
      by (auto simp: io_bind_ok_iff)
    have "locks (client_session c) (trace v) = add_mset (Exclusive, ck) l"
      using acquire_template_locks[OF v] lu(1) False held by simp
    from coordination_part_locks[OF t this] show ?thesis .
  qed
qed

section \<open>The loop\<close>

lemma loop_locks:
  assumes ret: "begin_template_loop sem be now server name identity source key ck persistent s = Some (Return (Inr preparation), t)"
    and "persistent_client_mut persistent = Return c" "locks (client_session c) (trace s) = l"
  shows "prepared_ok server name identity key ck persistent c l (trace t) preparation"
proof -
  have "\<forall>preparation t. y = (Return (Inr preparation), t) \<longrightarrow> persistent_client_mut persistent = Return c \<longrightarrow>
      locks (client_session c) (trace s) = l \<longrightarrow>
      prepared_ok server name identity key ck persistent c l (trace t) preparation"
    if "begin_template_loop sem be now server name identity source key ck persistent s = Some y" for y
  proof (rule begin_template_loop.raw_induct
      [where P = "\<lambda>sem be now server name identity source key ck persistent s y.
        \<forall>preparation t. y = (Return (Inr preparation), t) \<longrightarrow> persistent_client_mut persistent = Return c \<longrightarrow>
          locks (client_session c) (trace s) = l \<longrightarrow>
          prepared_ok server name identity key ck persistent c l (trace t) preparation", OF _ that], goal_cases)
    case (1 f sem be now server name identity source key ck persistent s y)
    show ?case
    proof (intro allI impI)
      fix preparation t
      assume y: "y = (Return (Inr preparation), t)" and p: "persistent_client_mut persistent = Return c"
        and l: "locks (client_session c) (trace s) = l"
      obtain o1 u where o1: "begin_template_iteration sem be now server name identity source key ck persistent s = (o1, u)"
        by fastforce
      with 1(2) y consider
          (stop) "o1 = Return (Inr (Some preparation))" "u = t"
        | (again) "o1 = Return (Inr None)" "f sem be now server name identity source key ck persistent u = Some y"
        by (auto split: exec.splits sum.splits option.splits)
      then show "prepared_ok server name identity key ck persistent c l (trace t) preparation"
      proof cases
        case stop
        with iteration_locks[OF p _ l] o1 show ?thesis by fastforce
      next
        case again
        with iteration_locks[OF p _ l] o1 have "locks (client_session c) (trace u) = l" by fastforce
        with 1(1)[OF again(2)] y p show ?thesis by blast
      qed
    qed
  qed
  with assms show ?thesis by blast
qed

section \<open>When the loop ends\<close>

text \<open>
  \<open>stays_ready be R\<close>: the worlds in \<open>R\<close> are those in which the template has been published for
  good. No request leaves \<open>R\<close>, a reading that shows the ready template is made in \<open>R\<close>, and every
  reading in \<open>R\<close> shows it.
\<close>

definition reads_ready :: "project_name \<Rightarrow> template_identity \<Rightarrow> int \<Rightarrow> sql_row option \<Rightarrow> bool" where
  "reads_ready project identity key row \<longleftrightarrow>
     (\<exists>r rec. row = Some r \<and> record_of_row r = Return rec \<and> template_record_is_ready (Some rec) project identity key)"

definition stays_ready ::
  "'w backend \<Rightarrow> ('w \<Rightarrow> bool) \<Rightarrow> project_name \<Rightarrow> database_name \<Rightarrow> template_identity \<Rightarrow> int \<Rightarrow> bool" where
  "stays_ready be R project name identity key \<longleftrightarrow>
     (\<forall>c t q w. R w \<longrightarrow> R (snd (be_batch be c t q w)))
   \<and> (\<forall>c t q ps w. R w \<longrightarrow> R (snd (be_query_one be c t q ps w)))
   \<and> (\<forall>c t q w row w'. be_query_opt be c t q [SqlText (db_value name)] w = (Replied row, w') \<longrightarrow>
        (reads_ready project identity key row \<longrightarrow> R w') \<and> (R w \<longrightarrow> reads_ready project identity key row))"

lemma stays_ready_batch:
  assumes "stays_ready be R project name identity key"
  shows "preserves (\<lambda>s. R (world s)) (batch_execute_with_timeout be c t op q)"
proof (rule preservesI)
  fix s r u assume "batch_execute_with_timeout be c t op q s = (r, u)" "R (world s)"
  moreover have "R w \<Longrightarrow> R (snd (be_batch be c t q w))" for c t q w using assms by (simp add: stays_ready_def)
  ultimately show "R (world u)"
    by (auto simp: batch_execute_with_timeout_def Let_def split: prod.splits) (metis snd_conv)
qed

lemma stays_ready_query_one:
  assumes "stays_ready be R project name identity key"
  shows "preserves (\<lambda>s. R (world s)) (query_one_with_timeout be c t op q ps)"
proof (rule preservesI)
  fix s r u assume "query_one_with_timeout be c t op q ps s = (r, u)" "R (world s)"
  moreover have "R w \<Longrightarrow> R (snd (be_query_one be c t q ps w))" for c t q ps w using assms by (simp add: stays_ready_def)
  ultimately show "R (world u)"
    by (auto simp: query_one_with_timeout_def Let_def split: prod.splits) (metis snd_conv)
qed

lemma stays_ready_acquire_shared:
  assumes "stays_ready be R project name identity key"
  shows "preserves (\<lambda>s. R (world s)) (acquire_shared_template_advisory_lock be c k w op)"
  unfolding acquire_shared_template_advisory_lock_def configure_coordination_timeouts_def batch_execute_def
    configure_session_timeouts_def configure_session_timeouts_with_timeout_def
  by (intro preserves_intros stays_ready_batch[OF assms] stays_ready_query_one[OF assms])

lemma stays_ready_release:
  assumes "stays_ready be R project name identity key"
  shows "preserves (\<lambda>s. R (world s)) (release_advisory_lock be c k)"
  unfolding release_advisory_lock_def query_one_def
  by (intro preserves_intros stays_ready_query_one[OF assms])

lemma template_is_ready_reads:
  assumes st: "stays_ready be R (srv_project server) name identity key"
    and run: "template_is_ready be server c name identity key s = (Return (Inr b), t)"
  shows "b \<Longrightarrow> R (world t)" and "R (world s) \<Longrightarrow> b"
proof -
  from run obtain rec where find: "find_database be c name s = (Return (Inr rec), t)"
    and b: "b = template_record_is_ready rec (srv_project server) identity key"
    by (auto simp: template_is_ready_def io_bind_ok_iff)
  from find obtain row where row: "be_query_opt be (client_session c) (request_timeout c) FIND_SQL
      [SqlText (db_value name)] (world s) = (Replied row, world t)"
    and rec: "case row of None \<Rightarrow> rec = None | Some x \<Rightarrow> \<exists>y. record_of_row x = Return y \<and> rec = Some y"
    by (rule find_database_ok)
  from rec b have "b = reads_ready (srv_project server) identity key row"
    by (auto simp: reads_ready_def template_record_is_ready_def split: option.splits)
  with st row show "b \<Longrightarrow> R (world t)" "R (world s) \<Longrightarrow> b" unfolding stays_ready_def by blast+
qed

lemma inspect_reads:
  assumes st: "stays_ready be R (srv_project server) name identity key"
    and run: "acquire_and_inspect_shared_template_lock be server c name identity key s = (Return (Inr b), t)" "R (world s)"
  shows b
proof -
  from run(1) obtain u r v where
    u: "acquire_shared_template_advisory_lock be c key (srv_template_wait_timeout server)
      (srv_operation_timeout server) s = (Return (Inr ()), u)"
    and v: "template_is_ready be server c name identity key u = (Return (Inr r), v)"
    and rest: "(if r then io_ok True else io_bind (release_shared_advisory_lock be c key) (\<lambda>_. io_ok False)) v
      = (Return (Inr b), t)"
    by (auto simp: acquire_and_inspect_shared_template_lock_def io_bind_ok_iff)
  have "R (world u)" using preservesD[OF stays_ready_acquire_shared[OF st] u run(2)] .
  with template_is_ready_reads(2)[OF st v] rest show ?thesis by simp
qed

lemma iteration_concludes:
  assumes st: "stays_ready be R (srv_project server) name identity key"
  shows "begin_template_iteration sem be now server name identity source key ck persistent s \<noteq> (Return (Inr None), t)"
proof
  assume "begin_template_iteration sem be now server name identity source key ck persistent s = (Return (Inr None), t)"
  then obtain c u where "iteration_under_exclusive_lock sem be now server name identity source key ck persistent c u
      = (Return (Inr None), t)"
    by (auto simp: begin_template_iteration_def iteration_under_coordination_lock_def io_bind_ok_iff split: if_splits)
  then obtain v w x where v: "template_is_ready be server c name identity key u = (Return (Inr True), v)"
    and w: "release_advisory_lock be c key v = (Return (Inr ()), w)"
    and x: "acquire_and_inspect_shared_template_lock be server c name identity key w = (Return (Inr False), x)"
    by (auto simp: iteration_under_exclusive_lock_def io_bind_ok_iff split: if_splits)
  have "R (world v)" using template_is_ready_reads(1)[OF st v] by simp
  then have "R (world w)" by (rule preservesD[OF stays_ready_release[OF st] w])
  from inspect_reads[OF st x this] show False .
qed

section \<open>Publication and abandonment\<close>

lemma finish_steps:
  assumes "initialization_finish be now i s = (Return (Inr held), t)"
    and "persistent_client_mut (ti_exclusive_lock i) = Return c"
  obtains s1 s2 s3 s4 s5 where "disable_database_connections be c (ti_name i) s = (Return (Inr ()), s1)"
    and "terminate_database_connections be c (ti_name i) (srv_operation_timeout (ti_server i)) s1 = (Return (Inr ()), s2)"
    and "set_database_metadata be c (ti_name i) (ResourceMetadata_template now (srv_project (ti_server i))
      (ti_lock_key i) (ti_identity i) Ready) s2 = (Return (Inr ()), s3)"
    and "release_advisory_lock be c (ti_lock_key i) s3 = (Return (Inr ()), s4)"
    and "acquire_and_inspect_shared_template_lock be (ti_server i) c (ti_name i) (ti_identity i) (ti_lock_key i) s4
      = (Return (Inr True), s5)"
    and "release_advisory_lock be c (ti_coordination_key i) s5 = (Return (Inr ()), t)"
    and "held = ti_exclusive_lock i"
  using assms by (auto simp: initialization_finish_def Let_def io_bind_ok_iff split: if_splits)

lemma batch_ok_trace:
  "batch_execute be c op q s = (Return (Inr x), t) \<Longrightarrow>
     trace t = trace s @ [Batch_event (client_session c) (request_timeout c) q (Replied ())]"
  by (erule batch_execute_cases) (auto simp: run_admin_operation_def split: reply.splits)

lemma inspect_appends: "appends (acquire_and_inspect_shared_template_lock be server c n identity key)"
  unfolding acquire_and_inspect_shared_template_lock_def acquire_shared_template_advisory_lock_def
    configure_coordination_timeouts_def configure_session_timeouts_def configure_session_timeouts_with_timeout_def
    template_is_ready_def find_database_def release_shared_advisory_lock_def
  by (intro appends_intros) (auto intro!: appends_intros split: option.splits)

lemma release_ok_trace:
  assumes "release_advisory_lock be c k s = (Return (Inr x), t)"
  shows "\<exists>row. trace t = trace s @ [Query_one_event (client_session c) (request_timeout c) UNLOCK_SQL [SqlInt k] (Replied row)]"
  using assms
  by (auto simp: release_advisory_lock_def query_one_def io_bind_ok_iff UNLOCK_SQL_def dest!: query_one_ok_cases)

lemma release_any_trace:
  assumes "release_advisory_lock be c k s = (r, t)"
  shows "\<exists>reply. trace t = trace s @ [Query_one_event (client_session c) (request_timeout c) UNLOCK_SQL [SqlInt k] reply]
     \<and> r = Return (map_sum id (\<lambda>_. ()) (run_admin_operation (request_timeout c) ''release PostgreSQL advisory lock'' reply))"
  using assms
  by (auto simp: release_advisory_lock_def query_one_def query_one_with_timeout_def io_bind_def Let_def UNLOCK_SQL_def
      split: prod.splits sum.splits exec.splits)

lemma abort_trace:
  assumes c: "persistent_client_mut (ti_exclusive_lock i) = Return c"
    and run: "initialization_abort be i s = (r, t)"
  obtains r1 r2 r3 where "trace t = trace s @
      [Batch_event (client_session c) (request_timeout c) (drop_sql (ti_name i)) r1,
       Query_one_event (client_session c) (request_timeout c) UNLOCK_SQL [SqlInt (ti_lock_key i)] r2,
       Query_one_event (client_session c) (request_timeout c) UNLOCK_SQL [SqlInt (ti_coordination_key i)] r3]"
    and "\<exists>v. r = Return v \<and> (v = Inr () \<longleftrightarrow> r1 = Replied () \<and> (\<exists>x. r2 = Replied x) \<and> (\<exists>x. r3 = Replied x))"
proof -
  obtain d1 s1 where d: "drop_database be c (ti_name i) s = (d1, s1)" by fastforce
  obtain u1 s2 where u: "release_advisory_lock be c (ti_lock_key i) s1 = (u1, s2)" by fastforce
  obtain w1 s3 where w: "release_advisory_lock be c (ti_coordination_key i) s2 = (w1, s3)" by fastforce
  from d obtain r1 where r1: "trace s1 = trace s @ [Batch_event (client_session c) (request_timeout c) (drop_sql (ti_name i)) r1]"
    "d1 = Return (run_admin_operation (request_timeout c) ''drop disposable PostgreSQL database'' r1)"
    unfolding drop_database_def by (auto elim: batch_execute_cases)
  obtain r2 where r2: "trace s2 = trace s1 @ [Query_one_event (client_session c) (request_timeout c) UNLOCK_SQL [SqlInt (ti_lock_key i)] r2]"
    "u1 = Return (map_sum id (\<lambda>_. ()) (run_admin_operation (request_timeout c) ''release PostgreSQL advisory lock'' r2))"
    using release_any_trace[OF u] by blast
  obtain r3 where r3: "trace s3 = trace s2 @ [Query_one_event (client_session c) (request_timeout c) UNLOCK_SQL [SqlInt (ti_coordination_key i)] r3]"
    "w1 = Return (map_sum id (\<lambda>_. ()) (run_admin_operation (request_timeout c) ''release PostgreSQL advisory lock'' r3))"
    using release_any_trace[OF w] by blast
  have "t = s3" "r = Return (bind_result (bind_result (run_admin_operation (request_timeout c)
      ''drop disposable PostgreSQL database'' r1) (\<lambda>_. map_sum id (\<lambda>_. ()) (run_admin_operation (request_timeout c)
      ''release PostgreSQL advisory lock'' r2))) (\<lambda>_. map_sum id (\<lambda>_. ()) (run_admin_operation (request_timeout c)
      ''release PostgreSQL advisory lock'' r3)))"
    using run c d u w r1(2) r2(2) r3(2) by (auto simp: initialization_abort_def io_bind_def io_try_def)
  with r1(1) r2(1) r3(1) that show thesis
    by (cases r1; cases r2; cases r3) (auto simp: run_admin_operation_def)
qed

section \<open>A run on the agreeable server\<close>

definition demo_be :: "((nat \<times> bool) \<times> unit) backend" where
  "demo_be = agreeable (\<lambda>_. [SqlBool False]) (\<lambda>_. None)"

lemma demo_not_ready: "template_record_is_ready None p i k = False"
  by (simp add: template_record_is_ready_def)

lemma demo_inspect:
  "yields (acquire_and_inspect_shared_template_lock demo_be demo_server c n identity key) False"
  using yields_inspect[OF demo_small yields_find_none, of "\<lambda>_. [SqlBool False]" c n identity key]
  by (simp add: demo_be_def demo_not_ready)

lemma demo_begin:
  "\<exists>i t. begin_template demo_sha demo_url_api counting_semaphore demo_be 0 demo_server demo_template_name demo_identity
      Empty demo_io = Some (Return (Inr (Prepared_initialize i)), t)
    \<and> ti_lock_key i = 0 \<and> ti_coordination_key i = 0 \<and> ti_server i = demo_server
    \<and> ti_exclusive_lock i = PersistentClient_new \<lparr>client_session = 1, request_timeout = from_secs 3\<rparr>"
proof -
  define c where "c = \<lparr>client_session = 1, request_timeout = client_operation_timeout (srv_operation_timeout demo_server)\<rparr>"
  have lock: "yields (acquire_template_advisory_lock demo_be c 0 (srv_template_wait_timeout demo_server)
      (srv_operation_timeout demo_server)) ()" unfolding demo_be_def by (rule yields_locks) simp_all
  have conn: "yields (connect_admin demo_be url (srv_operation_timeout demo_server) what) c" for url what
    unfolding demo_be_def c_def by (rule yields_connect) simp
  obtain s0 where s0: "connect_admin demo_be (admin_url_as_str demo_url_api (srv_admin_url demo_server))
      (srv_operation_timeout demo_server) ''connect for PostgreSQL template coordination'' demo_io = (Return (Inr c), s0)"
      "world s0 = world demo_io"
    using yieldsD[OF conn] by blast
  obtain s1 where s1: "acquire_and_inspect_shared_template_lock demo_be demo_server c demo_template_name demo_identity 0 s0
      = (Return (Inr False), s1)" "world s1 = world s0" using yieldsD[OF demo_inspect] by blast
  obtain s2 where s2: "acquire_template_advisory_lock demo_be c 0 (srv_template_wait_timeout demo_server)
      (srv_operation_timeout demo_server) s1 = (Return (Inr ()), s2)" "world s2 = world s1" using yieldsD[OF lock] by blast
  obtain s3 where s3: "acquire_and_inspect_shared_template_lock demo_be demo_server c demo_template_name demo_identity 0 s2
      = (Return (Inr False), s3)" "world s3 = world s2" using yieldsD[OF demo_inspect] by blast
  obtain s4 where s4: "acquire_template_advisory_lock demo_be c 0 (srv_template_wait_timeout demo_server)
      (srv_operation_timeout demo_server) s3 = (Return (Inr ()), s4)" "world s4 = world s3" using yieldsD[OF lock] by blast
  have find: "yields (find_database demo_be c demo_template_name) None"
    unfolding demo_be_def by (rule yields_find_none)
  obtain s5 where s5: "find_database demo_be c demo_template_name s4 = (Return (Inr None), s5)" "world s5 = world s4"
    using yieldsD[OF find] by blast
  obtain s6 where s6: "find_database demo_be c demo_template_name s5 = (Return (Inr None), s6)" "world s6 = world s5"
    using yieldsD[OF find] by blast
  have "\<exists>q. quote_identifier ''template0'' = Inr q" by (simp add: quote_identifier_def)
  then obtain q where q: "quote_identifier ''template0'' = Inr q" ..
  have "\<not> sem_is_closed counting_semaphore (2, False)" "fst (world s6) = (2, False)"
    using s0 s1 s2 s3 s4 s5 s6 by (simp_all add: counting_semaphore_def demo_io_def)
  from yields_creation[OF this(1) q this(2)] obtain t where t: "create_managed_database_classified counting_semaphore demo_be c
      demo_template_name ''template0'' (ResourceMetadata_template 0 (srv_project demo_server) 0 demo_identity Initializing) s6
      = (Return (Inr (Inr ())), t)" unfolding demo_be_def by blast
  have start: "c = \<lparr>client_session = 1, request_timeout = from_secs 3\<rparr>"
    by (simp add: c_def demo_server_def client_operation_timeout_def CLIENT_OPERATION_TIMEOUT_GRACE_def std_defs duration_max_def)
  have "begin_template_loop counting_semaphore demo_be 0 demo_server demo_template_name demo_identity Empty 0 0
      (PersistentClient_new c) s0 = Some (Return (Inr (Prepared_initialize
        \<lparr>ti_server = demo_server, ti_name = demo_template_name, ti_identity = demo_identity, ti_lock_key = 0,
         ti_coordination_key = 0, ti_exclusive_lock = PersistentClient_new c\<rparr>)), t)"
    using s1 s2 s3 s4 s5 s6 t
    by (subst begin_template_loop.simps)
       (simp add: begin_template_iteration_def iteration_under_coordination_lock_def iteration_under_exclusive_lock_def
         template_is_ready_def replace_unfinished_template_def create_initializing_template_def io_bind_def demo_not_ready)
  with s0 start show ?thesis by (simp add: begin_template_def io_bind_def demo_keys)
qed

text \<open>The same server once the template is published.\<close>

definition demo_published :: resource_metadata where
  "demo_published = TemplateMeta (ProjectName ''a'') 0 demo_fp None Ready 0"

definition published_be :: "((nat \<times> bool) \<times> unit) backend" where
  "published_be = agreeable (\<lambda>_. [SqlBool False]) (\<lambda>_. Some [SqlText ''pgh_a_template_1'', SqlText (encode demo_published)])"

lemma demo_record_ready:
  "template_record_is_ready (Some \<lparr>rec_name = ''pgh_a_template_1'', rec_comment = Some (encode demo_published)\<rparr>)
     (srv_project demo_server) demo_identity 0"
proof -
  have "wf_metadata demo_published"
    by (simp add: demo_published_def demo_fp_def wf_project_def project_char_def std_defs i64_def i64_min_def i64_max_def
        wf_fp_def FINGERPRINT_BYTES_def u64_max_def MAX_PROJECT_NAME_LEN_def)
  then have "parse (encode demo_published) = Some demo_published" by (rule metadata_text.decode_encode)
  then show ?thesis
    by (simp add: template_record_is_ready_def template_metadata_matches_def demo_published_def demo_server_def demo_identity_def)
qed

lemma published_row:
  "record_of_row [SqlText ''pgh_a_template_1'', SqlText (encode demo_published)]
     = Return \<lparr>rec_name = ''pgh_a_template_1'', rec_comment = Some (encode demo_published)\<rparr>"
  by (simp add: record_of_row_def get_text_def get_text_opt_def column_def)

definition demo_initialization :: "unit template_initialization" where
  "demo_initialization = \<lparr>ti_server = demo_server, ti_name = demo_template_name, ti_identity = demo_identity,
     ti_lock_key = 0, ti_coordination_key = 0,
     ti_exclusive_lock = PersistentClient_new \<lparr>client_session = 1, request_timeout = from_secs 3\<rparr>\<rparr>"

definition demo_locked :: "((nat \<times> bool) \<times> unit) io_state" where
  "demo_locked = demo_io\<lparr>trace := replicate 2 (Query_one_event 1 0 LOCK_SQL [SqlInt 0] (Replied []))\<rparr>"

lemma demo_locked_locks: "locks 1 (trace demo_locked) = {#(Exclusive, 0), (Exclusive, 0)#}"
  by (simp add: demo_locked_def locks_def lock_effect_def eval_nat_numeral)

lemma demo_finish:
  "yields (initialization_finish published_be 0 demo_initialization) (ti_exclusive_lock demo_initialization)"
proof -
  let ?c = "\<lparr>client_session = 1, request_timeout = from_secs 3\<rparr>"
  have millis: "yields (io_result (duration_millis (srv_operation_timeout demo_server))) 2000"
    by (simp add: yields_def duration_millis_def demo_server_def std_defs u64_max_def)
  have trm: "yields (terminate_database_connections published_be ?c demo_template_name (srv_operation_timeout demo_server)) ()"
    unfolding terminate_database_connections_def published_be_def
    by (rule yields_bind[OF millis], simp add: i64_max_def, rule yields_bind[OF yields_requests(3)], simp,
        rule yields_bind[OF yields_simple(3)], simp, rule yields_bind[OF yields_requests(4)], simp add: get_bool_def column_def,
        rule yields_bind[OF yields_simple(3)], simp add: yields_simple)
  have dis: "yields (disable_database_connections published_be ?c demo_template_name) ()"
    and set: "yields (set_database_metadata published_be ?c demo_template_name md) ()" for md
    unfolding disable_database_connections_def set_database_metadata_def published_be_def by (rule yields_requests)+
  have ins: "yields (acquire_and_inspect_shared_template_lock published_be demo_server ?c demo_template_name demo_identity 0) True"
    using yields_inspect[OF demo_small yields_find_row[OF published_row], of "\<lambda>_. [SqlBool False]" ?c demo_template_name demo_identity 0]
    by (simp add: published_be_def demo_record_ready)
  have rel: "yields (release_advisory_lock published_be ?c 0) ()" unfolding published_be_def by (rule yields_unlocks)
  have sel: "ti_server demo_initialization = demo_server" "ti_name demo_initialization = demo_template_name"
    "ti_identity demo_initialization = demo_identity" "ti_lock_key demo_initialization = 0"
    "ti_coordination_key demo_initialization = 0"
    "persistent_client_mut (ti_exclusive_lock demo_initialization) = Return ?c"
    by (simp_all add: demo_initialization_def)
  show ?thesis
    unfolding initialization_finish_def Let_def sel
    by (rule yields_bind[OF yields_simple(3)], rule yields_bind[OF dis], rule yields_bind[OF trm],
        rule yields_bind[OF set], rule yields_bind[OF rel], rule yields_bind[OF ins], rule yields_bind[OF rel])
       (simp add: yields_simple)
qed

section \<open>Properties\<close>



text \<open>C12: A template is published in a fixed order and its lock is handed over correctly. A successful
  \<open>finish\<close> first disables connections, terminates the remaining ones and has the server confirm that
  none is left, then tags the database as ready, and only then releases the exclusive lock. It returns
  the same session, which then holds the shared lock alone and has read the published entry under it.\<close>

theorem template_publication_protocol:
  assumes "initialization_finish be now i s = (Return (Inr held), t)"
    and "persistent_client_mut (ti_exclusive_lock i) = Return c"
    and "locks (client_session c) (trace s) = {#(Exclusive, ti_lock_key i), (Exclusive, ti_coordination_key i)#}"
  shows "held = ti_exclusive_lock i
     \<and> locks (client_session c) (trace t) = {#(Shared, ti_lock_key i)#}
     \<and> ready_under_lock (srv_project (ti_server i)) (ti_name i) (ti_identity i) (ti_lock_key i) (client_session c) (trace t)
     \<and> (\<exists>disable q rows q' row unlocked rest. trace t = trace s @
          [disable,
           Query_event (client_session c) (request_timeout c) q
             [SqlText (db_value (ti_name i)), SqlInt (int (as_millis (srv_operation_timeout (ti_server i))))] (Replied rows),
           Query_one_event (client_session c) (request_timeout c) q' [SqlText (db_value (ti_name i))] (Replied row),
           Batch_event (client_session c) (request_timeout c) (comment_sql (ti_name i)
             (ResourceMetadata_template now (srv_project (ti_server i)) (ti_lock_key i) (ti_identity i) Ready)) (Replied ()),
           Query_one_event (client_session c) (request_timeout c) UNLOCK_SQL [SqlInt (ti_lock_key i)] (Replied unlocked)]
           @ rest
         \<and> disable = Batch_event (client_session c) (request_timeout c)
             (''ALTER DATABASE '' @ quoted (ti_name i) @ '' ALLOW_CONNECTIONS false'') (Replied ())
         \<and> list_all (\<lambda>r. r \<noteq> [] \<and> hd r = SqlBool True) rows \<and> row \<noteq> [] \<and> hd row = SqlBool False)"
proof -
  let ?n = "client_session c"
  from assms(1,2) obtain s1 s2 s3 s4 s5 where
    1: "disable_database_connections be c (ti_name i) s = (Return (Inr ()), s1)"
    and 2: "terminate_database_connections be c (ti_name i) (srv_operation_timeout (ti_server i)) s1 = (Return (Inr ()), s2)"
    and 3: "set_database_metadata be c (ti_name i) (ResourceMetadata_template now (srv_project (ti_server i))
      (ti_lock_key i) (ti_identity i) Ready) s2 = (Return (Inr ()), s3)"
    and 4: "release_advisory_lock be c (ti_lock_key i) s3 = (Return (Inr ()), s4)"
    and 5: "acquire_and_inspect_shared_template_lock be (ti_server i) c (ti_name i) (ti_identity i) (ti_lock_key i) s4
      = (Return (Inr True), s5)"
    and 6: "release_advisory_lock be c (ti_coordination_key i) s5 = (Return (Inr ()), t)"
    and held: "held = ti_exclusive_lock i" by (rule finish_steps)
  have "locks ?n (trace s3) = locks ?n (trace s)"
    using preservesD[OF locks_kept.preserves_databases(3) 3] preservesD[OF locks_kept.preserves_terminate 2]
      preservesD[OF locks_kept.preserves_databases(5) 1] by blast
  then have l5: "locks ?n (trace s5) = {#(Shared, ti_lock_key i), (Exclusive, ti_coordination_key i)#}"
    using inspect_locks(1)[OF 5] release_locks[OF 4] assms(3) by simp
  have ready: "ready_under_lock (srv_project (ti_server i)) (ti_name i) (ti_identity i) (ti_lock_key i) ?n (trace t)"
    by (rule release_keeps_ready[OF 6 inspect_locks(2)[OF 5]]) (simp_all add: l5)
  obtain rest where "trace t = trace s4 @ rest"
    using appendsD[OF inspect_appends 5] release_ok_trace[OF 6] by auto
  moreover obtain unlocked where "trace s4 = trace s3 @
      [Query_one_event ?n (request_timeout c) UNLOCK_SQL [SqlInt (ti_lock_key i)] (Replied unlocked)]"
    using release_ok_trace[OF 4] by blast
  moreover note batch_ok_trace[OF 3[unfolded set_database_metadata_def]] terminate_connections_verified[OF 2]
    batch_ok_trace[OF 1[unfolded disable_database_connections_def]]
  ultimately show ?thesis using held ready release_locks[OF 6] l5 by auto
qed

theorem template_publication_protocol_witness:
  "\<exists>t. initialization_finish published_be 0 demo_initialization demo_locked
      = (Return (Inr (ti_exclusive_lock demo_initialization)), t) \<and> locks 1 (trace t) = {#(Shared, 0)#}"
proof -
  obtain t where t: "initialization_finish published_be 0 demo_initialization demo_locked
      = (Return (Inr (ti_exclusive_lock demo_initialization)), t)" using yieldsD[OF demo_finish] by blast
  from template_publication_protocol[OF t, of "\<lparr>client_session = 1, request_timeout = from_secs 3\<rparr>"] t demo_locked_locks
  show ?thesis by (auto simp: demo_initialization_def)
qed

text \<open>C13: A caller's failing initializer is cleaned up after. Whatever the server answers, the half-built
  database is dropped and both advisory locks are released, in that order and each exactly once. The
  error returned carries the initializer's own error, alone when all three requests succeeded (the
  session then holds neither lock) and together with the cleanup error otherwise.\<close>

theorem failed_initializer_cleaned_up:
  assumes "persistent_client_mut (ti_exclusive_lock i) = Return c"
    and "initialize (database_url api (srv_admin_url (ti_server i)) (ti_name i)) s = (Inl message, s1)"
  shows "\<exists>r1 r2 r3 e t. run_initializer be api now initialize i s = (Return (Inl e), t)
     \<and> trace t = trace s1 @
        [Batch_event (client_session c) (request_timeout c) (drop_sql (ti_name i)) r1,
         Query_one_event (client_session c) (request_timeout c) UNLOCK_SQL [SqlInt (ti_lock_key i)] r2,
         Query_one_event (client_session c) (request_timeout c) UNLOCK_SQL [SqlInt (ti_coordination_key i)] r3]
     \<and> (if r1 = Replied () \<and> (\<exists>x. r2 = Replied x) \<and> (\<exists>x. r3 = Replied x)
        then e = TemplateInitializer message
           \<and> locks (client_session c) (trace t) = locks (client_session c) (trace s1)
               - {#(Exclusive, ti_lock_key i)#} - {#(Exclusive, ti_coordination_key i)#}
        else \<exists>cleanup. e = TemplateInitializerAndCleanup message cleanup)"
proof -
  obtain r t where run: "initialization_abort be i s1 = (r, t)" by fastforce
  from assms(1) run obtain r1 r2 r3 where tr: "trace t = trace s1 @
      [Batch_event (client_session c) (request_timeout c) (drop_sql (ti_name i)) r1,
       Query_one_event (client_session c) (request_timeout c) UNLOCK_SQL [SqlInt (ti_lock_key i)] r2,
       Query_one_event (client_session c) (request_timeout c) UNLOCK_SQL [SqlInt (ti_coordination_key i)] r3]"
    and "\<exists>v. r = Return v \<and> (v = Inr () \<longleftrightarrow> r1 = Replied () \<and> (\<exists>x. r2 = Replied x) \<and> (\<exists>x. r3 = Replied x))"
    by (rule abort_trace)
  then obtain v where v: "r = Return v" "v = Inr () \<longleftrightarrow> r1 = Replied () \<and> (\<exists>x. r2 = Replied x) \<and> (\<exists>x. r3 = Replied x)"
    by blast
  have "locks (client_session c) (trace t) = locks (client_session c) (trace s1)
      - {#(Exclusive, ti_lock_key i)#} - {#(Exclusive, ti_coordination_key i)#}"
    if "r2 = Replied x" "r3 = Replied y" for x y
  proof -
    have "trace t = ((trace s1 @ [Batch_event (client_session c) (request_timeout c) (drop_sql (ti_name i)) r1]) @
       [Query_one_event (client_session c) (request_timeout c) UNLOCK_SQL [SqlInt (ti_lock_key i)] r2]) @
       [Query_one_event (client_session c) (request_timeout c) UNLOCK_SQL [SqlInt (ti_coordination_key i)] r3]"
      by (simp add: tr)
    with that show ?thesis by (simp only: locks_snoc) (simp add: lock_effect_def lock_sql_defs)
  qed
  with tr v run assms(2) show ?thesis
    by (cases v) (auto simp: run_initializer_def run_blocking_def)
qed

theorem failed_initializer_cleaned_up_witness:
  "\<exists>e t. run_initializer demo_be demo_url_api 0 (\<lambda>url s. (Inl ''boom'', s)) demo_initialization demo_locked
      = (Return (Inl e), t) \<and> length (trace t) = 5"
  using failed_initializer_cleaned_up[of demo_initialization "\<lparr>client_session = 1, request_timeout = from_secs 3\<rparr>"
      "\<lambda>url s. (Inl ''boom'', s)" demo_url_api demo_locked "''boom''" demo_locked demo_be 0]
  by (auto simp: demo_initialization_def demo_locked_def)



end
