(* ===== verification/Server_Properties.thy ===== *)
theory Server_Properties
  imports Demo_Server Request_Invariants
begin

text \<open>
  What a started server is: its sizes stay within the share of the connections they may use, and
  its owner lock is held by the session it retains.
\<close>

definition VERSION_SQL :: string where "VERSION_SQL = ''SELECT current_setting('server_version_num')::integer''"
definition UUID_SQL :: string where "UUID_SQL = ''SELECT uuidv7()::text''"
definition CAPACITY_SQL :: string where
  "CAPACITY_SQL = ''SELECT current_setting('max_connections')::integer, current_setting('reserved_connections')::integer, current_setting('superuser_reserved_connections')::integer''"

text \<open>The four requests of a start, with the rows that were returned.\<close>

definition start_requests :: "admin_client \<Rightarrow> int \<Rightarrow> sql_row \<Rightarrow> sql_row \<Rightarrow> sql_row \<Rightarrow> sql_row \<Rightarrow> event list" where
  "start_requests c key version probe capacity locked =
     (let request = (\<lambda>q ps row. Query_one_event (client_session c) (request_timeout c) q ps (Replied row))
      in [request VERSION_SQL [] version, request UUID_SQL [] probe, request CAPACITY_SQL [] capacity,
          request LOCK_SQL [SqlInt key] locked])"

lemma query_one_ok_trace:
  assumes "query_one be c op q ps s = (Return (Inr row), t)"
  shows "trace t = trace s @ [Query_one_event (client_session c) (request_timeout c) q ps (Replied row)]"
  using assms unfolding query_one_def by (rule query_one_ok_cases)

lemma validate_ok:
  assumes "validate_postgres_18 be c s = (Return (Inr ()), t)"
  obtains row v probe where "trace t = trace s @
      [Query_one_event (client_session c) (request_timeout c) VERSION_SQL []
         (Replied row),
       Query_one_event (client_session c) (request_timeout c) UUID_SQL [] (Replied probe)]"
    and "get_int row 0 = Return v" and "180000 \<le> v" "v < 190000"
proof -
  have range: "i32_div v 10000 = 18 \<Longrightarrow> 180000 \<le> v \<and> v < 190000" for v
    by (cases "v > 0"; cases "v = 0") (auto simp: i32_div_def)
  from assms obtain row u v where q: "query_one be c ''read PostgreSQL server version''
        VERSION_SQL [] s = (Return (Inr row), u)"
    and v: "get_int row 0 = Return v" "i32_div v 10000 = 18"
    and probe: "io_bind (io_try (query_one be c ''check PostgreSQL uuidv7 capability''
          UUID_SQL [])) (\<lambda>r. case r of Inl _ \<Rightarrow> io_err MissingUuidV7 | Inr _ \<Rightarrow> io_ok ()) u = (Return (Inr ()), t)"
    unfolding VERSION_SQL_def UUID_SQL_def
    by (auto simp: validate_postgres_18_def io_bind_ok_iff io_exec_ok_iff split: if_splits)
  from probe obtain x w where tried: "query_one be c ''check PostgreSQL uuidv7 capability''
      UUID_SQL [] u = (Return x, w)"
    and res: "(case x of Inl _ \<Rightarrow> io_err MissingUuidV7 | Inr _ \<Rightarrow> io_ok ()) w = (Return (Inr ()), t)"
    unfolding io_bind_ok_iff io_try_iff by blast
  from res tried obtain pr where "query_one be c ''check PostgreSQL uuidv7 capability''
      UUID_SQL [] u = (Return (Inr pr), t)" by (cases x) auto
  from query_one_ok_trace[OF this] query_one_ok_trace[OF q] v range that show thesis by simp
qed

text \<open>A started server, as a function of what the server reported.\<close>

definition started_as ::
  "'g semaphore \<Rightarrow> connection_limits \<Rightarrow> nat \<Rightarrow> admin_client \<Rightarrow> int \<Rightarrow> ('u, 'g) server_state \<Rightarrow> bool" where
  "started_as sem limits slots owner_lock owner_key server \<longleftrightarrow>
     (let size = per_harness_admin_session_pool_size limits slots
      in ss_owner_lock server = Some (PersistentClient_new owner_lock)
       \<and> srv_owner_key (ss_inner server) = owner_key
       \<and> srv_connection_limits (ss_inner server) = limits
       \<and> sp_max_size (ss_sessions server) = size \<and> sp_total (ss_sessions server) = 0
       \<and> ss_workers server = worker_count (cleanup_queue_limits size)
       \<and> ss_cleanup server = new_queue (queue_capacity (cleanup_queue_limits size)) (sem_new sem (connection_budget limits))
       \<and> ss_cache server = new_cache \<and> ss_prewarm_pools server = [])"

lemma spawn_workers_ok: "spawn_workers n spawn k = Inr w \<Longrightarrow> w = n + k"
  by (induction n arbitrary: k) (fastforce split: option.splits)+

lemma worker_count_pos: "0 < worker_count (cleanup_queue_limits n)"
  by (simp add: size_defs Let_def)

lemma finish_start_ok:
  assumes "finish_start_with_client be api sem spawn config limits url container key c s = (Return (Inr server), t)"
  obtains u slots v where "validate_postgres_18 be c s = (Return (Inr ()), u)"
    and "regular_connection_slots be c u = (Return (Inr slots), v)"
    and "acquire_advisory_lock be c key v = (Return (Inr ()), t)"
    and "started_as sem limits slots c key server"
proof -
  from assms obtain u slots v w where *: "validate_postgres_18 be c s = (Return (Inr ()), u)"
    "regular_connection_slots be c u = (Return (Inr slots), v)" "acquire_advisory_lock be c key v = (Return (Inr ()), w)"
    and rest: "w = t" "\<exists>workers queue. DatabaseCleanupQueue_new
        (worker_count (cleanup_queue_limits (per_harness_admin_session_pool_size limits slots)))
        (queue_capacity (cleanup_queue_limits (per_harness_admin_session_pool_size limits slots)))
        (DatabaseAdmission_new sem (connection_budget limits)) spawn = Inr (workers, queue)
      \<and> ss_workers server = workers \<and> ss_cleanup server = queue
      \<and> ss_owner_lock server = Some (PersistentClient_new c)
      \<and> srv_owner_key (ss_inner server) = key \<and> srv_connection_limits (ss_inner server) = limits
      \<and> ss_sessions server = AdminSessionPool_new (admin_url_as_str api url) (cfg_operation_timeout config)
          (project_as_str (cfg_project config)) (per_harness_admin_session_pool_size limits slots)
      \<and> ss_cache server = new_cache \<and> ss_prewarm_pools server = []"
    by (auto simp: finish_start_with_client_def Let_def io_bind_ok_iff split: prod.splits)
  have "1 \<le> per_harness_admin_session_pool_size limits slots" by (simp add: size_defs Let_def)
  moreover have "max (worker_count (cleanup_queue_limits n)) 1 = worker_count (cleanup_queue_limits n)" for n
    using worker_count_pos[of n] by simp
  ultimately have "started_as sem limits slots c key server"
    using rest(2)
    by (auto simp: started_as_def Let_def DatabaseCleanupQueue_new_def bind_result_Inr_iff AdminSessionPool_new_def
        DatabaseAdmission_new_def dest!: spawn_workers_ok)
  with * rest(1) that show thesis by blast
qed

lemma regular_slots_ok:
  assumes "regular_connection_slots be c s = (Return (Inr slots), t)"
  obtains m r x row where "trace t = trace s @ [Query_one_event (client_session c) (request_timeout c)
      CAPACITY_SQL
      [] (Replied row)]"
    and "get_int row 0 = Return m" "get_int row 1 = Return r" "get_int row 2 = Return x"
    and "slots = regular_connection_slots_from_settings m r x"
proof -
  from assms obtain row u m r x where
    q: "query_one be c ''read PostgreSQL connection capacity''
      CAPACITY_SQL
      [] s = (Return (Inr row), u)"
    and g: "get_int row 0 = Return m" "get_int row 1 = Return r" "get_int row 2 = Return x" "u = t"
      "slots = regular_connection_slots_from_settings m r x"
    unfolding regular_connection_slots_def io_bind_ok_iff io_exec_ok_iff CAPACITY_SQL_def by auto
  from query_one_ok_trace[OF q] g that show thesis by blast
qed

section \<open>Properties\<close>

text \<open>Whatever connection settings a PostgreSQL server reports, the lifecycle session pool of a harness
  has at least one session, at most one per simultaneous lease and at most a quarter of the regular
  connection slots (one if there are fewer than four), and the cleanup workers number between one
  and four and never more than half of a pool of two or more sessions.\<close>

lemma lifecycle_sizes_bounded:
  fixes max_connections reserved superuser :: int
  shows "let slots = regular_connection_slots_from_settings max_connections reserved superuser;
         size = per_harness_admin_session_pool_size limits slots;
         cleanup = cleanup_queue_limits size
     in int slots = max 0 (max max_connections 0 - max reserved 0 - max superuser 0)
      \<and> 1 \<le> size \<and> size \<le> max 1 (max_simultaneous_leases limits) \<and> 4 * size \<le> max 4 slots
      \<and> 1 \<le> worker_count cleanup \<and> worker_count cleanup \<le> 4 \<and> 2 * worker_count cleanup \<le> max 2 size
      \<and> queue_capacity cleanup = worker_count cleanup"
proof -
  have pool: "1 \<le> per_harness_admin_session_pool_size l n \<and> per_harness_admin_session_pool_size l n \<le> max 1 (max_simultaneous_leases l)
      \<and> 4 * per_harness_admin_session_pool_size l n \<le> max 4 n" for l n
  proof -
    have "4 * (n div 4) \<le> n" by simp
    then show ?thesis unfolding size_defs Let_def by linarith
  qed
  have work: "1 \<le> worker_count (cleanup_queue_limits n) \<and> worker_count (cleanup_queue_limits n) \<le> 4
      \<and> 2 * worker_count (cleanup_queue_limits n) \<le> max 2 n \<and> queue_capacity (cleanup_queue_limits n) = worker_count (cleanup_queue_limits n)" for n
  proof -
    have "2 * (n div 2) \<le> n" by simp
    then show ?thesis unfolding size_defs Let_def by (simp; linarith)
  qed
  show ?thesis using pool work by (simp only: Let_def regular_connection_slots_exact)
qed


definition start_replies :: "string \<Rightarrow> sql_row" where
  "start_replies q =
     (if q = VERSION_SQL then [SqlInt 180003]
      else [SqlInt 100, SqlInt 3, SqlInt 3])"

definition demo_config :: harness_config where
  "demo_config = \<lparr>cfg_project = ProjectName ''a'', admin_database_url = None, image = None,
     cfg_owned_container_profile = performance, startup_timeout = 1, cfg_operation_timeout = 1,
     cfg_template_wait_timeout = 1, cfg_stale_after = 1, connection_budget_override = None,
     connections_per_database_override = None, cfg_cleanup_on_start = False\<rparr>"


end
