(* ===== verification/Container.thy ===== *)
theory Container
  imports Server
begin

text \<open>
  Ownership of a PostgreSQL container (second half of \<open>src/server.rs\<close>): the request sent to the
  container engine, the owner and its worker thread, waiting for the server, diagnosis of a
  container that failed to start, and removal at process exit. The container engine
  (\<open>testcontainers\<close>), thread joins, channels and \<open>atexit\<close> are outside: what they return is an
  argument of the function that calls them.
\<close>

section \<open>Constants\<close>

definition POSTGRES_PORT :: nat where "POSTGRES_PORT = 5432"
definition POSTGRES_USER :: string where "POSTGRES_USER = ''postgres''"
definition POSTGRES_PASSWORD :: string where "POSTGRES_PASSWORD = ''postgres''"
definition POSTGRES_DATABASE :: string where "POSTGRES_DATABASE = ''postgres''"
definition POSTGRES_STORAGE_PATH :: string where "POSTGRES_STORAGE_PATH = ''/var/lib/postgresql''"
definition POSTGRES_INITDB_NO_SYNC :: string where "POSTGRES_INITDB_NO_SYNC = ''--no-sync''"
definition STARTUP_CONNECT_ATTEMPT_TIMEOUT :: duration where "STARTUP_CONNECT_ATTEMPT_TIMEOUT = from_millis 250"
definition CONTAINER_ENGINE_STARTUP_TIMEOUT_FLOOR :: duration where
  "CONTAINER_ENGINE_STARTUP_TIMEOUT_FLOOR = from_secs 60"
definition STARTUP_RETRY_INTERVAL :: duration where "STARTUP_RETRY_INTERVAL = from_millis 25"
definition STARTUP_LOG_LIMIT_BYTES :: nat where "STARTUP_LOG_LIMIT_BYTES = 64 * 1024"
definition MANAGED_LABEL :: string where "MANAGED_LABEL = ''org.postgres-test-harness.managed''"
definition PROJECT_LABEL :: string where "PROJECT_LABEL = ''org.postgres-test-harness.project''"
definition RUN_LABEL :: string where "RUN_LABEL = ''org.postgres-test-harness.run''"
definition CREATED_LABEL :: string where "CREATED_LABEL = ''org.postgres-test-harness.created''"

section \<open>The request\<close>

record tmpfs_mount =
  mount_target :: string
  mount_size_bytes :: int
  mount_mode :: nat

record container_request =
  req_repository :: string
  req_tag :: string
  req_exposed_ports :: "nat list"
  req_env :: "(string \<times> string) list"
  req_cmd :: "string list"
  req_startup_timeout :: duration
  req_labels :: "(string \<times> string) list"
  req_mounts :: "tmpfs_mount list"

text \<open>The cast of a \<open>u64\<close> to \<open>i64\<close> keeps the 64 bits.\<close>

definition u64_as_i64 :: "nat \<Rightarrow> int" where
  "u64_as_i64 n = (if int n > i64_max then int n - 18446744073709551616 else int n)"

definition build_container_request ::
  "image_reference \<Rightarrow> owned_container_profile \<Rightarrow> duration \<Rightarrow> string \<Rightarrow> string \<Rightarrow> string \<Rightarrow> container_request" where
  "build_container_request img profile startup_limit project_label run_label created_label =
     \<lparr>req_repository = repository img, req_tag = tag img,
      req_exposed_ports = [POSTGRES_PORT],
      req_env = [(''POSTGRES_USER'', POSTGRES_USER), (''POSTGRES_PASSWORD'', POSTGRES_PASSWORD),
                 (''POSTGRES_DB'', POSTGRES_DATABASE)]
        @ (if initdb_no_sync profile then [(''POSTGRES_INITDB_ARGS'', POSTGRES_INITDB_NO_SYNC)] else []),
      req_cmd = [''postgres'', ''-c'', ''fsync=off'', ''-c'', ''synchronous_commit=off'',
                 ''-c'', ''full_page_writes=off'', ''-c'', ''max_connections=300''],
      req_startup_timeout = max startup_limit CONTAINER_ENGINE_STARTUP_TIMEOUT_FLOOR,
      req_labels = [(MANAGED_LABEL, ''true''), (PROJECT_LABEL, project_label), (RUN_LABEL, run_label),
                    (CREATED_LABEL, created_label)],
      req_mounts = (case tmpfs_size_bytes profile of
          None \<Rightarrow> []
        | Some size_bytes \<Rightarrow>
            [\<lparr>mount_target = POSTGRES_STORAGE_PATH, mount_size_bytes = u64_as_i64 size_bytes, mount_mode = 1023\<rparr>])\<rparr>"

section \<open>The owner and its worker\<close>

record container_exit =
  exit_code :: "int option"
  exit_output :: bytes

record started_container =
  sc_id :: string
  sc_host :: string
  sc_port :: nat

text \<open>
  \<open>co_worker\<close> says whether the worker (its command channel and join handle) is still there, and
  \<open>co_poisoned\<close> whether the mutex around it is poisoned.
\<close>

record container_owner =
  co_id :: string
  co_worker :: bool
  co_poisoned :: bool
  co_startup_exit :: "container_exit option"

text \<open>What joining the worker thread gives: a panic, or the result of removing the container.\<close>

datatype join_outcome = Join_panicked | Joined "string option"

definition join_failed_startup_worker :: "join_outcome \<Rightarrow> unit result" where
  "join_failed_startup_worker worker =
     (case worker of
        Join_panicked \<Rightarrow> Inl ContainerWorkerPanicked
      | Joined (Some source) \<Rightarrow> Inl (ContainerRemove source)
      | Joined None \<Rightarrow> Inr ())"

definition combine_startup_and_cleanup :: "error \<Rightarrow> unit result \<Rightarrow> error" where
  "combine_startup_and_cleanup startup cleanup =
     (case cleanup of Inr _ \<Rightarrow> startup | Inl e \<Rightarrow> ContainerStartupAndCleanup startup e)"

definition container_worker_poisoned :: error where
  "container_worker_poisoned = StatePoisoned ''lock PostgreSQL container worker''"

text \<open>\<open>receiver\<close>: whether the worker still reads its commands.\<close>

definition mark_ready :: "bool \<Rightarrow> container_owner \<Rightarrow> unit result" where
  "mark_ready receiver self =
     (if co_poisoned self then Inl container_worker_poisoned
      else if \<not> co_worker self then Inl ContainerWorkerStopped
      else if receiver then Inr () else Inl ContainerWorkerStopped)"

definition owner_shutdown :: "join_outcome \<Rightarrow> container_owner \<Rightarrow> unit result \<times> container_owner" where
  "owner_shutdown handle self =
     (if co_poisoned self then (Inl container_worker_poisoned, self)
      else if \<not> co_worker self then (Inr (), self)
      else (join_failed_startup_worker handle, self\<lparr>co_worker := False\<rparr>))"

section \<open>Diagnosis of a failed start\<close>

text \<open>\<open>String::from_utf8_lossy\<close>: every maximal ill-formed piece becomes U+FFFD.\<close>

definition continuation :: "8 word \<Rightarrow> bool" where
  "continuation b \<longleftrightarrow> 0x80 \<le> b \<and> b \<le> 0xBF"

definition second_ok :: "8 word \<Rightarrow> 8 word \<Rightarrow> bool" where
  "second_ok a b \<longleftrightarrow>
     (if a = 0xE0 then 0xA0 \<le> b \<and> b \<le> 0xBF
      else if a = 0xED then 0x80 \<le> b \<and> b \<le> 0x9F
      else if a = 0xF0 then 0x90 \<le> b \<and> b \<le> 0xBF
      else if a = 0xF4 then 0x80 \<le> b \<and> b \<le> 0x8F
      else continuation b)"

definition sequence_length :: "8 word \<Rightarrow> nat" where
  "sequence_length a =
     (if a < 0x80 then 1
      else if 0xC2 \<le> a \<and> a \<le> 0xDF then 2
      else if 0xE0 \<le> a \<and> a \<le> 0xEF then 3
      else if 0xF0 \<le> a \<and> a \<le> 0xF4 then 4
      else 0)"

text \<open>How many bytes of \<open>bs\<close> after the first belong to its sequence, at most \<open>need\<close>.\<close>

definition tail_length :: "8 word \<Rightarrow> nat \<Rightarrow> bytes \<Rightarrow> nat" where
  "tail_length a need bs =
     (case bs of
        [] \<Rightarrow> 0
      | b # rest \<Rightarrow>
          if need = 0 \<or> \<not> second_ok a b then 0
          else 1 + length (takeWhile continuation (take (need - 1) rest)))"

definition REPLACEMENT :: bytes where "REPLACEMENT = [0xEF, 0xBF, 0xBD]"

function from_utf8_lossy :: "bytes \<Rightarrow> bytes" where
  "from_utf8_lossy [] = []"
| "from_utf8_lossy (a # bs) =
     (let need = sequence_length a - 1; have_tail = tail_length a need bs
      in (if sequence_length a \<noteq> 0 \<and> have_tail = need then a # take need bs else REPLACEMENT)
         @ from_utf8_lossy (drop have_tail bs))"
  by pat_completeness auto
termination by (relation "measure length") (auto simp: less_Suc_eq_le)

definition ascii_lower :: "8 word \<Rightarrow> 8 word" where
  "ascii_lower b = (if 65 \<le> b \<and> b \<le> 90 then b + 32 else b)"

definition to_ascii_lowercase :: "bytes \<Rightarrow> bytes" where
  "to_ascii_lowercase = map ascii_lower"

text \<open>\<open>str::contains\<close>.\<close>

fun contains :: "bytes \<Rightarrow> bytes \<Rightarrow> bool" where
  "contains needle [] \<longleftrightarrow> needle = []"
| "contains needle (c # cs) \<longleftrightarrow> take (length needle) (c # cs) = needle \<or> contains needle cs"

definition storage_exhaustion_evidence :: "bytes \<Rightarrow> string option" where
  "storage_exhaustion_evidence output =
     (let text = to_ascii_lowercase (from_utf8_lossy output)
      in if contains (bytes_of_string ''no space left on device'') text
         then Some ''container log reported no space left on device'' else None)"

definition memory_exhaustion_evidence :: "bytes \<Rightarrow> int option \<Rightarrow> string option" where
  "memory_exhaustion_evidence output code =
     (let text = to_ascii_lowercase (from_utf8_lossy output)
      in if contains (bytes_of_string ''cannot allocate memory'') text
            \<or> contains (bytes_of_string ''out of memory'') text
         then Some ''container log reported memory exhaustion''
         else if code = Some 137
         then Some ''container exited with status 137, consistent with an engine OOM kill''
         else None)"

definition container_exit_error :: "owned_container_profile \<Rightarrow> container_exit \<Rightarrow> error" where
  "container_exit_error profile exit =
     (case tmpfs_size_bytes profile of
        None \<Rightarrow> ContainerExitedBeforeReady (exit_code exit)
      | Some size_bytes \<Rightarrow>
          (case storage_exhaustion_evidence (exit_output exit) of
             Some evidence \<Rightarrow> ContainerStorageExhausted size_bytes evidence
           | None \<Rightarrow>
               (case memory_exhaustion_evidence (exit_output exit) (exit_code exit) of
                  Some evidence \<Rightarrow> ContainerMemoryExhausted size_bytes evidence
                | None \<Rightarrow> ContainerExitedBeforeReady (exit_code exit))))"

text \<open>
  \<open>bounded_container_output\<close>; each stream is what it delivers before it ends or fails.
\<close>

definition bounded_container_output :: "bytes \<Rightarrow> bytes \<Rightarrow> bytes" where
  "bounded_container_output stderr stdout =
     (let output = take STARTUP_LOG_LIMIT_BYTES stderr;
          remaining = STARTUP_LOG_LIMIT_BYTES - length output
      in if remaining > 0 then output @ take remaining stdout else output)"

definition tmpfs_start_error_evidence :: "string \<Rightarrow> bool" where
  "tmpfs_start_error_evidence source =
     (let message = to_ascii_lowercase (bytes_of_string source)
      in contains (bytes_of_string ''tmpfs'') message
         \<or> (contains (bytes_of_string ''mount'') message \<and> contains (bytes_of_string POSTGRES_STORAGE_PATH) message))"

definition map_container_start_error :: "owned_container_profile \<Rightarrow> string \<Rightarrow> error" where
  "map_container_start_error profile source =
     (case tmpfs_size_bytes profile of
        Some size_bytes \<Rightarrow>
          if tmpfs_start_error_evidence source then ContainerStorageStart size_bytes source
          else ContainerStart source
      | None \<Rightarrow> ContainerStart source)"

end
