(* ===== verification/Container_Start.thy ===== *)
theory Container_Start
  imports Container
begin

text \<open>
  Starting a server (\<open>ServerInner::start_blocking\<close>, \<open>ContainerOwner::start\<close> and the loops around a
  starting container in \<open>src/server.rs\<close>): the worker thread that owns the container, the two retry
  loops, the registry for removal at process exit, and the composition of a start for an external
  server and for an owned container, with the drop of the owner on every failing path.
\<close>

section \<open>Loops\<close>

text \<open>Rust's \<open>loop\<close>: the body breaks with a result or continues with a new state.\<close>

partial_function (option) rust_loop :: "('s \<Rightarrow> 'r + 's) \<Rightarrow> 's \<Rightarrow> 'r option" where
  "rust_loop body s = (case body s of Inl r \<Rightarrow> Some r | Inr s' \<Rightarrow> rust_loop body s')"

locale bounded_loop =
  fixes body :: "'s \<Rightarrow> 'r + 's"
    and inv :: "'s \<Rightarrow> bool"
    and bound :: "'s \<Rightarrow> nat"
  assumes progress: "inv s \<Longrightarrow> body s = Inr s' \<Longrightarrow> inv s' \<and> bound s' < bound s"
begin

lemma loop_returns: "inv s \<Longrightarrow> \<exists>t r. inv t \<and> body t = Inl r \<and> rust_loop body s = Some r"
proof (induction "bound s" arbitrary: s rule: less_induct)
  case less
  show ?case
  proof (cases "body s")
    case (Inl r)
    with less.prems show ?thesis by (auto simp: rust_loop.simps[of body s])
  next
    case (Inr s')
    from progress[OF less.prems Inr] less.hyps[of s'] Inr show ?thesis
      by (auto simp: rust_loop.simps[of body s])
  qed
qed

end

section \<open>The container engine\<close>

text \<open>
  What the code reads of a container and of the process: the exit recorded by the worker, whether the
  worker still reads its commands, the mapped address, whether the container runs, and sleeping.
\<close>

record 'w engine =
  en_startup_exit :: "'w \<Rightarrow> container_exit option \<times> 'w"
  en_listening :: "'w \<Rightarrow> bool \<times> 'w"
  en_host :: "'w \<Rightarrow> (string + string) \<times> 'w"
  en_port :: "nat \<Rightarrow> 'w \<Rightarrow> (string + nat) \<times> 'w"
  en_is_running :: "'w \<Rightarrow> (string + bool) \<times> 'w"
  en_sleep :: "duration \<Rightarrow> 'w \<Rightarrow> 'w"

definition reading :: "('w \<Rightarrow> 'r \<times> 'w) \<Rightarrow> ('w, 'r) io" where
  "reading f s = (let (r, w) = f (world s) in (Return (Inr r), s\<lparr>world := w\<rparr>))"

text \<open>
  What the loops rely on: the clock reads a time between the start and the end of the call, no call
  goes back in time, and a sleep lasts at least as long as requested.
\<close>

definition clock_laws :: "'w backend \<Rightarrow> 'w engine \<Rightarrow> ('w \<Rightarrow> nat) \<Rightarrow> bool" where
  "clock_laws be en time \<longleftrightarrow>
     (\<forall>w. time w \<le> fst (be_now be w) \<and> fst (be_now be w) \<le> time (snd (be_now be w)))
   \<and> (\<forall>w u t. time w \<le> time (snd (be_connect be u t w)))
   \<and> (\<forall>w c t q. time w \<le> time (snd (be_batch be c t q w)))
   \<and> (\<forall>w. time w \<le> time (snd (en_startup_exit en w)))
   \<and> (\<forall>w. time w \<le> time (snd (en_host en w)))
   \<and> (\<forall>w p. time w \<le> time (snd (en_port en p w)))
   \<and> (\<forall>w. time w \<le> time (snd (en_is_running en w)))
   \<and> (\<forall>w d. time w + d \<le> time (en_sleep en d w))"

section \<open>Waiting for the server\<close>

definition WAIT_OPERATION :: string where
  "WAIT_OPERATION = ''wait for final owned PostgreSQL TCP server''"

definition startup_timeout_error :: "duration \<Rightarrow> error option \<Rightarrow> error" where
  "startup_timeout_error limit last_error =
     (case last_error of
        None \<Rightarrow> ContainerStartupTimeout limit
      | Some source \<Rightarrow> ContainerReadinessTimeout limit source)"

text \<open>One pass; \<open>Inl e\<close> goes round again with \<open>e\<close> as the last error.\<close>

definition wait_iteration ::
  "'w backend \<Rightarrow> 'w engine \<Rightarrow> string \<Rightarrow> duration \<Rightarrow> nat \<Rightarrow> duration \<Rightarrow> owned_container_profile
     \<Rightarrow> error option \<Rightarrow> ('w, error + admin_client) io" where
  "wait_iteration be en admin_url op_timeout started limit profile last_error =
     io_bind (reading (en_startup_exit en)) (\<lambda>exit.
     case exit of
       Some exit \<Rightarrow> io_err (container_exit_error profile exit)
     | None \<Rightarrow>
         io_bind (read_clock be) (\<lambda>now.
         let remaining = limit - (now - started)
         in if as_millis remaining = 0 then
              io_bind (reading (en_startup_exit en)) (\<lambda>exit.
              case exit of
                Some exit \<Rightarrow> io_err (container_exit_error profile exit)
              | None \<Rightarrow> io_err (startup_timeout_error limit last_error))
            else
              io_bind (io_try (connect_admin_with_setup_timeout be admin_url op_timeout WAIT_OPERATION
                         (min STARTUP_CONNECT_ATTEMPT_TIMEOUT remaining) remaining)) (\<lambda>attempt.
              case attempt of
                Inr client \<Rightarrow> io_ok (Inr client)
              | Inl e \<Rightarrow>
                  io_bind (read_clock be) (\<lambda>now.
                  let remaining = limit - (now - started)
                  in if as_millis remaining > 0
                     then io_bind (reading (\<lambda>w. ((), en_sleep en (min STARTUP_RETRY_INTERVAL remaining) w)))
                            (\<lambda>_. io_ok (Inl e))
                     else io_ok (Inl e)))))"

definition wait_body ::
  "'w backend \<Rightarrow> 'w engine \<Rightarrow> string \<Rightarrow> duration \<Rightarrow> nat \<Rightarrow> duration \<Rightarrow> owned_container_profile
     \<Rightarrow> error option \<times> 'w io_state
     \<Rightarrow> (admin_client result exec \<times> 'w io_state) + (error option \<times> 'w io_state)" where
  "wait_body be en admin_url op_timeout started limit profile ls =
     (case wait_iteration be en admin_url op_timeout started limit profile (fst ls) (snd ls) of
        (Return (Inr (Inr client)), t) \<Rightarrow> Inl (Return (Inr client), t)
      | (Return (Inr (Inl e)), t) \<Rightarrow> Inr (Some e, t)
      | (Return (Inl e), t) \<Rightarrow> Inl (Return (Inl e), t)
      | (Panic m, t) \<Rightarrow> Inl (Panic m, t))"

definition wait_for_owned_server ::
  "'w backend \<Rightarrow> 'w engine \<Rightarrow> string \<Rightarrow> duration \<Rightarrow> nat \<Rightarrow> duration \<Rightarrow> owned_container_profile
     \<Rightarrow> 'w io_state \<Rightarrow> (admin_client result exec \<times> 'w io_state) option" where
  "wait_for_owned_server be en admin_url op_timeout started limit profile s =
     rust_loop (wait_body be en admin_url op_timeout started limit profile) (None, s)"

section \<open>The address of a started container\<close>

definition ipv4_mapped_container_host :: "string \<Rightarrow> string" where
  "ipv4_mapped_container_host host =
     (if to_ascii_lowercase (bytes_of_string host) = to_ascii_lowercase (bytes_of_string ''localhost'')
      then ''127.0.0.1'' else host)"

definition resolve_started_container ::
  "'w engine \<Rightarrow> string \<Rightarrow> 'w \<Rightarrow> (string + started_container) \<times> 'w" where
  "resolve_started_container en ident w =
     (case en_host en w of
        (Inl e, w1) \<Rightarrow> (Inl e, w1)
      | (Inr host, w1) \<Rightarrow>
          (case en_port en POSTGRES_PORT w1 of
             (Inl e, w2) \<Rightarrow> (Inl e, w2)
           | (Inr port, w2) \<Rightarrow>
               (Inr \<lparr>sc_id = ident, sc_host = ipv4_mapped_container_host host, sc_port = port\<rparr>, w2)))"

definition resolve_body ::
  "'w backend \<Rightarrow> 'w engine \<Rightarrow> string \<Rightarrow> nat \<Rightarrow> duration \<Rightarrow> 'w
     \<Rightarrow> ((string + started_container) \<times> 'w) + 'w" where
  "resolve_body be en ident started limit w =
     (case resolve_started_container en ident w of
        (Inr container, w1) \<Rightarrow> Inl (Inr container, w1)
      | (Inl e, w1) \<Rightarrow>
          (let (now, w2) = be_now be w1
           in if now - started \<ge> limit then Inl (Inl e, w2)
              else let (running, w3) = en_is_running en w2
              in if running = Inr False then Inl (Inl e, w3)
                 else let (now, w4) = be_now be w3
                 in Inr (en_sleep en (min STARTUP_RETRY_INTERVAL (limit - (now - started))) w4)))"

definition resolve_started_container_with_retry ::
  "'w backend \<Rightarrow> 'w engine \<Rightarrow> string \<Rightarrow> duration \<Rightarrow> 'w \<Rightarrow> ((string + started_container) \<times> 'w) option" where
  "resolve_started_container_with_retry be en ident limit w =
     (let (started, w1) = be_now be w in rust_loop (resolve_body be en ident started limit) w1)"

section \<open>The worker thread\<close>

datatype container_command = Command_ready | Command_shutdown

text \<open>
  What the worker sees while it monitors: a command, all senders gone, or a timed-out wait followed by
  what the engine says of the container (running, exit code, error and output streams).
\<close>

datatype observation =
    Received container_command
  | Disconnected
  | Timed_out "string + bool" "string + int option" bytes bytes

text \<open>Whether a blocking \<open>recv\<close> returns.\<close>

fun await_command :: "observation list \<Rightarrow> bool" where
  "await_command [] = False"
| "await_command (Timed_out _ _ _ _ # os) = await_command os"
| "await_command (_ # os) = True"

text \<open>The recorded exit, and whether the monitor has returned.\<close>

fun monitor_container_startup ::
  "observation list \<Rightarrow> container_exit option \<Rightarrow> container_exit option \<times> bool" where
  "monitor_container_startup [] startup_exit = (startup_exit, False)"
| "monitor_container_startup (Received Command_ready # os) startup_exit = (startup_exit, await_command os)"
| "monitor_container_startup (Received Command_shutdown # os) startup_exit = (startup_exit, True)"
| "monitor_container_startup (Disconnected # os) startup_exit = (startup_exit, True)"
| "monitor_container_startup (Timed_out running code err out # os) startup_exit =
     (if running = Inr False
      then (Some \<lparr>exit_code = (case code of Inr c \<Rightarrow> c | Inl _ \<Rightarrow> None),
                  exit_output = bounded_container_output err out\<rparr>, await_command os)
      else monitor_container_startup os startup_exit)"

text \<open>
  The worker's closure: what it sends back, the exit it records, how often it asks for removal, and
  its result once it has finished.
\<close>

record worker_run =
  wr_sent :: "(string + started_container) option"
  wr_startup_exit :: "container_exit option"
  wr_removals :: nat
  wr_result :: "join_outcome option"

definition container_worker ::
  "(string + unit) \<Rightarrow> string + started_container \<Rightarrow> bool \<Rightarrow> observation list \<Rightarrow> string option \<Rightarrow> worker_run" where
  "container_worker start started receiver os removal =
     (case start of
        Inl source \<Rightarrow>
          \<lparr>wr_sent = Some (Inl source), wr_startup_exit = None, wr_removals = 0, wr_result = Some (Joined None)\<rparr>
      | Inr _ \<Rightarrow>
          if \<not> receiver
          then \<lparr>wr_sent = None, wr_startup_exit = None, wr_removals = 1, wr_result = Some (Joined removal)\<rparr>
          else (case monitor_container_startup os None of
                  (exit, False) \<Rightarrow>
                    \<lparr>wr_sent = Some started, wr_startup_exit = exit, wr_removals = 0, wr_result = None\<rparr>
                | (exit, True) \<Rightarrow>
                    \<lparr>wr_sent = Some started, wr_startup_exit = exit, wr_removals = 1,
                     wr_result = Some (Joined removal)\<rparr>))"

end
