(* ===== verification/Startup.thy ===== *)
theory Startup
  imports Container_Start Stale
begin

text \<open>
  The process-wide registry of container owners, and the start of a harness from its configuration
  (\<open>ContainerOwner::start\<close>, \<open>register_container\<close>, \<open>cleanup_owned_containers_at_exit\<close> and
  \<open>start_blocking\<close> of \<open>src/server.rs\<close>, \<open>PostgresHarness::start\<close> of \<open>src/harness.rs\<close>).
\<close>

section \<open>The process\<close>

text \<open>
  Worker threads are numbered, and an owner has the number of its worker: it is present while a strong
  reference to it exists. \<open>ps_unjoined\<close> lists the workers that have been spawned and not joined. The
  registry holds weak references; both process-wide cells are \<open>None\<close> until they are first used. The
  registry's mutex is poisoned by a panic of a thread that holds it.
\<close>

record process =
  ps_next :: nat
  ps_owners :: "nat \<rightharpoonup> container_owner"
  ps_unjoined :: "nat list"
  ps_exit_registration :: "int option"
  ps_registry :: "nat list option"
  ps_registry_poisoned :: bool

definition registered :: "process \<Rightarrow> nat list" where
  "registered ps = (case ps_registry ps of None \<Rightarrow> [] | Some owners \<Rightarrow> owners)"

definition register_container :: "int \<Rightarrow> nat \<Rightarrow> process \<Rightarrow> unit result \<times> process" where
  "register_container atexit container ps =
     (let registration = (case ps_exit_registration ps of Some r \<Rightarrow> r | None \<Rightarrow> atexit);
          ps1 = ps\<lparr>ps_exit_registration := Some registration\<rparr>
      in if registration \<noteq> 0 then (Inl ExitCleanupRegistration, ps1)
         else let ps2 = ps1\<lparr>ps_registry := Some (registered ps1)\<rparr>
         in if ps_registry_poisoned ps2
            then (Inl (StatePoisoned ''register PostgreSQL container for process-exit cleanup''), ps2)
            else (Inr (), ps2\<lparr>ps_registry := Some (registered ps2 @ [container])\<rparr>))"

text \<open>\<open>ContainerOwner::shutdown\<close> on a shared owner, and the drop of its last strong reference.\<close>

definition shutdown_owner :: "join_outcome \<Rightarrow> nat \<Rightarrow> process \<Rightarrow> unit result \<times> process" where
  "shutdown_owner handle container ps =
     (case ps_owners ps container of
        None \<Rightarrow> (Inr (), ps)
      | Some self \<Rightarrow>
          (let (r, self') = owner_shutdown handle self;
               joined = (co_worker self \<and> \<not> co_worker self')
           in (r, ps\<lparr>ps_owners := (ps_owners ps)(container \<mapsto> self'),
                     ps_unjoined := (if joined then removeAll container (ps_unjoined ps) else ps_unjoined ps)\<rparr>)))"

definition drop_owner :: "join_outcome \<Rightarrow> nat \<Rightarrow> process \<Rightarrow> process" where
  "drop_owner handle container ps =
     (let ps1 = snd (shutdown_owner handle container ps)
      in ps1\<lparr>ps_owners := (ps_owners ps1)(container := None)\<rparr>)"

fun shutdown_all :: "(nat \<Rightarrow> join_outcome) \<Rightarrow> nat list \<Rightarrow> process \<Rightarrow> process" where
  "shutdown_all handles [] ps = ps"
| "shutdown_all handles (c # cs) ps = shutdown_all handles cs (snd (shutdown_owner (handles c) c ps))"

definition cleanup_owned_containers_at_exit :: "(nat \<Rightarrow> join_outcome) \<Rightarrow> process \<Rightarrow> process" where
  "cleanup_owned_containers_at_exit handles ps =
     (case ps_registry ps of
        None \<Rightarrow> ps
      | Some containers \<Rightarrow>
          if ps_registry_poisoned ps then ps
          else shutdown_all handles containers (ps\<lparr>ps_registry := Some []\<rparr>))"

section \<open>\<open>ContainerOwner::start\<close>\<close>

text \<open>
  What the outside contributes to one start: spawning the worker thread, what the channel delivers
  before the timeout, the result of joining the worker, and of registering with \<open>atexit\<close>.
\<close>

datatype recv_outcome = Recv_started "string + started_container" | Recv_timeout | Recv_disconnected

record launch =
  la_spawn :: "string option"
  la_received :: recv_outcome
  la_join :: join_outcome
  la_atexit :: int

definition container_admin_url :: "started_container \<Rightarrow> string" where
  "container_admin_url started =
     ''postgres://'' @ POSTGRES_USER @ '':'' @ POSTGRES_PASSWORD @ ''@'' @ sc_host started @ '':''
       @ show_nat (sc_port started) @ ''/'' @ POSTGRES_DATABASE @ ''?sslmode=disable''"

text \<open>
  The end of \<open>start\<close>, for worker \<open>worker\<close>. A failed registration drops the new owner, which stops its
  worker. An address that does not parse only closes the command channel: the worker then removes the
  container by itself.
\<close>

definition ContainerOwner_adopt ::
  "'u url_api \<Rightarrow> launch \<Rightarrow> nat \<Rightarrow> started_container \<Rightarrow> process
     \<Rightarrow> (nat \<times> 'u admin_database_url) result \<times> process" where
  "ContainerOwner_adopt api la worker started ps =
     (case AdminDatabaseUrl_parse api (container_admin_url started) of
        Inl e \<Rightarrow> (Inl e, ps)
      | Inr admin_url \<Rightarrow>
          (let ps1 = ps\<lparr>ps_owners := (ps_owners ps)(worker \<mapsto>
                 \<lparr>co_id = sc_id started, co_worker = True, co_poisoned = False, co_startup_exit = None\<rparr>)\<rparr>
           in case register_container (la_atexit la) worker ps1 of
                (Inl e, ps2) \<Rightarrow> (Inl e, drop_owner (la_join la) worker ps2)
              | (Inr _, ps2) \<Rightarrow> (Inr (worker, admin_url), ps2)))"

definition ContainerOwner_start ::
  "'u url_api \<Rightarrow> (container_request \<Rightarrow> launch) \<Rightarrow> nat \<Rightarrow> image_reference \<Rightarrow> owned_container_profile
     \<Rightarrow> project_name \<Rightarrow> string \<Rightarrow> duration \<Rightarrow> process \<Rightarrow> (nat \<times> 'u admin_database_url) result \<times> process" where
  "ContainerOwner_start api launch unix_now img profile project run_id limit ps =
     (let request = build_container_request img profile limit (project_as_str project) run_id (show_nat unix_now);
          la = launch request; worker = ps_next ps;
          ps1 = ps\<lparr>ps_next := Suc worker, ps_unjoined := worker # ps_unjoined ps\<rparr>;
          failed = (\<lambda>e. (Inl (combine_startup_and_cleanup e (join_failed_startup_worker (la_join la))),
                         ps1\<lparr>ps_unjoined := removeAll worker (ps_unjoined ps1)\<rparr>))
      in case la_spawn la of
           Some source \<Rightarrow> (Inl (ContainerWorkerStart source), ps)
         | None \<Rightarrow>
             (case la_received la of
                Recv_started (Inr started) \<Rightarrow> ContainerOwner_adopt api la worker started ps1
              | Recv_started (Inl source) \<Rightarrow> failed (map_container_start_error profile source)
              | Recv_timeout \<Rightarrow> failed (ContainerStartupTimeout limit)
              | Recv_disconnected \<Rightarrow> failed ContainerWorkerStopped))"

section \<open>\<open>start_blocking\<close>\<close>

text \<open>A call that fails or panics drops the owner it holds.\<close>

definition releasing_owner ::
  "join_outcome \<Rightarrow> nat \<Rightarrow> 'a result exec \<times> 'w io_state \<Rightarrow> process
     \<Rightarrow> 'a result exec \<times> 'w io_state \<times> process" where
  "releasing_owner handle container rt ps =
     (case rt of
        (Return (Inr x), t) \<Rightarrow> (Return (Inr x), t, ps)
      | (r, t) \<Rightarrow> (r, t, drop_owner handle container ps))"

definition mark_owner_ready :: "'w engine \<Rightarrow> nat \<Rightarrow> process \<Rightarrow> ('w, unit) io" where
  "mark_owner_ready en container ps =
     io_bind (reading (en_listening en)) (\<lambda>receiver.
     io_result (case ps_owners ps container of
        None \<Rightarrow> Inl ContainerWorkerStopped | Some self \<Rightarrow> mark_ready receiver self))"

definition start_owned ::
  "'u url_api \<Rightarrow> 'g semaphore \<Rightarrow> 'w backend \<Rightarrow> 'w engine \<Rightarrow> (container_request \<Rightarrow> launch)
     \<Rightarrow> (nat \<Rightarrow> string option) \<Rightarrow> nat \<Rightarrow> (string \<rightharpoonup> string) \<Rightarrow> harness_config \<Rightarrow> connection_limits
     \<Rightarrow> string \<Rightarrow> int \<Rightarrow> join_outcome \<Rightarrow> process \<Rightarrow> 'w io_state
     \<Rightarrow> (('u, 'g) server_state result exec \<times> 'w io_state \<times> process) option" where
  "start_owned api sem be en launch spawn unix_now env config limits run_id owner_key handle ps s =
     (let (now, w) = be_now be (world s); s1 = s\<lparr>world := w\<rparr>
      in case resolved_image env config of
           Inl e \<Rightarrow> Some (Return (Inl e), s1, ps)
         | Inr img \<Rightarrow>
             (case ContainerOwner_start api launch unix_now img (cfg_owned_container_profile config)
                     (cfg_project config) run_id (startup_timeout config) ps of
                (Inl e, ps1) \<Rightarrow> Some (Return (Inl e), s1, ps1)
              | (Inr (container, admin_url), ps1) \<Rightarrow>
                  map_option (\<lambda>(r, t). releasing_owner handle container
                      (io_bind (\<lambda>_. (r, t)) (\<lambda>owner_lock.
                       io_bind (mark_owner_ready en container ps1) (\<lambda>_.
                       finish_start_with_client be api sem spawn config limits admin_url (Some container)
                         owner_key owner_lock)) t) ps1)
                    (wait_for_owned_server be en (admin_url_as_str api admin_url) (cfg_operation_timeout config)
                       now (startup_timeout config) (cfg_owned_container_profile config) s1)))"

text \<open>
  \<open>containers\<close> is the crate feature, \<open>run_id\<close> the fresh identifier of this run, \<open>handle\<close> what joining
  the worker gives when a failing start drops the owner.
\<close>

definition start_blocking ::
  "bool \<Rightarrow> (bytes \<Rightarrow> bytes) \<Rightarrow> 'u url_api \<Rightarrow> 'g semaphore \<Rightarrow> 'w backend \<Rightarrow> 'w engine
     \<Rightarrow> (container_request \<Rightarrow> launch) \<Rightarrow> (nat \<Rightarrow> string option) \<Rightarrow> nat \<Rightarrow> (string \<rightharpoonup> string)
     \<Rightarrow> string \<Rightarrow> join_outcome \<Rightarrow> harness_config \<Rightarrow> process \<Rightarrow> 'w io_state
     \<Rightarrow> (('u, 'g) server_state result exec \<times> 'w io_state \<times> process) option" where
  "start_blocking containers sha256 api sem be en launch spawn unix_now env run_id handle config ps s =
     (case resolve_connection_limits config of
        Inl e \<Rightarrow> Some (Return (Inl e), s, ps)
      | Inr limits \<Rightarrow>
          (case advisory_key sha256 ''run'' run_id of
             Panic m \<Rightarrow> Some (Panic m, s, ps)
           | Return owner_key \<Rightarrow>
               (case resolved_admin_database_url env config of
                  Some value \<Rightarrow>
                    (case AdminDatabaseUrl_parse api value of
                       Inl e \<Rightarrow> Some (Return (Inl e), s, ps)
                     | Inr admin_url \<Rightarrow>
                         (let (r, t) = finish_start be api sem spawn config limits admin_url None owner_key s
                          in Some (r, t, ps)))
                | None \<Rightarrow>
                    if \<not> containers then Some (Return (Inl ExternalAdminUrlRequired), s, ps)
                    else start_owned api sem be en launch spawn unix_now env config limits run_id owner_key
                           handle ps s)))"

definition harness_start ::
  "bool \<Rightarrow> (bytes \<Rightarrow> bytes) \<Rightarrow> 'u url_api \<Rightarrow> 'g semaphore \<Rightarrow> 'w backend \<Rightarrow> 'w engine
     \<Rightarrow> (container_request \<Rightarrow> launch) \<Rightarrow> (nat \<Rightarrow> string option) \<Rightarrow> nat \<Rightarrow> (string \<rightharpoonup> string)
     \<Rightarrow> string \<Rightarrow> join_outcome \<Rightarrow> harness_config \<Rightarrow> process \<Rightarrow> 'w io_state
     \<Rightarrow> (('u, 'g) server_state result exec \<times> 'w io_state \<times> process) option" where
  "harness_start containers sha256 api sem be en launch spawn unix_now env run_id handle config ps s =
     (case start_blocking containers sha256 api sem be en launch spawn unix_now env run_id handle config ps s of
        None \<Rightarrow> None
      | Some (r, t, ps1) \<Rightarrow>
          Some (case blocking_result r of
             Inl e \<Rightarrow> (Return (Inl e), t, ps1)
           | Inr server \<Rightarrow>
               if is_external (ss_inner server) \<and> srv_cleanup_on_start (ss_inner server) then
                 (let (r', t') = io_bind (cleanup_stale_with be api (srv_admin_url (ss_inner server))
                                   (srv_project (ss_inner server)) (srv_stale_after (ss_inner server))
                                   (srv_operation_timeout (ss_inner server)) unix_now) (\<lambda>_. io_ok server) t
                  in (r', t', ps1))
               else (Return (Inr server), t, ps1)))"

section \<open>The life of a process\<close>

text \<open>
  Container starts, shutdowns of shared owners and drops of last references, in any order. No code of
  the crate panics while it holds the registry's mutex or an owner's.
\<close>

inductive process_step :: "'u url_api \<Rightarrow> process \<Rightarrow> process \<Rightarrow> bool" for api :: "'u url_api" where
  start: "ContainerOwner_start api launch now img profile project run_id limit ps = (r, ps') \<Longrightarrow>
    process_step api ps ps'"
| stop: "shutdown_owner handle container ps = (r, ps') \<Longrightarrow> process_step api ps ps'"
| drop: "process_step api ps (drop_owner handle container ps)"

definition fresh_process :: process where
  "fresh_process = \<lparr>ps_next = 0, ps_owners = Map.empty, ps_unjoined = [], ps_exit_registration = None,
     ps_registry = None, ps_registry_poisoned = False\<rparr>"

definition owners_ok :: "process \<Rightarrow> bool" where
  "owners_ok ps \<longleftrightarrow> (\<forall>c self. ps_owners ps c = Some self \<longrightarrow>
     \<not> co_poisoned self \<and> (c \<in> set (ps_unjoined ps) \<longrightarrow> co_worker self))"

definition process_inv :: "process \<Rightarrow> bool" where
  "process_inv ps \<longleftrightarrow>
     \<not> ps_registry_poisoned ps \<and> owners_ok ps
   \<and> (\<forall>c \<ge> ps_next ps. ps_owners ps c = None \<and> c \<notin> set (ps_unjoined ps))
   \<and> (\<forall>c self. ps_owners ps c = Some self \<longrightarrow> co_worker self \<longrightarrow> c \<in> set (registered ps))"

end
