(* ===== verification/Container_Properties.thy ===== *)
theory Container_Properties
  imports Startup Request_Invariants Demo_Server
begin

text \<open>
  Properties of owned containers: the wait for the server ends and its errors are accounted for, the
  worker removes what it started, a failing start and the end of the process leave no owner with a
  running worker.
\<close>

section \<open>Time passes\<close>

definition not_before :: "('w \<Rightarrow> nat) \<Rightarrow> nat \<Rightarrow> 'w io_state \<Rightarrow> bool" where
  "not_before time T s \<longleftrightarrow> T \<le> time (world s)"

lemma clock_lawsD:
  assumes "clock_laws be en time"
  shows "time w \<le> fst (be_now be w)" "fst (be_now be w) \<le> time (snd (be_now be w))"
    "time w \<le> time (snd (be_now be w))"
    "time w \<le> time (snd (be_connect be u d w))" "time w \<le> time (snd (be_batch be c d q w))"
    "time w \<le> time (snd (en_startup_exit en w))" "time w \<le> time (snd (en_host en w))"
    "time w \<le> time (snd (en_port en p w))" "time w \<le> time (snd (en_is_running en w))"
    "time w + d \<le> time (en_sleep en d w)"
  using assms by (auto simp: clock_laws_def intro: order_trans)

lemma time_requests:
  assumes "clock_laws be en time"
  shows "preserves (not_before time T) (read_clock be)"
    "preserves (not_before time T) (AdminClient_connect be url ct rt op)"
    "preserves (not_before time T) (batch_execute_with_timeout be c timeout op q)"
  using clock_lawsD(3,4,5)[OF assms]
  by (auto simp: preserves_def not_before_def read_clock_def AdminClient_connect_def
      batch_execute_with_timeout_def Let_def case_prod_beta split: connect_reply.splits intro: order_trans)

lemma time_connect:
  assumes "clock_laws be en time"
  shows "preserves (not_before time T) (connect_admin_with_setup_timeout be url op_timeout op ct st)"
  unfolding connect_admin_with_setup_timeout_def Deadline_new_def deadline_remaining_def
    configure_session_timeouts_with_timeout_def
  by (intro preserves_intros time_requests[OF assms])

lemma connect_no_panic: "fst (connect_admin_with_setup_timeout be url op_timeout op ct st s) \<noteq> Panic m"
  by (auto simp: connect_admin_with_setup_timeout_def Deadline_new_def deadline_remaining_def io_bind_def
      configure_session_timeouts_with_timeout_def AdminClient_connect_def batch_execute_with_timeout_def
      read_clock_def Let_def case_prod_beta split: prod.splits exec.splits sum.splits option.splits connect_reply.splits)

section \<open>Waiting for the server\<close>

definition attempt_failed :: "'w backend \<Rightarrow> string \<Rightarrow> duration \<Rightarrow> error \<Rightarrow> bool" where
  "attempt_failed be url op_timeout e \<longleftrightarrow>
     (\<exists>ct st s t. connect_admin_with_setup_timeout be url op_timeout WAIT_OPERATION ct st s = (Return (Inl e), t))"

definition exit_seen :: "'w engine \<Rightarrow> container_exit \<Rightarrow> bool" where
  "exit_seen en exit \<longleftrightarrow> (\<exists>w. fst (en_startup_exit en w) = Some exit)"

lemma exit_seenI: "fst (en_startup_exit en w) = Some exit \<Longrightarrow> exit_seen en exit"
  by (auto simp: exit_seen_def)

lemma bind_readings:
  "io_bind (reading f) g s = g (fst (f (world s))) (s\<lparr>world := snd (f (world s))\<rparr>)"
  "io_bind (read_clock be) h s = h (fst (be_now be (world s))) (s\<lparr>world := snd (be_now be (world s))\<rparr>)"
  "io_bind (io_try m) k s = (case m s of (Return r, t) \<Rightarrow> k r t | (Panic msg, t) \<Rightarrow> (Panic msg, t))"
  by (simp_all add: io_bind_def reading_def read_clock_def io_try_def case_prod_beta split: prod.split exec.split)

lemma wait_iteration_unfold:
  "wait_iteration be en url op_timeout started limit profile last_error s =
     (let w1 = snd (en_startup_exit en (world s)); w2 = snd (be_now be w1);
          remaining = limit - (fst (be_now be w1) - started); s2 = s\<lparr>world := w2\<rparr>
      in case fst (en_startup_exit en (world s)) of
           Some exit \<Rightarrow> (Return (Inl (container_exit_error profile exit)), s\<lparr>world := w1\<rparr>)
         | None \<Rightarrow>
             if as_millis remaining = 0 then
               (case fst (en_startup_exit en w2) of
                  Some exit \<Rightarrow> (Return (Inl (container_exit_error profile exit)), s\<lparr>world := snd (en_startup_exit en w2)\<rparr>)
                | None \<Rightarrow> (Return (Inl (startup_timeout_error limit last_error)), s\<lparr>world := snd (en_startup_exit en w2)\<rparr>))
             else
               (case connect_admin_with_setup_timeout be url op_timeout WAIT_OPERATION
                       (min STARTUP_CONNECT_ATTEMPT_TIMEOUT remaining) remaining s2 of
                  (Return (Inr client), t) \<Rightarrow> (Return (Inr (Inr client)), t)
                | (Return (Inl e), t) \<Rightarrow>
                    (let w4 = snd (be_now be (world t)); rest = limit - (fst (be_now be (world t)) - started)
                     in (Return (Inr (Inl e)),
                         t\<lparr>world := if as_millis rest > 0 then en_sleep en (min STARTUP_RETRY_INTERVAL rest) w4 else w4\<rparr>))
                | (Panic m, t) \<Rightarrow> (Panic m, t)))"
proof (cases "fst (en_startup_exit en (world s))")
  case None
  let ?w2 = "snd (be_now be (snd (en_startup_exit en (world s))))"
  show ?thesis
  proof (cases "fst (en_startup_exit en ?w2)")
    case None
    with \<open>fst (en_startup_exit en (world s)) = None\<close> show ?thesis
      by (simp add: wait_iteration_def bind_readings Let_def split: prod.split exec.split sum.split)
  next
    case (Some exit)
    with \<open>fst (en_startup_exit en (world s)) = None\<close> show ?thesis
      by (simp add: wait_iteration_def bind_readings Let_def split: prod.split exec.split sum.split)
  qed
qed (simp add: wait_iteration_def bind_readings Let_def)

lemma as_millis_mono: "a \<le> b \<Longrightarrow> as_millis a \<le> as_millis b"
  by (simp add: as_millis_def div_le_mono)

lemma as_millis_zero_mono: "as_millis b = 0 \<Longrightarrow> a \<le> b \<Longrightarrow> as_millis a = 0"
  using as_millis_mono[of a b] by simp

lemma sleep_progress:
  assumes "started \<le> now" "as_millis (limit - (now - started)) > 0"
    and "now + min STARTUP_RETRY_INTERVAL (limit - (now - started)) \<le> later"
  shows "as_millis (limit - (later - started)) < as_millis (limit - (now - started))"
proof -
  let ?r = "limit - (now - started)"
  have r: "1000000 \<le> ?r" using assms(2) as_millis_zero_iff[of ?r] by linarith
  with assms(1,3) have "limit - (later - started) \<le> ?r - 1000000"
    by (auto simp: STARTUP_RETRY_INTERVAL_def from_millis_def min_def split: if_splits)
  then have "as_millis (limit - (later - started)) \<le> as_millis (?r - 1000000)" by (rule as_millis_mono)
  also have "\<dots> < as_millis ?r" using r by (simp add: as_millis_def)
  finally show ?thesis .
qed

definition wait_inv ::
  "'w backend \<Rightarrow> 'w engine \<Rightarrow> ('w \<Rightarrow> nat) \<Rightarrow> string \<Rightarrow> duration \<Rightarrow> nat \<Rightarrow> event list
     \<Rightarrow> error option \<times> 'w io_state \<Rightarrow> bool" where
  "wait_inv be en time url op_timeout started tr ls \<longleftrightarrow>
     clock_laws be en time \<and> started \<le> time (world (snd ls))
   \<and> (case fst ls of None \<Rightarrow> trace (snd ls) = tr | Some e \<Rightarrow> attempt_failed be url op_timeout e)"

definition wait_bound :: "('w \<Rightarrow> nat) \<Rightarrow> nat \<Rightarrow> duration \<Rightarrow> error option \<times> 'w io_state \<Rightarrow> nat" where
  "wait_bound time started limit ls = as_millis (limit - (time (world (snd ls)) - started))"

lemma wait_again:
  assumes "wait_inv be en time url op_timeout started tr ls"
    and "wait_body be en url op_timeout started limit profile ls = Inr ls'"
  shows "wait_inv be en time url op_timeout started tr ls' \<and> wait_bound time started limit ls' < wait_bound time started limit ls"
proof -
  obtain l s where ls: "ls = (l, s)" by fastforce
  let ?w1 = "snd (en_startup_exit en (world s))"
  define s2 where "s2 = s\<lparr>world := snd (be_now be ?w1)\<rparr>"
  define remaining where "remaining = limit - (fst (be_now be ?w1) - started)"
  from assms(1) ls have laws: "clock_laws be en time" and st: "started \<le> time (world s)" by (auto simp: wait_inv_def)
  note law = clock_lawsD[OF laws]
  note body = assms(2)[unfolded ls wait_body_def fst_conv snd_conv wait_iteration_unfold Let_def,
      folded s2_def remaining_def]
  from body have none: "fst (en_startup_exit en (world s)) = None" by (simp split: option.splits)
  from body none have pos: "as_millis remaining > 0" by (auto split: option.splits if_splits)
  obtain v t where c: "connect_admin_with_setup_timeout be url op_timeout WAIT_OPERATION
      (min STARTUP_CONNECT_ATTEMPT_TIMEOUT remaining) remaining s2 = (Return v, t)"
    using connect_no_panic by (metis exec.exhaust prod.collapse)
  from body none pos c obtain e where v: "v = Inl e"
    and ls': "ls' = (Some e, t\<lparr>world :=
        let rest = limit - (fst (be_now be (world t)) - started)
        in if as_millis rest > 0 then en_sleep en (min STARTUP_RETRY_INTERVAL rest) (snd (be_now be (world t)))
           else snd (be_now be (world t))\<rparr>)"
    by (cases v) (auto simp: Let_def)
  note c = c[unfolded v]
  have t: "time (world s) \<le> fst (be_now be ?w1)" "fst (be_now be ?w1) \<le> time (world t)"
    using law(6)[of "world s"] law(1)[of ?w1] law(2)[of ?w1]
      preservesD[OF time_connect[OF laws, of "fst (be_now be ?w1)"] c] by (auto simp: not_before_def s2_def)
  let ?now = "fst (be_now be (world t))"
  let ?rest = "limit - (?now - started)"
  have now: "fst (be_now be ?w1) \<le> ?now" "started \<le> ?now" using t law(1)[of "world t"] st by linarith+
  have early: "as_millis ?rest \<le> as_millis remaining" "as_millis remaining \<le> wait_bound time started limit ls"
    using now t(1) by (auto simp: remaining_def wait_bound_def ls intro!: as_millis_mono)
  have sleep: "?now + d \<le> time (en_sleep en d (snd (be_now be (world t))))" for d
    using law(2)[of "world t"] law(10)[of "snd (be_now be (world t))" d] by linarith
  have "wait_bound time started limit ls' < wait_bound time started limit ls"
  proof (cases "as_millis ?rest > 0")
    case True
    from sleep_progress[OF now(2) True sleep] True early show ?thesis by (simp add: wait_bound_def ls' Let_def)
  next
    case False
    have "?now \<le> time (snd (be_now be (world t)))" by (rule law(2))
    then have "wait_bound time started limit ls' = 0"
      using False by (auto simp: wait_bound_def ls' Let_def intro: as_millis_zero_mono)
    with pos early show ?thesis by linarith
  qed
  moreover have "started \<le> time (world (snd ls'))"
    using now(2) law(2)[of "world t"] order_trans[OF le_add1 sleep] by (auto simp: ls' Let_def intro: order_trans)
  moreover have "attempt_failed be url op_timeout e" using c by (auto simp: attempt_failed_def)
  ultimately show ?thesis using laws by (simp add: wait_inv_def ls')
qed

interpretation wait_loop: bounded_loop "wait_body be en url op_timeout started limit profile"
  "wait_inv be en time url op_timeout started tr" "wait_bound time started limit"
  for be en url op_timeout started limit profile time tr
  by unfold_locales (rule wait_again)

text \<open>How the last pass ends.\<close>

lemma wait_breaks:
  assumes "wait_inv be en time url op_timeout started tr ls"
    and "wait_body be en url op_timeout started limit profile ls = Inl (r, t)"
  obtains (connected) client remaining ct u where "r = Return (Inr client)"
      "connect_admin_with_setup_timeout be url op_timeout WAIT_OPERATION ct remaining u = (Return (Inr client), t)"
      "remaining \<le> limit" "ct \<le> STARTUP_CONNECT_ATTEMPT_TIMEOUT"
    | (exited) exit where "r = Return (Inl (container_exit_error profile exit))" "exit_seen en exit"
    | (expired) "r = Return (Inl (startup_timeout_error limit (fst ls)))"
      "as_millis (limit - (time (world t) - started)) = 0" "trace t = trace (snd ls)"
proof -
  obtain l s where ls: "ls = (l, s)" by fastforce
  let ?w1 = "snd (en_startup_exit en (world s))" and ?now = "fst (be_now be (snd (en_startup_exit en (world s))))"
  from assms(1) have laws: "clock_laws be en time" by (simp add: wait_inv_def)
  have "?now \<le> time (snd (en_startup_exit en (snd (be_now be ?w1))))"
    using clock_lawsD(2,6)[OF laws] by (meson order_trans)
  then have late: "as_millis (limit - (?now - started)) = 0 \<Longrightarrow>
      as_millis (limit - (time (snd (en_startup_exit en (snd (be_now be ?w1)))) - started)) = 0"
    by (auto intro: as_millis_zero_mono)
  note body = assms(2)[unfolded ls wait_body_def fst_conv snd_conv wait_iteration_unfold Let_def]
  show thesis
  proof (cases "fst (en_startup_exit en (world s))")
    case (Some exit)
    with body show thesis by (auto intro: exited[OF _ exit_seenI])
  next
    case None
    show thesis
    proof (cases "as_millis (limit - (?now - started)) = 0")
      case True
      with None body late show thesis
        by (auto simp: ls split: option.splits intro: exited[OF _ exit_seenI] expired)
    next
      case False
      let ?rem = "limit - (?now - started)"
      let ?ct = "min STARTUP_CONNECT_ATTEMPT_TIMEOUT ?rem" and ?u = "s\<lparr>world := snd (be_now be ?w1)\<rparr>"
      obtain v t' where c: "connect_admin_with_setup_timeout be url op_timeout WAIT_OPERATION ?ct ?rem ?u = (Return v, t')"
        using connect_no_panic[of be url op_timeout WAIT_OPERATION ?ct ?rem ?u] by (metis exec.exhaust prod.collapse)
      with False None body obtain client where v: "v = Inr client" "r = Return (Inr client)" "t = t'"
        by (cases v) auto
      from connected[OF v(2) c[unfolded v(1) v(3)[symmetric]]] show thesis by simp
    qed
  qed
qed

section \<open>The address lookup\<close>

definition resolve_inv :: "'w backend \<Rightarrow> 'w engine \<Rightarrow> ('w \<Rightarrow> nat) \<Rightarrow> nat \<Rightarrow> 'w \<Rightarrow> bool" where
  "resolve_inv be en time started w \<longleftrightarrow> clock_laws be en time \<and> started \<le> time w"

lemma resolve_time:
  assumes "clock_laws be en time" shows "time w \<le> time (snd (resolve_started_container en ident w))"
  using clock_lawsD(7,8)[OF assms]
  by (auto simp: resolve_started_container_def split: prod.splits sum.splits) (metis order_trans snd_conv)+

lemma resolve_again:
  assumes "resolve_inv be en time started w" "resolve_body be en ident started limit w = Inr w'"
  shows "resolve_inv be en time started w' \<and> limit - (time w' - started) < limit - (time w - started)"
proof -
  from assms(1) have laws: "clock_laws be en time" and st: "started \<le> time w" by (auto simp: resolve_inv_def)
  note law = clock_lawsD[OF laws]
  let ?w1 = "snd (resolve_started_container en ident w)"
  let ?w3 = "snd (en_is_running en (snd (be_now be ?w1)))"
  let ?now = "fst (be_now be ?w3)"
  let ?d = "min STARTUP_RETRY_INTERVAL (limit - (?now - started))"
  from assms(2) have w': "w' = en_sleep en ?d (snd (be_now be ?w3))"
    and early: "fst (be_now be ?w1) - started < limit"
    by (auto simp: resolve_body_def Let_def split: prod.splits sum.splits if_splits)
  have "time w \<le> fst (be_now be ?w1)" using resolve_time[OF laws] law(1) by (meson order_trans)
  moreover have "fst (be_now be ?w1) \<le> ?now" using law(1,2,9) by (meson order_trans)
  moreover have "?now + ?d \<le> time w'"
    using law(2)[of ?w3] law(10)[of "snd (be_now be ?w3)" ?d] by (simp add: w')
  moreover have "0 < STARTUP_RETRY_INTERVAL" by (simp add: STARTUP_RETRY_INTERVAL_def from_millis_def)
  ultimately show ?thesis using early st laws by (auto simp: resolve_inv_def min_def split: if_splits)
qed

interpretation resolve_loop: bounded_loop "resolve_body be en ident started limit"
  "resolve_inv be en time started" "\<lambda>w. limit - (time w - started)"
  for be en ident started limit time
  by unfold_locales (rule resolve_again)

lemma resolve_returns:
  assumes "clock_laws be en time"
  shows "\<exists>r. resolve_started_container_with_retry be en ident limit w = Some r"
proof -
  have "resolve_inv be en time (fst (be_now be w)) (snd (be_now be w))"
    using assms clock_lawsD(2)[OF assms] by (simp add: resolve_inv_def)
  from resolve_loop.loop_returns[OF this, of ident limit] show ?thesis
    unfolding resolve_started_container_with_retry_def case_prod_beta Let_def by blast
qed

section \<open>The worker\<close>

lemma await_command_iff: "await_command os \<longleftrightarrow> (\<exists>o' \<in> set os. \<forall>r c e u. o' \<noteq> Timed_out r c e u)"
  by (induction os rule: await_command.induct) auto

lemma monitor_returns:
  "Disconnected \<in> set os \<or> Received Command_shutdown \<in> set os \<Longrightarrow> snd (monitor_container_startup os exit)"
  by (induction os exit rule: monitor_container_startup.induct) (auto simp: await_command_iff)

text \<open>
  A worker that has started a container asks for its removal exactly once, when it ends, and it ends
  once it was told to shut down or its command channel was closed.
\<close>

lemma worker_removes_container:
  "wr_removals (container_worker (Inr ()) started receiver os removal) =
     (if wr_result (container_worker (Inr ()) started receiver os removal) = None then 0 else 1)"
  "receiver \<longrightarrow> Disconnected \<in> set os \<or> Received Command_shutdown \<in> set os \<Longrightarrow>
     wr_result (container_worker (Inr ()) started receiver os removal) = Some (Joined removal)"
  using monitor_returns[of os None]
  by (auto simp: container_worker_def split: prod.splits bool.splits)

lemma bounded_output_length: "length (bounded_container_output err out) \<le> STARTUP_LOG_LIMIT_BYTES"
  by (auto simp: bounded_container_output_def Let_def min_def)

lemma request_mount_exact:
  "tmpfs_size_bytes profile = Some n \<Longrightarrow> int n \<le> i64_max \<Longrightarrow>
     map mount_size_bytes (req_mounts (build_container_request img profile limit p r c)) = [int n]"
  by (simp add: build_container_request_def u64_as_i64_def)

section \<open>Owners\<close>

lemma shutdown_owner_simps:
  assumes "owners_ok ps" "ps_owners ps c = Some self"
  shows "snd (shutdown_owner h c ps) =
    ps\<lparr>ps_owners := (ps_owners ps)(c \<mapsto> self\<lparr>co_worker := False\<rparr>), ps_unjoined := removeAll c (ps_unjoined ps)\<rparr>"
proof -
  from assms have "c \<notin> set (ps_unjoined ps) \<or> co_worker self" "\<not> co_poisoned self" by (auto simp: owners_ok_def)
  then show ?thesis using assms(2) by (cases self) (auto simp: shutdown_owner_def owner_shutdown_def)
qed

lemma shutdown_owner_absent: "ps_owners ps c = None \<Longrightarrow> snd (shutdown_owner h c ps) = ps"
  by (simp add: shutdown_owner_def)

lemma registered_upd [simp]:
  "registered (ps\<lparr>ps_owners := o'\<rparr>) = registered ps" "registered (ps\<lparr>ps_unjoined := u\<rparr>) = registered ps"
  "registered (ps\<lparr>ps_next := n\<rparr>) = registered ps" "registered (ps\<lparr>ps_exit_registration := x\<rparr>) = registered ps"
  "registered (ps\<lparr>ps_registry := Some rs\<rparr>) = rs"
  by (simp_all add: registered_def)

lemma shutdown_owner_ok: "owners_ok ps \<Longrightarrow> owners_ok (snd (shutdown_owner h c ps))"
  by (cases "ps_owners ps c")
     (auto simp: shutdown_owner_simps shutdown_owner_absent owners_ok_def split: if_splits)

lemma shutdown_owner_inv: "process_inv ps \<Longrightarrow> process_inv (snd (shutdown_owner h c ps))"
  using shutdown_owner_ok[of ps h c] by (cases "ps_owners ps c")
     (auto simp: shutdown_owner_simps shutdown_owner_absent process_inv_def split: if_splits)

lemma drop_owner_inv: "process_inv ps \<Longrightarrow> process_inv (drop_owner h c ps)"
  using shutdown_owner_inv[of ps h c] by (auto simp: drop_owner_def process_inv_def owners_ok_def Let_def)

lemma adopt_cases:
  assumes "ContainerOwner_adopt api la w started ps = (r, ps')"
    and "\<not> ps_registry_poisoned ps" "ps_owners ps w = None"
  obtains (parse) e where "r = Inl e" "ps' = ps" "AdminDatabaseUrl_parse api (container_admin_url started) = Inl e"
    | (refused) e where "r = Inl e" "ps_owners ps' = ps_owners ps" "ps_unjoined ps' = removeAll w (ps_unjoined ps)"
        "registered ps' = registered ps" "ps_next ps' = ps_next ps" "\<not> ps_registry_poisoned ps'"
    | (adopted) url ident where "r = Inr (w, url)" "registered ps' = registered ps @ [w]"
        "ps_owners ps' = (ps_owners ps)(w \<mapsto>
           \<lparr>co_id = ident, co_worker = True, co_poisoned = False, co_startup_exit = None\<rparr>)"
        "ps_unjoined ps' = ps_unjoined ps" "ps_next ps' = ps_next ps" "\<not> ps_registry_poisoned ps'"
proof (cases "AdminDatabaseUrl_parse api (container_admin_url started)")
  case (Inl e)
  with assms(1) show thesis by (auto simp: ContainerOwner_adopt_def intro: parse)
next
  case (Inr url)
  show thesis
  proof (cases "(case ps_exit_registration ps of Some r \<Rightarrow> r | None \<Rightarrow> la_atexit la) = 0")
    case True
    with assms Inr show thesis
      by (auto simp: ContainerOwner_adopt_def register_container_def Let_def intro!: adopted)
  next
    case False
    with assms Inr show thesis
      by (auto simp: ContainerOwner_adopt_def register_container_def Let_def drop_owner_def shutdown_owner_def
          owner_shutdown_def fun_upd_idem intro!: refused)
  qed
qed

lemma removeAll_fresh: "x \<notin> set xs \<Longrightarrow> removeAll x (x # xs) = xs"
  by simp

lemma start_cases:
  assumes "ContainerOwner_start api launch now img profile project run_id limit ps = (r, ps')" "process_inv ps"
  obtains (failed) e where "r = Inl e" "ps_owners ps' = ps_owners ps" "registered ps' = registered ps"
      "ps_next ps \<le> ps_next ps'" "\<not> ps_registry_poisoned ps'" "ps_unjoined ps' = ps_unjoined ps"
    | (detached) e started where "r = Inl e" "ps_owners ps' = ps_owners ps" "registered ps' = registered ps"
      "ps_next ps' = Suc (ps_next ps)" "\<not> ps_registry_poisoned ps'" "ps_unjoined ps' = ps_next ps # ps_unjoined ps"
      "AdminDatabaseUrl_parse api (container_admin_url started) = Inl e"
    | (running) url ident where "r = Inr (ps_next ps, url)" "registered ps' = registered ps @ [ps_next ps]"
      "ps_owners ps' = (ps_owners ps)(ps_next ps \<mapsto>
         \<lparr>co_id = ident, co_worker = True, co_poisoned = False, co_startup_exit = None\<rparr>)"
      "ps_unjoined ps' = ps_next ps # ps_unjoined ps" "ps_next ps' = Suc (ps_next ps)" "\<not> ps_registry_poisoned ps'"
proof -
  let ?la = "launch (build_container_request img profile limit (project_as_str project) run_id (show_nat now))"
  let ?ps1 = "ps\<lparr>ps_next := Suc (ps_next ps), ps_unjoined := ps_next ps # ps_unjoined ps\<rparr>"
  from assms(2) have fresh: "ps_next ps \<notin> set (ps_unjoined ps)" "ps_owners ps (ps_next ps) = None"
    and np: "\<not> ps_registry_poisoned ps" by (auto simp: process_inv_def)
  note run = assms(1)[unfolded ContainerOwner_start_def Let_def]
  consider (adopt) started where "ContainerOwner_adopt api ?la (ps_next ps) started ?ps1 = (r, ps')"
    | (no) e where "r = Inl e" "ps_owners ps' = ps_owners ps" "registered ps' = registered ps"
      "ps_next ps \<le> ps_next ps'" "\<not> ps_registry_poisoned ps'" "ps_unjoined ps' = ps_unjoined ps"
    using run fresh np by (auto split: option.splits recv_outcome.splits sum.splits)
  then show thesis
  proof cases
    case adopt
    have "\<not> ps_registry_poisoned ?ps1" "ps_owners ?ps1 (ps_next ps) = None" using fresh np by simp_all
    with adopt show thesis
    proof (cases rule: adopt_cases)
      case (parse e) with adopt np show thesis by (auto intro: detached)
    next
      case (refused e) with fresh show thesis by (auto intro: failed)
    next
      case (adopted url ident) with np show thesis by (auto intro: running)
    qed
  qed (rule failed)
qed

lemma start_inv:
  assumes "ContainerOwner_start api launch now img profile project run_id limit ps = (r, ps')" "process_inv ps"
  shows "process_inv ps'"
  using assms by (cases rule: start_cases) (use assms(2) in \<open>auto simp: process_inv_def owners_ok_def\<close>)

lemma process_inv_step: "process_inv ps \<Longrightarrow> process_step api ps ps' \<Longrightarrow> process_inv ps'"
proof (erule process_step.cases, goal_cases)
  case (2 handle container psa r psb)
  with shutdown_owner_inv[of ps handle container] show ?case by simp
qed (auto intro: start_inv drop_owner_inv)

interpretation process_sys: invariant_system "\<lambda>ps. ps = fresh_process" "process_step api" process_inv
  for api :: "'u url_api"
  by unfold_locales (simp add: fresh_process_def process_inv_def owners_ok_def, rule process_inv_step)

lemma shutdown_all_effect:
  assumes "owners_ok ps"
  shows "ps_owners (shutdown_all handles cs ps) =
      (\<lambda>c. if c \<in> set cs then map_option (\<lambda>self. self\<lparr>co_worker := False\<rparr>) (ps_owners ps c) else ps_owners ps c)
    \<and> set (ps_unjoined (shutdown_all handles cs ps)) = set (ps_unjoined ps) - {c \<in> set cs. ps_owners ps c \<noteq> None}
    \<and> ps_registry (shutdown_all handles cs ps) = ps_registry ps"
  using assms
proof (induction cs arbitrary: ps)
  case (Cons c cs)
  from Cons.IH[OF shutdown_owner_ok[OF Cons.prems, of "handles c" c]] show ?case
    by (cases "ps_owners ps c")
       (auto simp: shutdown_owner_absent shutdown_owner_simps[OF Cons.prems] fun_eq_iff)
qed simp

section \<open>Properties of a start\<close>

definition slow_be :: "nat backend" where
  "slow_be = \<lparr>be_connect = (\<lambda>u t w. (Connect_elapsed, w + t)), be_batch = (\<lambda>c t q w. (Elapsed, w + t)),
     be_query = (\<lambda>c t q ps w. (Elapsed, w + t)), be_query_one = (\<lambda>c t q ps w. (Elapsed, w + t)),
     be_query_opt = (\<lambda>c t q ps w. (Elapsed, w + t)), be_now = (\<lambda>w. (w, w))\<rparr>"

definition slow_en :: "nat engine" where
  "slow_en = \<lparr>en_startup_exit = (\<lambda>w. (None, w)), en_listening = (\<lambda>w. (True, w)),
     en_host = (\<lambda>w. (Inr ''LocalHost'', w)), en_port = (\<lambda>p w. (Inr 49153, w)),
     en_is_running = (\<lambda>w. (Inr True, w)), en_sleep = (\<lambda>d w. w + d)\<rparr>"

lemma slow_laws: "clock_laws slow_be slow_en (\<lambda>w. w)"
  by (simp add: clock_laws_def slow_be_def slow_en_def)

lemma slow_connect: "connect_admin_with_setup_timeout slow_be url op_timeout op ct st s \<noteq> (Return (Inr client), t)"
  by (auto simp: connect_admin_with_setup_timeout_def io_bind_ok_iff AdminClient_connect_def slow_be_def Let_def
      split: option.splits)

text \<open>C18: Waiting for an owned server comes to an end and explains itself. If time passes (no call goes
  back in time, a sleep lasts at least as long as asked), the retry loop returns without a panic. A
  client comes from a successful attempt that was given no more than the startup limit; an error is
  the diagnosis of an exit that the worker recorded, or a timeout reported with less than a
  millisecond of the limit left, which carries the error of an attempt unless none was made.\<close>

theorem wait_for_owned_server_decides:
  assumes "clock_laws be en time" "started \<le> time (world s)"
  shows "\<exists>r t. wait_for_owned_server be en url op_timeout started limit profile s = Some (Return r, t)
    \<and> (case r of
         Inr client \<Rightarrow> (\<exists>ct remaining u. ct \<le> STARTUP_CONNECT_ATTEMPT_TIMEOUT \<and> remaining \<le> limit
           \<and> connect_admin_with_setup_timeout be url op_timeout WAIT_OPERATION ct remaining u = (Return (Inr client), t))
       | Inl e \<Rightarrow> (\<exists>exit. exit_seen en exit \<and> e = container_exit_error profile exit)
         \<or> as_millis (limit - (time (world t) - started)) = 0
           \<and> (e = ContainerStartupTimeout limit \<and> trace t = trace s
              \<or> (\<exists>source. attempt_failed be url op_timeout source \<and> e = ContainerReadinessTimeout limit source)))"
proof -
  have "wait_inv be en time url op_timeout started (trace s) (None, s)" using assms by (simp add: wait_inv_def)
  from wait_loop.loop_returns[OF this] obtain ls r t where inv: "wait_inv be en time url op_timeout started (trace s) ls"
    and last: "wait_body be en url op_timeout started limit profile ls = Inl (r, t)"
    and run: "wait_for_owned_server be en url op_timeout started limit profile s = Some (r, t)"
    unfolding wait_for_owned_server_def by (metis prod.collapse)
  from inv last show ?thesis
  proof (cases rule: wait_breaks)
    case expired
    with run inv show ?thesis by (cases "fst ls") (auto simp: startup_timeout_error_def wait_inv_def)
  qed (use run in auto)
qed

theorem wait_for_owned_server_decides_witness:
  "clock_laws slow_be slow_en (\<lambda>w. w) \<and>
   (\<exists>e t. wait_for_owned_server slow_be slow_en ''u'' (from_secs 3) 0 (from_secs 1) performance
      \<lparr>world = 0, trace = []\<rparr> = Some (Return (Inl e), t))"
proof -
  let ?s = "\<lparr>world = 0, trace = []\<rparr> :: nat io_state"
  have start: "0 \<le> world ?s" by simp
  from wait_for_owned_server_decides[OF slow_laws start, of "''u''" "from_secs 3" "from_secs 1" performance]
  show ?thesis
  proof (elim exE conjE, goal_cases)
    case (1 r t)
    then show ?case using slow_laws slow_connect by (cases r) auto
  qed
qed

text \<open>C27: No owned container outlives an orderly exit. Whatever container starts, shutdowns and drops of
  handles happened before, the exit handler joins the worker of every owner that is still alive: no
  live owner keeps a worker, and none of their worker threads is left unjoined. The handler empties
  the registry, so that running it again changes nothing.\<close>

theorem exit_cleanup_stops_every_container:
  assumes "reachable (\<lambda>ps. ps = fresh_process) (process_step api) ps"
    and "ps' = cleanup_owned_containers_at_exit handles ps"
  shows "(\<forall>c. ps_owners ps' c = map_option (\<lambda>self. self\<lparr>co_worker := False\<rparr>) (ps_owners ps c))
    \<and> set (ps_unjoined ps') = {c \<in> set (ps_unjoined ps). ps_owners ps c = None}
    \<and> registered ps' = [] \<and> cleanup_owned_containers_at_exit handles' ps' = ps'"
proof -
  from process_sys.reachable_inv[OF assms(1)] have inv: "process_inv ps" .
  have unworked: "ps_owners ps c = map_option (\<lambda>self. self\<lparr>co_worker := False\<rparr>) (ps_owners ps c)"
    "c \<in> set (ps_unjoined ps) \<Longrightarrow> ps_owners ps c = None" if "c \<notin> set (registered ps)" for c
  proof -
    have "\<not> co_worker self \<and> c \<notin> set (ps_unjoined ps)" if "ps_owners ps c = Some self" for self
      using inv that \<open>c \<notin> set (registered ps)\<close> unfolding process_inv_def owners_ok_def by blast
    then have "ps_owners ps c = map_option (\<lambda>self. self\<lparr>co_worker := False\<rparr>) (ps_owners ps c)
        \<and> (c \<in> set (ps_unjoined ps) \<longrightarrow> ps_owners ps c = None)"
      by (cases "ps_owners ps c") auto
    then show "ps_owners ps c = map_option (\<lambda>self. self\<lparr>co_worker := False\<rparr>) (ps_owners ps c)"
      "c \<in> set (ps_unjoined ps) \<Longrightarrow> ps_owners ps c = None" by blast+
  qed
  show ?thesis
  proof (cases "ps_registry ps")
    case None
    then have "registered ps = []" "ps' = ps" using assms(2)
      by (simp_all add: registered_def cleanup_owned_containers_at_exit_def)
    with unworked None show ?thesis by (auto simp: cleanup_owned_containers_at_exit_def)
  next
    case (Some cs)
    let ?ps0 = "ps\<lparr>ps_registry := Some []\<rparr>"
    have cs: "registered ps = cs" using Some by (simp add: registered_def)
    have run: "ps' = shutdown_all handles cs ?ps0"
      using Some inv assms(2) by (simp add: cleanup_owned_containers_at_exit_def process_inv_def)
    have "owners_ok ?ps0" using inv by (simp add: process_inv_def owners_ok_def)
    from shutdown_all_effect[OF this, of handles cs, folded run]
    have eff: "ps_owners ps' = (\<lambda>c. if c \<in> set cs then map_option (\<lambda>self. self\<lparr>co_worker := False\<rparr>) (ps_owners ps c)
        else ps_owners ps c)" "set (ps_unjoined ps') = set (ps_unjoined ps) - {c \<in> set cs. ps_owners ps c \<noteq> None}"
      "ps_registry ps' = Some []" by (simp_all cong: if_cong)
    have "ps_owners ps' c = map_option (\<lambda>self. self\<lparr>co_worker := False\<rparr>) (ps_owners ps c)" for c
      using unworked(1)[of c] by (simp add: eff cs)
    moreover have "set (ps_unjoined ps') = {c \<in> set (ps_unjoined ps). ps_owners ps c = None}"
      using unworked(2) by (auto simp: eff cs)
    moreover have "cleanup_owned_containers_at_exit handles' ps' = ps'"
      using eff(3) by (cases ps') (auto simp: cleanup_owned_containers_at_exit_def)
    ultimately show ?thesis using eff(3) by (simp add: registered_def)
  qed
qed

definition demo_launch :: "container_request \<Rightarrow> launch" where
  "demo_launch request = \<lparr>la_spawn = None,
     la_received = Recv_started (Inr \<lparr>sc_id = ''c'', sc_host = ''127.0.0.1'', sc_port = 49153\<rparr>),
     la_join = Joined None, la_atexit = 0\<rparr>"

definition demo_process :: process where
  "demo_process = \<lparr>ps_next = 1, ps_owners = [0 \<mapsto> \<lparr>co_id = ''c'', co_worker = True, co_poisoned = False, co_startup_exit = None\<rparr>],
     ps_unjoined = [0], ps_exit_registration = Some 0, ps_registry = Some [0], ps_registry_poisoned = False\<rparr>"

lemma demo_process_reachable: "reachable (\<lambda>ps. ps = fresh_process) (process_step demo_url_api) demo_process"
proof -
  have "ContainerOwner_start demo_url_api demo_launch 0 \<lparr>repository = ''postgres'', tag = ''18''\<rparr> performance
      demo_project ''r'' 1 fresh_process = (Inr (0, AdminDatabaseUrl ()), demo_process)"
    by (simp add: ContainerOwner_start_def ContainerOwner_adopt_def demo_launch_def fresh_process_def demo_process_def
        register_container_def AdminDatabaseUrl_parse_def demo_url_api_def registered_def Let_def)
  then have "process_step demo_url_api fresh_process demo_process" by (rule process_step.start)
  moreover have "reachable (\<lambda>ps. ps = fresh_process) (process_step demo_url_api) fresh_process"
    by (rule reachable_init) simp
  ultimately show ?thesis by (rule reachable_step[rotated])
qed

theorem exit_cleanup_stops_every_container_witness:
  "ps_owners (cleanup_owned_containers_at_exit (\<lambda>_. Joined None) demo_process) 0
     = Some \<lparr>co_id = ''c'', co_worker = False, co_poisoned = False, co_startup_exit = None\<rparr>
   \<and> ps_unjoined (cleanup_owned_containers_at_exit (\<lambda>_. Joined None) demo_process) = []"
proof -
  note app = exit_cleanup_stops_every_container[OF demo_process_reachable refl, of "\<lambda>_. Joined None" "\<lambda>_. Joined None"]
  have "{c \<in> set (ps_unjoined demo_process). ps_owners demo_process c = None} = {}" by (simp add: demo_process_def)
  with app have "ps_unjoined (cleanup_owned_containers_at_exit (\<lambda>_. Joined None) demo_process) = []"
    by (metis set_empty)
  with app show ?thesis by (simp add: demo_process_def)
qed

section \<open>Starts that fail\<close>

lemma finish_start_container:
  "finish_start_with_client be api sem spawn config limits url c key lock s = (Return (Inr server), t) \<Longrightarrow>
    srv_container (ss_inner server) = c"
  by (auto simp: finish_start_with_client_def io_bind_ok_iff Let_def)

lemma drop_started:
  assumes "process_inv ps" "process_inv ps1" "ps_unjoined ps1 = ps_next ps # ps_unjoined ps"
    "ps_owners ps1 = (ps_owners ps)(ps_next ps \<mapsto> self)"
  shows "ps_owners (drop_owner h (ps_next ps) ps1) = ps_owners ps
    \<and> ps_unjoined (drop_owner h (ps_next ps) ps1) = ps_unjoined ps"
proof -
  from assms(1) have fresh: "ps_owners ps (ps_next ps) = None" "ps_next ps \<notin> set (ps_unjoined ps)"
    by (auto simp: process_inv_def)
  have "owners_ok ps1" using assms(2) by (simp add: process_inv_def)
  from shutdown_owner_simps[OF this, of "ps_next ps" self h] assms(3,4) fresh show ?thesis
    by (simp add: drop_owner_def Let_def fun_upd_idem)
qed

text \<open>What a call that holds an owner leaves behind.\<close>

definition start_left :: "'u url_api \<Rightarrow> process \<Rightarrow> ('u, 'g) server_state result exec \<Rightarrow> process \<Rightarrow> bool" where
  "start_left api ps r ps' \<longleftrightarrow>
     (case r of
        Return (Inr server) \<Rightarrow>
          (case srv_container (ss_inner server) of
             None \<Rightarrow> ps' = ps
           | Some c \<Rightarrow> c = ps_next ps \<and> c \<in> set (registered ps')
               \<and> (\<exists>self. co_worker self \<and> ps_owners ps' = (ps_owners ps)(c \<mapsto> self)))
      | _ \<Rightarrow> ps_owners ps' = ps_owners ps
          \<and> (ps_unjoined ps' = ps_unjoined ps
             \<or> (\<exists>started e. AdminDatabaseUrl_parse api (container_admin_url started) = Inl e \<and> r = Return (Inl e))))"

lemma releasing_owner_left:
  assumes "process_inv ps" "process_inv ps1" "ps_unjoined ps1 = ps_next ps # ps_unjoined ps"
    "ps_owners ps1 = (ps_owners ps)(ps_next ps \<mapsto> self)" "co_worker self" "ps_next ps \<in> set (registered ps1)"
    and "\<And>server u. rt = (Return (Inr server), u) \<Longrightarrow> srv_container (ss_inner server) = Some (ps_next ps)"
    and "releasing_owner h (ps_next ps) rt ps1 = (r, t, ps')"
  shows "start_left api ps r ps'"
proof (cases "\<exists>server u. rt = (Return (Inr server), u)")
  case True
  with assms obtain server where "r = Return (Inr server)" "ps' = ps1"
    "srv_container (ss_inner server) = Some (ps_next ps)" by (auto simp: releasing_owner_def)
  with assms(4-6) show ?thesis by (simp add: start_left_def) blast
next
  case False
  with assms(8) have "ps' = drop_owner h (ps_next ps) ps1" "\<not> (\<exists>server. r = Return (Inr server))"
    by (auto simp: releasing_owner_def split: prod.splits exec.splits sum.splits)
  with drop_started[OF assms(1-4)] show ?thesis
    by (auto simp: start_left_def split: exec.splits sum.splits)
qed

lemma start_owned_left:
  assumes "process_inv ps"
    "start_owned api sem be en launch spawn now env config limits run_id key h ps s = Some (r, t, ps')"
  shows "start_left api ps r ps'"
proof (cases "resolved_image env config")
  case (Inl e)
  with assms show ?thesis by (auto simp: start_owned_def start_left_def case_prod_beta Let_def)
next
  case (Inr img)
  obtain r0 ps1 where st: "ContainerOwner_start api launch now img (cfg_owned_container_profile config)
      (cfg_project config) run_id (startup_timeout config) ps = (r0, ps1)" by fastforce
  from st assms(1) show ?thesis
  proof (cases rule: start_cases)
    case (running url ident)
    from assms(2) Inr st running(1) obtain rw tw where
      rel: "releasing_owner h (ps_next ps) (io_bind (\<lambda>_. (rw, tw)) (\<lambda>owner_lock.
          io_bind (mark_owner_ready en (ps_next ps) ps1) (\<lambda>_.
          finish_start_with_client be api sem spawn config limits url (Some (ps_next ps)) key owner_lock)) tw) ps1
        = (r, t, ps')"
      by (auto simp: start_owned_def case_prod_beta Let_def)
    show ?thesis
      by (rule releasing_owner_left[OF assms(1) start_inv[OF st assms(1)] running(4,3) _ _ _ rel])
         (auto simp: running(2) io_bind_ok_iff dest: finish_start_container)
  qed (use assms(2) Inr st in \<open>auto simp: start_owned_def start_left_def case_prod_beta Let_def\<close>)
qed

text \<open>C16: A start that fails leaves no container behind. In a process in any reachable state, a start that
  returns an error or panics leaves exactly the owners that were there before, and has joined the
  worker of its own container, unless the address of the new container was not a valid URL (then the
  worker is told to remove it but is not joined). A start that succeeds either touches no owner
  (external server) or adds exactly one, with a running worker and registered for process exit.\<close>

theorem failed_start_releases_container:
  assumes "reachable (\<lambda>ps. ps = fresh_process) (process_step api) ps"
    and "start_blocking containers sha256 api sem be en launch spawn now env run_id h config ps s = Some (r, t, ps')"
  shows "start_left api ps r ps'"
proof -
  from process_sys.reachable_inv[OF assms(1)] have inv: "process_inv ps" .
  have external: "srv_container (ss_inner server) = None"
    if "fst (finish_start be api sem spawn config limits url None key s) = Return (Inr server)" for limits url key server
  proof -
    from that obtain u where "finish_start be api sem spawn config limits url None key s = (Return (Inr server), u)"
      by (metis prod.collapse)
    then show ?thesis
      by (auto simp: finish_start_def finish_start_with_def io_bind_ok_iff dest: finish_start_container)
  qed
  from assms(2) show ?thesis
    by (auto simp: start_blocking_def start_left_def case_prod_beta Let_def
        dest!: external start_owned_left[OF inv] split: sum.splits exec.splits option.splits if_splits)
qed

definition exited_en :: "nat engine" where
  "exited_en = slow_en\<lparr>en_startup_exit := (\<lambda>w. (Some \<lparr>exit_code = Some 1, exit_output = []\<rparr>, w))\<rparr>"

definition owned_config :: harness_config where
  "owned_config = \<lparr>cfg_project = ProjectName ''a'', admin_database_url = None, image = Some ''p'',
     cfg_owned_container_profile = performance, startup_timeout = from_secs 1, cfg_operation_timeout = from_secs 1,
     cfg_template_wait_timeout = from_secs 1, cfg_stale_after = from_secs 1, connection_budget_override = None,
     connections_per_database_override = None, cfg_cleanup_on_start = False\<rparr>"

theorem failed_start_releases_container_witness:
  "\<exists>e t ps'. start_blocking True demo_sha demo_url_api counting_semaphore slow_be exited_en demo_launch (\<lambda>_. None) 0
       Map.empty ''r'' (Joined None) owned_config demo_process \<lparr>world = 0, trace = []\<rparr> = Some (Return (Inl e), t, ps')
     \<and> ps_owners ps' = ps_owners demo_process"
proof -
  let ?s = "\<lparr>world = 0, trace = []\<rparr> :: nat io_state"
  have wait: "wait_for_owned_server slow_be exited_en u op st lim p s
      = Some (Return (Inl (container_exit_error p \<lparr>exit_code = Some 1, exit_output = []\<rparr>)), s)" for u op st lim p s
    by (simp add: wait_for_owned_server_def rust_loop.simps[of _ "(None, s)"] wait_body_def wait_iteration_unfold
        exited_en_def slow_en_def)
  have limits: "\<exists>l. resolve_connection_limits owned_config = Inr l"
    by (simp add: resolve_connection_limits_def owned_config_def DEFAULT_CONNECTION_BUDGET_def
        DEFAULT_CONNECTIONS_PER_DATABASE_def)
  have image: "resolved_image Map.empty owned_config = Inr \<lparr>repository = ''p'', tag = ''latest''\<rparr>"
    by (simp add: resolved_image_def owned_config_def ImageReference_parse_def has_whitespace_def Let_def)
  have key: "\<exists>k. advisory_key demo_sha ''run'' ''r'' = Return k" by (simp add: advisory_key_def demo_sha_def Let_def)
  have url: "resolved_admin_database_url Map.empty owned_config = None"
    by (simp add: resolved_admin_database_url_def owned_config_def)
  have start: "\<exists>ps1. ContainerOwner_start demo_url_api demo_launch 0 \<lparr>repository = ''p'', tag = ''latest''\<rparr> pr
      pn ''r'' lim demo_process = (Inr (1, AdminDatabaseUrl ()), ps1)" for pr pn lim
    by (simp add: ContainerOwner_start_def ContainerOwner_adopt_def demo_launch_def demo_process_def
        register_container_def AdminDatabaseUrl_parse_def demo_url_api_def registered_def Let_def)
  have "\<exists>e t ps'. start_blocking True demo_sha demo_url_api counting_semaphore slow_be exited_en demo_launch (\<lambda>_. None) 0
       Map.empty ''r'' (Joined None) owned_config demo_process ?s = Some (Return (Inl e), t, ps')"
    using limits key start[of "cfg_owned_container_profile owned_config" "cfg_project owned_config" "startup_timeout owned_config"]
    by (auto simp: start_blocking_def url start_owned_def image wait releasing_owner_def io_bind_def case_prod_beta Let_def)
  then show ?thesis
    using failed_start_releases_container[OF demo_process_reachable] by (fastforce simp: start_left_def)
qed

end
