(* ===== verification/Diagnosis.thy ===== *)
theory Diagnosis
  imports Container
begin

text \<open>
  The diagnosis of a container that exited during startup. The code decodes the container's log
  lossily, lower-cases it and searches for messages. Since the messages are ASCII, this finds exactly
  what a search of the raw bytes finds.
\<close>

section \<open>ASCII bytes survive lossy decoding\<close>

definition ascii :: "8 word \<Rightarrow> bool" where "ascii b \<longleftrightarrow> b < 0x80"

lemma second_ok_ascii: "second_ok a b \<Longrightarrow> \<not> ascii b"
  by (auto simp: second_ok_def continuation_def ascii_def word_le_nat_alt word_less_nat_alt split: if_splits)

lemma continuation_ascii: "continuation b \<Longrightarrow> \<not> ascii b"
  by (auto simp: continuation_def ascii_def not_less)

lemma tail_not_ascii: "b \<in> set (take (tail_length a need bs) bs) \<Longrightarrow> \<not> ascii b"
proof (cases bs)
  case (Cons c cs)
  assume b: "b \<in> set (take (tail_length a need bs) bs)"
  let ?t = "take (need - 1) cs"
  have "take (length (takeWhile continuation ?t)) cs = takeWhile continuation ?t"
    by (metis length_takeWhile_le length_take min.boundedE min_def take_take takeWhile_eq_take)
  with b Cons show ?thesis
    by (auto simp: tail_length_def split: if_splits dest: second_ok_ascii continuation_ascii set_takeWhileD)
qed simp

lemma ascii_lower_ascii [simp]: "ascii (ascii_lower b) = ascii b"
  by (auto simp: ascii_def ascii_lower_def word_le_nat_alt word_less_nat_alt unat_word_ariths)

lemma replacement_not_ascii: "b \<in> set REPLACEMENT \<Longrightarrow> \<not> ascii b"
  by (auto simp: REPLACEMENT_def ascii_def)

lemma ascii_sequence_length: "ascii a \<Longrightarrow> sequence_length a = 1"
  by (simp add: ascii_def sequence_length_def)

lemma from_utf8_lossy_ascii: "ascii a \<Longrightarrow> from_utf8_lossy (a # bs) = a # from_utf8_lossy bs"
  by (simp add: ascii_sequence_length tail_length_def split: list.split)

text \<open>A sequence that starts with another byte decodes to other bytes only, and consumes only such.\<close>

lemma from_utf8_lossy_other:
  assumes "\<not> ascii a"
  obtains chunk k where "from_utf8_lossy (a # bs) = chunk @ from_utf8_lossy (drop k bs)"
    "chunk \<noteq> []" "\<forall>b \<in> set chunk. \<not> ascii b" "\<forall>b \<in> set (take k bs). \<not> ascii b"
proof
  let ?need = "sequence_length a - 1"
  let ?k = "tail_length a ?need bs"
  let ?chunk = "if sequence_length a \<noteq> 0 \<and> ?k = ?need then a # take ?need bs else REPLACEMENT"
  show "from_utf8_lossy (a # bs) = ?chunk @ from_utf8_lossy (drop ?k bs)" by (simp add: Let_def)
  show "?chunk \<noteq> []" by (simp add: REPLACEMENT_def)
  show "\<forall>b \<in> set (take ?k bs). \<not> ascii b" using tail_not_ascii by blast
  then show "\<forall>b \<in> set ?chunk. \<not> ascii b" using assms replacement_not_ascii by (auto split: if_splits)
qed

section \<open>Searching\<close>

definition starts_with :: "bytes \<Rightarrow> bytes \<Rightarrow> bool" where
  "starts_with n xs \<longleftrightarrow> take (length n) xs = n"

lemma starts_with_simps [simp]:
  "starts_with [] xs" "starts_with (m # n) (x # xs) \<longleftrightarrow> m = x \<and> starts_with n xs" "\<not> starts_with (m # n) []"
  by (auto simp: starts_with_def)

lemma contains_Cons_iff: "contains n (c # cs) \<longleftrightarrow> starts_with n (c # cs) \<or> contains n cs"
  by (simp add: starts_with_def)

lemma contains_other:
  "n \<noteq> [] \<Longrightarrow> \<forall>b \<in> set n. ascii b \<Longrightarrow> \<forall>b \<in> set ys. \<not> ascii b \<Longrightarrow> contains n (ys @ zs) \<longleftrightarrow> contains n zs"
  by (induction ys) (auto simp: contains_Cons_iff neq_Nil_conv simp del: contains.simps)

lemma starts_with_lossy:
  "\<forall>b \<in> set n. ascii b \<Longrightarrow>
     starts_with n (map ascii_lower (from_utf8_lossy xs)) \<longleftrightarrow> starts_with n (map ascii_lower xs)"
proof (induction n arbitrary: xs)
  case (Cons m n)
  show ?case
  proof (cases xs)
    case (Cons a bs)
    show ?thesis
    proof (cases "ascii a")
      case True
      with Cons Cons.IH Cons.prems show ?thesis by (simp add: from_utf8_lossy_ascii del: from_utf8_lossy.simps)
    next
      case False
      then obtain c chunk rest where "from_utf8_lossy (a # bs) = (c # chunk) @ rest" "\<not> ascii c"
        using from_utf8_lossy_other[of a bs] by (metis list.exhaust list.set_intros(1))
      with False Cons Cons.prems show ?thesis
        by (auto simp del: from_utf8_lossy.simps)
    qed
  qed simp
qed simp

lemma contains_lossy:
  assumes "n \<noteq> []" "\<forall>b \<in> set n. ascii b"
  shows "contains n (to_ascii_lowercase (from_utf8_lossy xs)) \<longleftrightarrow> contains n (to_ascii_lowercase xs)"
proof (induction "length xs" arbitrary: xs rule: less_induct)
  case less
  show ?case
  proof (cases xs)
    case (Cons a bs)
    show ?thesis
    proof (cases "ascii a")
      case True
      with Cons less[of bs] starts_with_lossy[OF assms(2), of "a # bs"] show ?thesis
        by (simp add: from_utf8_lossy_ascii to_ascii_lowercase_def contains_Cons_iff
            del: from_utf8_lossy.simps contains.simps)
    next
      case False
      from from_utf8_lossy_other[OF False, of bs] obtain chunk k where
        lossy: "from_utf8_lossy (a # bs) = chunk @ from_utf8_lossy (drop k bs)"
        and other: "\<forall>b \<in> set chunk. \<not> ascii b" "\<forall>b \<in> set (take k bs). \<not> ascii b" by metis
      have xs: "xs = (a # take k bs) @ drop k bs" by (simp add: Cons)
      have "contains n (to_ascii_lowercase (from_utf8_lossy xs)) \<longleftrightarrow> contains n (to_ascii_lowercase (from_utf8_lossy (drop k bs)))"
        using other(1) contains_other[OF assms, of "map ascii_lower chunk"]
        by (auto simp: Cons lossy to_ascii_lowercase_def simp del: from_utf8_lossy.simps contains.simps)
      moreover have "contains n (to_ascii_lowercase xs) \<longleftrightarrow> contains n (to_ascii_lowercase (drop k bs))"
        using other(2) False contains_other[OF assms, of "map ascii_lower (a # take k bs)"]
        unfolding xs to_ascii_lowercase_def map_append by (auto simp del: contains.simps)
      moreover have "length (drop k bs) < length xs" by (simp add: Cons)
      ultimately show ?thesis using less by blast
    qed
  qed (simp add: to_ascii_lowercase_def)
qed

section \<open>The diagnosis\<close>

definition mentions :: "string \<Rightarrow> bytes \<Rightarrow> bool" where
  "mentions message log \<longleftrightarrow> contains (bytes_of_string message) (map ascii_lower log)"

definition diagnose :: "owned_container_profile \<Rightarrow> int option \<Rightarrow> bytes \<Rightarrow> error" where
  "diagnose profile code log =
     (case tmpfs_size_bytes profile of
        None \<Rightarrow> ContainerExitedBeforeReady code
      | Some size_bytes \<Rightarrow>
          if mentions ''no space left on device'' log
          then ContainerStorageExhausted size_bytes ''container log reported no space left on device''
          else if mentions ''cannot allocate memory'' log \<or> mentions ''out of memory'' log
          then ContainerMemoryExhausted size_bytes ''container log reported memory exhaustion''
          else if code = Some 137
          then ContainerMemoryExhausted size_bytes ''container exited with status 137, consistent with an engine OOM kill''
          else ContainerExitedBeforeReady code)"

lemma messages_ascii:
  "bytes_of_string ''no space left on device'' \<noteq> []" "\<forall>b \<in> set (bytes_of_string ''no space left on device''). ascii b"
  "bytes_of_string ''cannot allocate memory'' \<noteq> []" "\<forall>b \<in> set (bytes_of_string ''cannot allocate memory''). ascii b"
  "bytes_of_string ''out of memory'' \<noteq> []" "\<forall>b \<in> set (bytes_of_string ''out of memory''). ascii b"
  by (simp_all add: bytes_of_string_def ascii_def)

text \<open>C31: The diagnosis of an exited container is the same as a search of its raw log. Whatever bytes the
  container wrote, valid UTF-8 or not, decoding them lossily and lower-casing the text finds a message
  exactly when it occurs in the bytes up to ASCII case, so that the error returned is the one a
  search of the bytes gives: out of storage first, then out of memory, then the exit status.\<close>

theorem diagnosis_encoding_independent:
  "container_exit_error profile exit = diagnose profile (exit_code exit) (exit_output exit)"
  by (simp add: container_exit_error_def diagnose_def storage_exhaustion_evidence_def memory_exhaustion_evidence_def
      mentions_def Let_def contains_lossy messages_ascii to_ascii_lowercase_def[symmetric] split: option.split)

end
