(* ===== verification/Shutdown.thy ===== *)
theory Shutdown
  imports Cleanup_Properties Prewarm Container
begin

text \<open>
  Shutdown of an owned server (\<open>shutdown_container\<close> of \<open>src/server.rs\<close>) and the closing of prewarm
  pools (\<open>close_and_queue_ready\<close>, \<open>fail_phase\<close>, the handle counts, \<open>queue_counted_prepared_database\<close> of
  \<open>src/harness.rs\<close>). The shutdown is one thread among others: its critical sections are interleaved
  with every step of the cleanup queue, of the session pool and of the prewarm pools, and with callers
  that register new pools.
\<close>

section \<open>Closing a prewarm pool\<close>

text \<open>
  The counted deletion travels with the submitted job; a rejected submission drops it.
\<close>

definition queue_counted_prepared_database ::
  "'s semaphore \<Rightarrow> prepared_database \<Rightarrow> 's cleanup_queue \<times> 's prewarm_pool \<Rightarrow> 's cleanup_queue \<times> 's prewarm_pool" where
  "queue_counted_prepared_database sem prepared qp =
     (case submit_prewarmer sem (db_value (pd_name prepared)) (fst qp) of
        Some (Return (Inr _), q) \<Rightarrow> (q, snd qp)
      | Some (_, q) \<Rightarrow> (q, deletion_finish (snd qp))
      | None \<Rightarrow> qp)"

definition finish_close ::
  "'s semaphore \<Rightarrow> prepared_database list option \<Rightarrow> 's cleanup_queue \<times> 's prewarm_pool
     \<Rightarrow> 's cleanup_queue \<times> 's prewarm_pool" where
  "finish_close sem ready qp =
     (let qp1 = (fst qp, close_semaphores sem (snd qp))
      in case ready of None \<Rightarrow> qp1 | Some ds \<Rightarrow> fold (queue_counted_prepared_database sem) ds qp1)"

definition close_and_queue_ready ::
  "'s semaphore \<Rightarrow> 's cleanup_queue \<times> 's prewarm_pool \<Rightarrow> 's cleanup_queue \<times> 's prewarm_pool" where
  "close_and_queue_ready sem qp =
     (let (ready, pool) = begin_cleanup (snd qp) in finish_close sem ready (fst qp, pool))"

definition fail_phase ::
  "'s semaphore \<Rightarrow> return_phase \<Rightarrow> 's cleanup_queue \<times> 's prewarm_pool \<Rightarrow> 's cleanup_queue \<times> 's prewarm_pool" where
  "fail_phase sem phase qp =
     (let (ready, pool) = fail_and_begin_cleanup phase (snd qp) in finish_close sem ready (fst qp, pool))"

text \<open>
  \<open>PrewarmCreation::publish\<close>, its \<open>fail\<close> and drop, and the drop of a \<open>PrewarmReturn\<close>.
\<close>

definition creation_publish ::
  "'s semaphore \<Rightarrow> prepared_database \<Rightarrow> 's cleanup_queue \<times> 's prewarm_pool \<Rightarrow> 's cleanup_queue \<times> 's prewarm_pool" where
  "creation_publish sem prepared qp =
     (let (queued, pool) = finish_creation prepared (snd qp)
      in if queued then (fst qp, add_ready_token sem pool)
         else queue_counted_prepared_database sem prepared (fst qp, pool))"

definition creation_drop ::
  "'s semaphore \<Rightarrow> bool \<Rightarrow> 's cleanup_queue \<times> 's prewarm_pool \<Rightarrow> 's cleanup_queue \<times> 's prewarm_pool" where
  "creation_drop sem active qp = (if active then fail_phase sem Creating qp else qp)"

definition return_drop ::
  "'s semaphore \<Rightarrow> return_phase \<Rightarrow> 's cleanup_queue \<times> 's prewarm_pool \<Rightarrow> 's cleanup_queue \<times> 's prewarm_pool" where
  "return_drop sem phase qp = (if phase \<noteq> Complete then fail_phase sem phase qp else qp)"

text \<open>The count of public handles: the last one that is dropped closes the pool.\<close>

definition pool_clone :: "nat \<Rightarrow> nat" where
  "pool_clone public_handles = public_handles + 1"

definition pool_drop ::
  "'s semaphore \<Rightarrow> nat \<Rightarrow> 's cleanup_queue \<times> 's prewarm_pool \<Rightarrow> nat \<times> 's cleanup_queue \<times> 's prewarm_pool" where
  "pool_drop sem public_handles qp =
     (public_handles - 1, if public_handles = 1 then close_and_queue_ready sem qp else qp)"

section \<open>Registration and the phases of a shutdown\<close>

definition register_prewarm_pool ::
  "'s semaphore \<Rightarrow> (nat \<Rightarrow> bool) \<Rightarrow> 's \<Rightarrow> nat \<Rightarrow> nat list \<Rightarrow> unit result \<times> nat list" where
  "register_prewarm_pool sem alive gate pool pools =
     (if admission_is_closed sem gate then (Inl ConnectionBudgetClosed, pools)
      else (Inr (), filter alive pools @ [pool]))"

definition begin_owned_container_shutdown :: "'s semaphore \<Rightarrow> 'c option \<Rightarrow> 's \<Rightarrow> 'c option \<times> 's" where
  "begin_owned_container_shutdown sem container gate =
     (case container of None \<Rightarrow> (None, gate) | Some c \<Rightarrow> (Some c, admission_close sem gate))"

definition combine_cleanup_and_shutdown :: "unit result \<Rightarrow> unit result \<Rightarrow> unit result" where
  "combine_cleanup_and_shutdown cleanup shutdown =
     (case cleanup of
        Inr _ \<Rightarrow> (case shutdown of Inr _ \<Rightarrow> Inr () | Inl s \<Rightarrow> Inl s)
      | Inl c \<Rightarrow> (case shutdown of Inr _ \<Rightarrow> Inl c | Inl s \<Rightarrow> Inl (CleanupAndContainerShutdown c s)))"

datatype shutdown_phase =
    Not_started
  | Gate_closed
  | Closing_pools "nat list"
  | Shutting_pool nat "prepared_database list option" "nat list"
  | Queueing_idle nat "prepared_database list" "nat list"
  | Blocking_task
  | Draining nat
  | Joining "sequenced_failure list option"
  | Drained "sequenced_failure list option"
  | Sessions_closed "sequenced_failure list option"
  | Container_stopped "sequenced_failure list option" "unit result"
  | Shutdown_finished "unit result"

fun stage :: "shutdown_phase \<Rightarrow> nat" where
  "stage Not_started = 0"
| "stage Gate_closed = 1"
| "stage (Closing_pools _) = 2"
| "stage (Shutting_pool _ _ _) = 2"
| "stage (Queueing_idle _ _ _) = 2"
| "stage Blocking_task = 3"
| "stage (Draining _) = 4"
| "stage (Joining _) = 5"
| "stage (Drained _) = 6"
| "stage (Sessions_closed _) = 7"
| "stage (Container_stopped _ _) = 8"
| "stage (Shutdown_finished _) = 9"

text \<open>The pools the shutdown has taken from the registry and not yet closed, and the one it holds.\<close>

fun pools_to_close :: "shutdown_phase \<Rightarrow> nat list" where
  "pools_to_close (Closing_pools ps) = ps"
| "pools_to_close (Shutting_pool _ _ ps) = ps"
| "pools_to_close (Queueing_idle _ _ ps) = ps"
| "pools_to_close _ = []"

fun pool_held :: "shutdown_phase \<Rightarrow> nat option" where
  "pool_held (Shutting_pool p _ _) = Some p"
| "pool_held (Queueing_idle p _ _) = Some p"
| "pool_held _ = None"

text \<open>The failures that the shutdown has taken from the queue and not yet acknowledged.\<close>

fun undelivered :: "shutdown_phase \<Rightarrow> sequenced_failure list option" where
  "undelivered (Joining fs) = fs"
| "undelivered (Drained fs) = fs"
| "undelivered (Sessions_closed fs) = fs"
| "undelivered (Container_stopped fs _) = fs"
| "undelivered _ = None"

record 's server_run =
  sr_system :: "'s cleanup_system"
  sr_registered :: "nat list"
  sr_pools :: "nat \<rightharpoonup> 's prewarm_pool"
  sr_sessions :: pool_system
  sr_owner :: container_owner
  sr_phase :: shutdown_phase

section \<open>Interleaving\<close>

text \<open>What other threads do to a pool under its mutex and on its semaphores.\<close>

inductive pool_change :: "'s semaphore \<Rightarrow> 's prewarm_pool \<Rightarrow> 's prewarm_pool \<Rightarrow> bool" for sem :: "'s semaphore" where
  "begin_creation p = (r, p') \<Longrightarrow> pool_change sem p p'"
| "take_ready p = (d, p') \<Longrightarrow> pool_change sem p p'"
| "begin_return p = (ph, p') \<Longrightarrow> pool_change sem p p'"
| "finish_creation d p = (queued, p') \<Longrightarrow> pool_change sem p p'"
| "after_drop p = (refill, ph, p') \<Longrightarrow> pool_change sem p p'"
| "begin_cleanup p = (ready, p') \<Longrightarrow> pool_change sem p p'"
| "fail_and_begin_cleanup ph p = (ready, p') \<Longrightarrow> pool_change sem p p'"
| "pool_change sem p (deletion_finish p)"
| "pool_change sem p (add_ready_token sem p)"
| "pool_change sem p (close_semaphores sem p)"
| "sem_acquire sem 1 (pw_ready_admission p) = Acquired a \<Longrightarrow> pool_change sem p (p\<lparr>pw_ready_admission := a\<rparr>)"

text \<open>
  A thread other than the shutdown cannot end the shutdown's own drain (it holds the drain mutex), nor
  acknowledge the failures that the shutdown has taken.
\<close>

definition leaves_alone :: "shutdown_phase \<Rightarrow> 's cleanup_system \<Rightarrow> 's cleanup_system \<Rightarrow> bool" where
  "leaves_alone phase x y \<longleftrightarrow>
     (stage phase = 4 \<longrightarrow> sys_drain y = sys_drain x)
   \<and> (undelivered phase \<noteq> None \<longrightarrow> sys_delivery y = sys_delivery x)"

inductive shutdown_step :: "'s semaphore \<Rightarrow> 's server_run \<Rightarrow> 's server_run \<Rightarrow> bool" for sem :: "'s semaphore" where
  other_cleanup: "cleanup_step sem (sr_system s) y \<Longrightarrow> leaves_alone (sr_phase s) (sr_system s) y \<Longrightarrow>
    shutdown_step sem s (s\<lparr>sr_system := y\<rparr>)"
| other_sessions: "pool_step (sr_sessions s) y \<Longrightarrow> shutdown_step sem s (s\<lparr>sr_sessions := y\<rparr>)"
| other_pool: "sr_pools s p = Some pool \<Longrightarrow> pool_change sem pool pool' \<Longrightarrow>
    shutdown_step sem s (s\<lparr>sr_pools := (sr_pools s)(p \<mapsto> pool')\<rparr>)"
| release_pool: "sr_pools s p = Some pool \<Longrightarrow> \<not> pw_accepting pool \<Longrightarrow> pool_held (sr_phase s) \<noteq> Some p \<Longrightarrow>
    shutdown_step sem s (s\<lparr>sr_pools := (sr_pools s)(p := None)\<rparr>)"
| register: "sr_pools s p = None \<Longrightarrow>
    register_prewarm_pool sem (\<lambda>p. sr_pools s p \<noteq> None) (q_admission (sys_queue (sr_system s))) p (sr_registered s)
      = (Inr (), pools) \<Longrightarrow>
    shutdown_step sem s (s\<lparr>sr_registered := pools, sr_pools := (sr_pools s)(p \<mapsto> PrewarmPool_new sem capacity)\<rparr>)"
| begin_shutdown: "sr_phase s = Not_started \<Longrightarrow>
    begin_owned_container_shutdown sem (Some (sr_owner s)) (q_admission (sys_queue (sr_system s))) = (Some c, gate) \<Longrightarrow>
    shutdown_step sem s (s\<lparr>sr_phase := Gate_closed,
      sr_system := (sr_system s)\<lparr>sys_queue := (sys_queue (sr_system s))\<lparr>q_admission := gate\<rparr>\<rparr>\<rparr>)"
| take_pools: "sr_phase s = Gate_closed \<Longrightarrow>
    shutdown_step sem s (s\<lparr>sr_phase := Closing_pools (sr_registered s), sr_registered := []\<rparr>)"
| skip_pool: "sr_phase s = Closing_pools (p # ps) \<Longrightarrow> sr_pools s p = None \<Longrightarrow>
    shutdown_step sem s (s\<lparr>sr_phase := Closing_pools ps\<rparr>)"
| close_pool: "sr_phase s = Closing_pools (p # ps) \<Longrightarrow> sr_pools s p = Some pool \<Longrightarrow>
    begin_cleanup pool = (ready, pool') \<Longrightarrow>
    shutdown_step sem s (s\<lparr>sr_phase := Shutting_pool p ready ps, sr_pools := (sr_pools s)(p \<mapsto> pool')\<rparr>)"
| shut_pool: "sr_phase s = Shutting_pool p ready ps \<Longrightarrow> sr_pools s p = Some pool \<Longrightarrow>
    shutdown_step sem s (s\<lparr>sr_phase := Queueing_idle p (case ready of None \<Rightarrow> [] | Some ds \<Rightarrow> ds) ps,
      sr_pools := (sr_pools s)(p \<mapsto> close_semaphores sem pool)\<rparr>)"
| queue_idle: "sr_phase s = Queueing_idle p (d # ds) ps \<Longrightarrow> sr_pools s p = Some pool \<Longrightarrow>
    queue_counted_prepared_database sem d (sys_queue (sr_system s), pool) = (q, pool') \<Longrightarrow>
    shutdown_step sem s (s\<lparr>sr_phase := Queueing_idle p ds ps, sr_pools := (sr_pools s)(p \<mapsto> pool'),
      sr_system := (sr_system s)\<lparr>sys_queue := q,
        sys_bypass := issued (sys_queue (sr_system s)) q @ sys_bypass (sr_system s)\<rparr>\<rparr>)"
| next_pool: "sr_phase s = Queueing_idle p [] ps \<Longrightarrow> shutdown_step sem s (s\<lparr>sr_phase := Closing_pools ps\<rparr>)"
| pools_closed: "sr_phase s = Closing_pools [] \<Longrightarrow> shutdown_step sem s (s\<lparr>sr_phase := Blocking_task\<rparr>)"
| close_queue: "sr_phase s = Blocking_task \<Longrightarrow> sys_drain (sr_system s) = None \<Longrightarrow>
    submission_close (sys_queue (sr_system s)) = (target, q) \<Longrightarrow>
    shutdown_step sem s (s\<lparr>sr_phase := Draining target,
      sr_system := (sr_system s)\<lparr>sys_queue := q, sys_drain := Some target\<rparr>\<rparr>)"
| drain: "sr_phase s = Draining target \<Longrightarrow>
    wait_and_take target (sys_queue (sr_system s)) = Some (outcome, q) \<Longrightarrow>
    shutdown_step sem s (s\<lparr>sr_phase := Joining outcome,
      sr_system := (sr_system s)\<lparr>sys_queue := q, sys_drain := None,
        sys_delivery := (case outcome of None \<Rightarrow> sys_delivery (sr_system s) | Some fs \<Rightarrow> Some fs)\<rparr>\<rparr>)"
| join: "sr_phase s = Joining outcome \<Longrightarrow>
    next_job (sys_queue (sr_system s)) = Some (None, q) \<Longrightarrow>
    sys_running (sr_system s) = [] \<Longrightarrow> sys_finishing (sr_system s) = [] \<Longrightarrow>
    shutdown_step sem s (s\<lparr>sr_phase := Drained outcome\<rparr>)"
| close_sessions: "sr_phase s = Drained outcome \<Longrightarrow> pool_close (ps_pool (sr_sessions s)) = Return p \<Longrightarrow>
    shutdown_step sem s (s\<lparr>sr_phase := Sessions_closed outcome, sr_sessions := (sr_sessions s)\<lparr>ps_pool := p\<rparr>\<rparr>)"
| stop_container: "sr_phase s = Sessions_closed outcome \<Longrightarrow> owner_shutdown handle (sr_owner s) = (r, owner) \<Longrightarrow>
    shutdown_step sem s (s\<lparr>sr_phase := Container_stopped outcome r, sr_owner := owner\<rparr>)"
| finish: "sr_phase s = Container_stopped outcome r \<Longrightarrow>
    drain_finish outcome (sys_queue (sr_system s)) = (c, q) \<Longrightarrow>
    shutdown_step sem s (s\<lparr>sr_phase := Shutdown_finished (combine_cleanup_and_shutdown c r),
      sr_system := (sr_system s)\<lparr>sys_queue := q,
        sys_delivery := (case outcome of None \<Rightarrow> sys_delivery (sr_system s) | Some fs \<Rightarrow> None),
        sys_reported := sys_reported (sr_system s) @ (case outcome of None \<Rightarrow> [] | Some fs \<Rightarrow> fs)\<rparr>\<rparr>)"

inductive_cases shutdown_stepE: "shutdown_step sem s t"

lemmas shutdown_step_cases = shutdown_stepE [consumes 1, case_names other_cleanup other_sessions other_pool
  release_pool register begin_shutdown take_pools skip_pool close_pool shut_pool queue_idle next_pool pools_closed
  close_queue drain join close_sessions stop_container finish]

definition running_server ::
  "'s semaphore \<Rightarrow> nat \<Rightarrow> nat \<Rightarrow> string \<Rightarrow> duration \<Rightarrow> string \<Rightarrow> nat \<Rightarrow> string \<Rightarrow> 's server_run \<Rightarrow> bool" where
  "running_server sem budget capacity url timeout project sessions ident s \<longleftrightarrow>
     s = \<lparr>sr_system = initial_system sem budget capacity, sr_registered = [], sr_pools = Map.empty,
          sr_sessions = \<lparr>ps_pool = AdminSessionPool_new url timeout project sessions, ps_out = []\<rparr>,
          sr_owner = \<lparr>co_id = ident, co_worker = True, co_poisoned = False, co_startup_exit = None\<rparr>,
          sr_phase = Not_started\<rparr>"

end
