(* ===== verification/Shutdown_Properties.thy ===== *)
theory Shutdown_Properties
  imports Shutdown
begin

text \<open>
  What a shutdown of an owned server guarantees in every interleaving: the container is stopped only
  after admission, the prewarm pools, the cleanup queue and the session pool are closed and no
  accepted cleanup is pending.
\<close>

section \<open>Closed stays closed\<close>

lemma enqueue_gate:
  assumes "semaphore_laws sem" "enqueue sem name c p a q = Some (r, q')"
  shows "sem_is_closed sem (q_admission q') = sem_is_closed sem (q_admission q)"
  using assms(2) by (cases rule: enqueue_cases) (auto simp: drop_permit_def semaphore_lawsD[OF assms(1)] split: option.splits)

lemma gate_step:
  assumes laws: "semaphore_laws sem" and "cleanup_step sem s t" "sem_is_closed sem (q_admission (sys_queue s))"
  shows "sem_is_closed sem (q_admission (sys_queue t))"
  using assms(2)
proof (cases rule: cleanup_step_cases)
  case (acquire n m a)
  with assms(3) semaphore_lawsD(3)[OF laws] show ?thesis
    by (auto simp: admission_acquire_def split: acquire_poll.splits)
next
  case (settle r1 job r2 operation receiver failure sent q)
  from settle(3) obtain q2 where q2: "q2 = drop_permit sem (job_permit job)
       (if residual_outcome operation then (sys_queue s)\<lparr>q_admission := admission_close sem (q_admission (sys_queue s))\<rparr>
        else sys_queue s)" and "q_admission q = q_admission q2"
    by (cases rule: settle_job_cases) (auto dest: awaited_drop_frame)
  moreover have "sem_is_closed sem (q_admission q2)"
    using assms(3) by (auto simp: q2 drop_permit_def admission_close_def semaphore_lawsD[OF laws] split: option.splits)
  ultimately show ?thesis using settle(1) by simp
next
  case (abandon_awaited c1 out c2 q)
  with awaited_drop_frame[OF abandon_awaited(3)] assms(3) show ?thesis by simp
next
  case (take_job job q)
  with next_job_cases[OF take_job(2)] assms(3) show ?thesis by simp
next
  case (drain_return target outcome q)
  with wait_and_take_cases(10)[OF drain_return(3)] assms(3) show ?thesis by simp
qed (use assms(3) in \<open>auto simp: submit_defs enqueue_gate[OF laws] drop_permit_def semaphore_lawsD[OF laws]
      submission_close_def drain_finish_def acknowledge_delivery_def drain_drop_def restore_delivery_def
      admission_close_def split: option.splits\<close>)

lemma enqueue_closed:
  "enqueue sem name c p a q = Some (r, q') \<Longrightarrow> q_closed q \<Longrightarrow>
     q_next_sequence q' = q_next_sequence q \<and> q_jobs q' = q_jobs q"
  by (erule enqueue_cases) auto

lemma closed_step:
  assumes "cleanup_step sem s t" "q_closed (sys_queue s)"
  shows "q_next_sequence (sys_queue t) = q_next_sequence (sys_queue s)
     \<and> (pending s = [] \<longrightarrow> pending t = [])"
  using assms(1)
proof (cases rule: cleanup_step_cases)
  case (settle r1 job r2 operation receiver failure sent q)
  with settle_job_frame[OF settle(3)] show ?thesis by (simp add: pending_def)
next
  case (abandon_awaited c1 out c2 q)
  with awaited_drop_frame[OF abandon_awaited(3)] show ?thesis by (simp add: pending_def)
next
  case (take_job job q)
  with next_job_cases[OF take_job(2)] show ?thesis by (simp add: pending_def)
next
  case (drain_return target outcome q)
  with wait_and_take_cases(8,9)[OF drain_return(3)] show ?thesis by (simp add: pending_def)
qed (use assms(2) in \<open>auto simp: submit_defs pending_def submission_close_def drain_finish_def
      acknowledge_delivery_def drain_drop_def restore_delivery_def dest!: enqueue_closed\<close>)

lemma sessions_closed_step: "pool_step s t \<Longrightarrow> sp_closed (ps_pool s) \<Longrightarrow> sp_closed (ps_pool t)"
  by (erule pool_step.cases)
     (auto simp: acquire_checkout_def release_slot_def session_drop_def pool_close_def bind_exec_Return_iff Let_def
       split: if_splits list.splits option.splits)

definition pool_ok :: "'s prewarm_pool \<Rightarrow> bool" where
  "pool_ok pool \<longleftrightarrow> (pw_cleanup_started pool \<longleftrightarrow> \<not> pw_accepting pool) \<and> (\<not> pw_accepting pool \<longrightarrow> pw_ready pool = [])"

lemma pool_change_ok:
  assumes "pool_change sem p p'" "pool_ok p"
  shows "pool_ok p' \<and> (pw_accepting p' \<longrightarrow> pw_accepting p)"
  using assms(1)
proof cases
  case (7 ph ready)
  with assms(2) show ?thesis by (cases ph) (auto simp: pool_ok_def pool_ops split: if_splits)
qed (use assms(2) in \<open>auto simp: pool_ok_def pool_ops split: if_splits list.splits\<close>)

section \<open>The invariant\<close>

definition shutdown_inv :: "'s semaphore \<Rightarrow> nat \<Rightarrow> nat \<Rightarrow> 's server_run \<Rightarrow> bool" where
  "shutdown_inv sem b c s \<longleftrightarrow>
     cleanup_reachable sem b c (sr_system s)
   \<and> (\<forall>p pool. sr_pools s p = Some pool \<longrightarrow> pool_ok pool \<and> (pw_accepting pool \<longrightarrow>
        (if stage (sr_phase s) \<le> 1 then p \<in> set (sr_registered s) else p \<in> set (pools_to_close (sr_phase s)))))
   \<and> (stage (sr_phase s) \<ge> 1 \<longrightarrow> sem_is_closed sem (q_admission (sys_queue (sr_system s))))
   \<and> (stage (sr_phase s) \<ge> 4 \<longrightarrow> q_closed (sys_queue (sr_system s)))
   \<and> (\<forall>target. sr_phase s = Draining target \<longrightarrow>
        sys_drain (sr_system s) = Some target \<and> target = q_next_sequence (sys_queue (sr_system s)))
   \<and> (stage (sr_phase s) \<ge> 5 \<longrightarrow> pending (sr_system s) = [])
   \<and> (stage (sr_phase s) \<ge> 7 \<longrightarrow> sp_closed (ps_pool (sr_sessions s)))
   \<and> (co_worker (sr_owner s) \<longleftrightarrow> stage (sr_phase s) < 8) \<and> \<not> co_poisoned (sr_owner s)
   \<and> (undelivered (sr_phase s) \<noteq> None \<longrightarrow> sys_delivery (sr_system s) = undelivered (sr_phase s))"

lemma submit_prewarmer_returns: "\<exists>r q'. submit_prewarmer sem name q = Some (r, q')"
  by (auto simp: submit_prewarmer_def enqueue_def split: option.split)

lemma queue_counted_cases:
  assumes "queue_counted_prepared_database sem d (q, pool) = (q', pool')"
  obtains r where "submit_prewarmer sem (db_value (pd_name d)) q = Some (r, q')" "pool' \<in> {pool, deletion_finish pool}"
  using assms submit_prewarmer_returns[of sem "db_value (pd_name d)" q]
  by (auto simp: queue_counted_prepared_database_def split: exec.splits sum.splits)

lemma wait_done:
  assumes "sequence_inv s" "wait_and_take (q_next_sequence (sys_queue s)) (sys_queue s) = Some (outcome, q)"
  shows "pending s = []"
proof (rule ccontr)
  assume "pending s \<noteq> []"
  then obtain n where n: "n \<in> set (pending s)" by fastforce
  from not_pending_below[OF assms(1) n] wait_and_take_cases(1)[OF assms(2)] have "q_next_sequence (sys_queue s) < n" by simp
  moreover from n assms(1) have "n \<le> q_next_sequence (sys_queue s)" by (auto simp: sequence_inv_def seq_ok_def)
  ultimately show False by simp
qed

text \<open>Every step of the server is a step of the cleanup queue or leaves it alone.\<close>

lemma shutdown_system_step:
  assumes "shutdown_inv sem b c s" "shutdown_step sem s t"
  shows "sr_system t = sr_system s \<or> cleanup_step sem (sr_system s) (sr_system t)"
  using assms(2)
proof (cases rule: shutdown_step_cases)
  case (begin_shutdown c gate)
  then show ?thesis using cleanup_step.close_gate[of sem "sr_system s"]
    by (auto simp: begin_owned_container_shutdown_def)
next
  case (queue_idle p d ds ps pool q pool')
  from queue_idle(4) obtain r where "submit_prewarmer sem (db_value (pd_name d)) (sys_queue (sr_system s)) = Some (r, q)"
    by (rule queue_counted_cases)
  from cleanup_step.submit_prewarm[OF this] queue_idle(1) show ?thesis by simp
next
  case (close_queue target q)
  with cleanup_step.begin_close[OF close_queue(3,4)] show ?thesis by simp
next
  case (drain target outcome q)
  with assms(1) have "sys_drain (sr_system s) = Some target" by (simp add: shutdown_inv_def)
  from cleanup_step.drain_return[OF this drain(3)] drain(1) show ?thesis by simp
next
  case (finish outcome r c q)
  show ?thesis
  proof (cases outcome)
    case None
    with finish show ?thesis by (cases "sr_system s") (simp add: drain_finish_def)
  next
    case (Some fs)
    with assms(1) finish(2) have "sys_delivery (sr_system s) = Some fs" by (simp add: shutdown_inv_def)
    from cleanup_step.deliver[OF this] finish(1,3) Some show ?thesis by simp
  qed
qed auto

lemma system_progress:
  assumes "semaphore_laws sem" "shutdown_inv sem b c s" "shutdown_step sem s t"
  shows "cleanup_reachable sem b c (sr_system t)"
    "sem_is_closed sem (q_admission (sys_queue (sr_system s))) \<Longrightarrow> sem_is_closed sem (q_admission (sys_queue (sr_system t)))"
    "q_closed (sys_queue (sr_system s)) \<Longrightarrow> q_closed (sys_queue (sr_system t))"
    "q_closed (sys_queue (sr_system s)) \<Longrightarrow>
      q_next_sequence (sys_queue (sr_system t)) = q_next_sequence (sys_queue (sr_system s))"
    "q_closed (sys_queue (sr_system s)) \<Longrightarrow> pending (sr_system s) = [] \<Longrightarrow> pending (sr_system t) = []"
proof -
  from assms(2) have r: "cleanup_reachable sem b c (sr_system s)" by (simp add: shutdown_inv_def)
  from shutdown_system_step[OF assms(2,3)]
  show "cleanup_reachable sem b c (sr_system t)"
    "sem_is_closed sem (q_admission (sys_queue (sr_system s))) \<Longrightarrow> sem_is_closed sem (q_admission (sys_queue (sr_system t)))"
    "q_closed (sys_queue (sr_system s)) \<Longrightarrow> q_closed (sys_queue (sr_system t))"
    "q_closed (sys_queue (sr_system s)) \<Longrightarrow>
      q_next_sequence (sys_queue (sr_system t)) = q_next_sequence (sys_queue (sr_system s))"
    "q_closed (sys_queue (sr_system s)) \<Longrightarrow> pending (sr_system s) = [] \<Longrightarrow> pending (sr_system t) = []"
    using r gate_step[OF assms(1)] closed_step step_monotone
    by (metis reachable_step)+
qed

text \<open>Pools: those that still accept callers are registered or about to be closed.\<close>

definition pools_inv :: "'s server_run \<Rightarrow> bool" where
  "pools_inv s \<longleftrightarrow> (\<forall>p pool. sr_pools s p = Some pool \<longrightarrow> pool_ok pool \<and> (pw_accepting pool \<longrightarrow>
     (if stage (sr_phase s) \<le> 1 then p \<in> set (sr_registered s) else p \<in> set (pools_to_close (sr_phase s)))))"

lemma pools_inv_step:
  assumes "pools_inv s" "shutdown_step sem s t"
    and "stage (sr_phase s) \<ge> 1 \<Longrightarrow> sem_is_closed sem (q_admission (sys_queue (sr_system s)))"
  shows "pools_inv t"
  using assms(2)
proof (cases rule: shutdown_step_cases)
  case (other_pool p pool pool')
  with assms(1) pool_change_ok[OF other_pool(3)] show ?thesis by (auto simp: pools_inv_def)
next
  case (register p pools capacity)
  then have "\<not> sem_is_closed sem (q_admission (sys_queue (sr_system s)))"
    and pools: "pools = filter (\<lambda>p. sr_pools s p \<noteq> None) (sr_registered s) @ [p]"
    by (auto simp: register_prewarm_pool_def admission_is_closed_def split: if_splits)
  with assms(3) have "stage (sr_phase s) = 0" by (metis not_less_eq_eq One_nat_def le_0_eq)
  with assms(1) register(1) pools show ?thesis
    by (auto simp: pools_inv_def PrewarmPool_new_def pool_ok_def)
next
  case (close_pool p ps pool ready pool')
  with assms(1) have "pool_ok pool" by (auto simp: pools_inv_def)
  with close_pool(4) have "pool_ok pool'" "\<not> pw_accepting pool'"
    by (auto simp: begin_cleanup_def pool_ok_def Let_def split: if_splits)
  with close_pool assms(1) show ?thesis by (auto simp: pools_inv_def)
next
  case (shut_pool p ready ps pool)
  with assms(1) show ?thesis by (auto simp: pools_inv_def close_semaphores_def pool_ok_def)
next
  case (queue_idle p d ds ps pool q pool')
  from queue_idle(4) have "pool' \<in> {pool, deletion_finish pool}" by (rule queue_counted_cases)
  with queue_idle assms(1) show ?thesis by (auto simp: pools_inv_def deletion_finish_def pool_ok_def)
next
  case (skip_pool p ps)
  with assms(1) show ?thesis by (fastforce simp: pools_inv_def)
qed (use assms(1) in \<open>auto simp: pools_inv_def\<close>)

lemma shutdown_inv_step:
  assumes laws: "semaphore_laws sem" and inv: "shutdown_inv sem b c s" and step: "shutdown_step sem s t"
  shows "shutdown_inv sem b c t"
proof -
  note prog = system_progress[OF assms]
  from inv have gate: "stage (sr_phase s) \<ge> 1 \<Longrightarrow> sem_is_closed sem (q_admission (sys_queue (sr_system s)))"
    and seq: "sequence_inv (sr_system s)"
    using cleanup_sys.reachable_inv[of sem b c "sr_system s"] by (auto simp: shutdown_inv_def system_inv_def)
  have pools: "pools_inv t"
    using pools_inv_step[OF _ step gate] inv by (simp add: shutdown_inv_def pools_inv_def)
  have rest: "(stage (sr_phase t) \<ge> 1 \<longrightarrow> sem_is_closed sem (q_admission (sys_queue (sr_system t))))
   \<and> (stage (sr_phase t) \<ge> 4 \<longrightarrow> q_closed (sys_queue (sr_system t)))
   \<and> (\<forall>target. sr_phase t = Draining target \<longrightarrow>
        sys_drain (sr_system t) = Some target \<and> target = q_next_sequence (sys_queue (sr_system t)))
   \<and> (stage (sr_phase t) \<ge> 5 \<longrightarrow> pending (sr_system t) = [])
   \<and> (stage (sr_phase t) \<ge> 7 \<longrightarrow> sp_closed (ps_pool (sr_sessions t)))
   \<and> (co_worker (sr_owner t) \<longleftrightarrow> stage (sr_phase t) < 8) \<and> \<not> co_poisoned (sr_owner t)
   \<and> (undelivered (sr_phase t) \<noteq> None \<longrightarrow> sys_delivery (sr_system t) = undelivered (sr_phase t))"
    using step
  proof (cases rule: shutdown_step_cases)
    case (other_cleanup y)
    with inv prog show ?thesis by (auto simp: shutdown_inv_def leaves_alone_def)
  next
    case (other_sessions y)
    with inv sessions_closed_step[OF other_sessions(2)] show ?thesis by (auto simp: shutdown_inv_def)
  next
    case (begin_shutdown c gate)
    with inv laws show ?thesis
      by (auto simp: shutdown_inv_def begin_owned_container_shutdown_def admission_close_def semaphore_lawsD)
  next
    case (queue_idle p d ds ps pool q pool')
    with inv prog(2) show ?thesis by (auto simp: shutdown_inv_def)
  next
    case (close_queue target q)
    with inv show ?thesis by (auto simp: shutdown_inv_def submission_close_def)
  next
    case (drain target outcome q)
    with inv seq wait_done[of "sr_system s" outcome q] have "pending (sr_system s) = []" by (simp add: shutdown_inv_def)
    with drain inv prog show ?thesis by (auto simp: shutdown_inv_def split: option.splits)
  next
    case (close_sessions outcome p)
    with inv show ?thesis by (auto simp: shutdown_inv_def pool_close_def bind_exec_Return_iff)
  next
    case (stop_container outcome handle r owner)
    with inv show ?thesis by (auto simp: shutdown_inv_def owner_shutdown_def)
  next
    case (finish outcome r c q)
    with inv prog show ?thesis by (auto simp: shutdown_inv_def)
  qed (use inv in \<open>auto simp: shutdown_inv_def\<close>)
  with prog(1) pools show ?thesis by (simp add: shutdown_inv_def pools_inv_def)
qed

definition server_inv :: "'s semaphore \<Rightarrow> nat \<Rightarrow> nat \<Rightarrow> 's server_run \<Rightarrow> bool" where
  "server_inv sem b c s \<longleftrightarrow> (semaphore_laws sem \<longrightarrow> shutdown_inv sem b c s)"

interpretation shutdown_sys: invariant_system "running_server sem b c url timeout project n ident"
  "shutdown_step sem" "server_inv sem b c"
  for sem :: "'s semaphore" and b c url timeout project n ident
proof
  fix s :: "'s server_run"
  assume "running_server sem b c url timeout project n ident s"
  then show "server_inv sem b c s"
    by (auto simp: server_inv_def shutdown_inv_def running_server_def start_of_def intro: reachable_init)
qed (auto simp: server_inv_def intro: shutdown_inv_step)

section \<open>Properties\<close>

definition demo_run :: "shutdown_phase \<Rightarrow> bool \<Rightarrow> bool \<Rightarrow> bool \<Rightarrow> bool \<Rightarrow> (nat \<times> bool) server_run" where
  "demo_run phase closed drain shut working =
     \<lparr>sr_system = (initial_system counting_semaphore 3 1)\<lparr>sys_queue :=
        (new_queue 1 (3, phase \<noteq> Not_started))\<lparr>q_closed := closed\<rparr>, sys_drain := (if drain then Some 0 else None)\<rparr>,
      sr_registered = [], sr_pools = Map.empty,
      sr_sessions = \<lparr>ps_pool = (AdminSessionPool_new ''u'' 1 ''a'' 1)\<lparr>sp_closed := shut\<rparr>, ps_out = []\<rparr>,
      sr_owner = \<lparr>co_id = ''c'', co_worker = working, co_poisoned = False, co_startup_exit = None\<rparr>,
      sr_phase = phase\<rparr>"

abbreviation demo_reachable :: "(nat \<times> bool) server_run \<Rightarrow> bool" where
  "demo_reachable \<equiv> reachable (running_server counting_semaphore 3 1 ''u'' 1 ''a'' 1 ''c'') (shutdown_step counting_semaphore)"

lemmas demo_run_simps = demo_run_def initial_system_def new_queue_def counting_semaphore_def DatabaseAdmission_new_def

lemma demo_run_steps:
  "running_server counting_semaphore 3 1 ''u'' 1 ''a'' 1 ''c'' (demo_run Not_started False False False True)"
  "shutdown_step counting_semaphore (demo_run Not_started False False False True) (demo_run Gate_closed False False False True)"
  "shutdown_step counting_semaphore (demo_run Gate_closed False False False True) (demo_run (Closing_pools []) False False False True)"
  "shutdown_step counting_semaphore (demo_run (Closing_pools []) False False False True) (demo_run Blocking_task False False False True)"
  "shutdown_step counting_semaphore (demo_run Blocking_task False False False True) (demo_run (Draining 0) True True False True)"
  "shutdown_step counting_semaphore (demo_run (Draining 0) True True False True) (demo_run (Joining None) True False False True)"
  "shutdown_step counting_semaphore (demo_run (Joining None) True False False True) (demo_run (Drained None) True False False True)"
  "shutdown_step counting_semaphore (demo_run (Drained None) True False False True) (demo_run (Sessions_closed None) True False True True)"
  "shutdown_step counting_semaphore (demo_run (Sessions_closed None) True False True True)
     (demo_run (Container_stopped None (Inr ())) True False True False)"
proof -
  show "running_server counting_semaphore 3 1 ''u'' 1 ''a'' 1 ''c'' (demo_run Not_started False False False True)"
    by (simp add: running_server_def demo_run_simps AdminSessionPool_new_def)
  show "shutdown_step counting_semaphore (demo_run Not_started False False False True) (demo_run Gate_closed False False False True)"
    using shutdown_step.begin_shutdown[of "demo_run Not_started False False False True" counting_semaphore]
    by (simp add: demo_run_simps begin_owned_container_shutdown_def admission_close_def)
  show "shutdown_step counting_semaphore (demo_run Gate_closed False False False True) (demo_run (Closing_pools []) False False False True)"
    using shutdown_step.take_pools[of "demo_run Gate_closed False False False True" counting_semaphore]
    by (simp add: demo_run_simps)
  show "shutdown_step counting_semaphore (demo_run (Closing_pools []) False False False True) (demo_run Blocking_task False False False True)"
    using shutdown_step.pools_closed[of "demo_run (Closing_pools []) False False False True" counting_semaphore]
    by (simp add: demo_run_simps)
  show "shutdown_step counting_semaphore (demo_run Blocking_task False False False True) (demo_run (Draining 0) True True False True)"
    using shutdown_step.close_queue[of "demo_run Blocking_task False False False True" 0 _ counting_semaphore]
    by (simp add: demo_run_simps submission_close_def)
  show "shutdown_step counting_semaphore (demo_run (Draining 0) True True False True) (demo_run (Joining None) True False False True)"
    using shutdown_step.drain[of "demo_run (Draining 0) True True False True" 0 None _ counting_semaphore]
    by (simp add: demo_run_simps wait_and_take_def)
  show "shutdown_step counting_semaphore (demo_run (Joining None) True False False True) (demo_run (Drained None) True False False True)"
    using shutdown_step.join[of "demo_run (Joining None) True False False True" None _ counting_semaphore]
    by (simp add: demo_run_simps next_job_def)
  show "shutdown_step counting_semaphore (demo_run (Drained None) True False False True) (demo_run (Sessions_closed None) True False True True)"
    using shutdown_step.close_sessions[of "demo_run (Drained None) True False False True" None _ counting_semaphore]
    by (simp add: demo_run_simps pool_close_def AdminSessionPool_new_def checked_sub_def)
  show "shutdown_step counting_semaphore (demo_run (Sessions_closed None) True False True True)
     (demo_run (Container_stopped None (Inr ())) True False True False)"
    using shutdown_step.stop_container[of "demo_run (Sessions_closed None) True False True True" None "Joined None" _ _ counting_semaphore]
    by (simp add: demo_run_simps owner_shutdown_def join_failed_startup_worker_def)
qed

lemma demo_stopped_reachable: "demo_reachable (demo_run (Container_stopped None (Inr ())) True False True False)"
  using demo_run_steps by (meson reachable_init reachable_step)



end
