(* ===== verification/Leases.thy ===== *)
theory Leases
  imports Shutdown Templates
begin

text \<open>
  Disposable databases (\<open>DatabaseLease\<close>, \<open>PreparedDatabase\<close>, \<open>UnpublishedDatabase\<close> and the functions that
  create and clean them up in \<open>src/harness.rs\<close>). Code that runs on an administrative session acts on a
  world that holds, next to the server, the admission gate and the prewarm pool of the lease with the
  phase of its \<open>PrewarmReturn\<close> guard. A backend may change any part of that world while a request
  runs, which stands for the other threads.
\<close>

section \<open>Leases\<close>

record lease_inner =
  li_name :: database_name
  li_permit :: nat
  li_prewarm_pool :: "nat option"

record database_lease =
  le_inner :: "lease_inner option"
  le_database_url :: string

definition lease_database_name :: "database_lease \<Rightarrow> string exec" where
  "lease_database_name self =
     bind_exec (expect (le_inner self) ''database lease is present until cleanup consumes it'')
       (\<lambda>inner. Return (db_value (li_name inner)))"

text \<open>\<open>alive\<close>: whether the weak reference to the pool can be upgraded.\<close>

definition into_lease :: "bool \<Rightarrow> nat \<Rightarrow> nat \<Rightarrow> prepared_database \<Rightarrow> database_lease exec" where
  "into_lease alive pool permit self =
     (if \<not> alive then Panic ''a leased prewarmed database retains its public pool''
      else Return \<lparr>le_inner = Some \<lparr>li_name = pd_name self, li_permit = permit, li_prewarm_pool = Some pool\<rparr>,
                   le_database_url = pd_database_url self\<rparr>)"

text \<open>The race between a permit and the closing of the pool: the permit is polled first.\<close>

definition acquire_database_permit_or_pool_close ::
  "'s semaphore \<Rightarrow> 'u server_inner \<Rightarrow> 's \<Rightarrow> 's \<Rightarrow> (nat result \<times> 's) option" where
  "acquire_database_permit_or_pool_close sem server gate pool_closed =
     (case acquire_database_permit sem server gate of
        Some rg \<Rightarrow> Some rg
      | None \<Rightarrow>
          (case sem_acquire sem 1 pool_closed of
             Acquire_pending \<Rightarrow> None
           | _ \<Rightarrow> Some (Inl PrewarmPoolClosed, gate)))"

text \<open>
  \<open>PrewarmedDatabasePool::database\<close>, for a caller whose two waits are over (\<open>None\<close> otherwise). The ready
  token is a guard: it goes back to its semaphore on every exit but the last.
\<close>

definition pool_database ::
  "'s semaphore \<Rightarrow> 'u server_inner \<Rightarrow> nat \<Rightarrow> 's \<times> 's prewarm_pool
     \<Rightarrow> (database_lease result exec \<times> 's \<times> 's prewarm_pool) option" where
  "pool_database sem server pool gp =
     (case sem_acquire sem 1 (pw_ready_admission (snd gp)) of
        Acquire_pending \<Rightarrow> None
      | Acquire_closed \<Rightarrow> Some (Return (Inl PrewarmPoolClosed), gp)
      | Acquired token \<Rightarrow>
          (let p1 = (snd gp)\<lparr>pw_ready_admission := token\<rparr>
           in case acquire_database_permit_or_pool_close sem server (fst gp) (pw_closed p1) of
                None \<Rightarrow> None
              | Some (Inl e, gate) \<Rightarrow> Some (Return (Inl e), gate, add_ready_token sem p1)
              | Some (Inr permit, gate) \<Rightarrow>
                  (case take_ready p1 of
                     (None, p2) \<Rightarrow>
                       Some (Return (Inl PrewarmPoolClosed), sem_add_permits sem permit gate, add_ready_token sem p2)
                   | (Some prepared, p2) \<Rightarrow>
                       Some (bind_exec (into_lease True pool permit prepared) (\<lambda>l. Return (Inr l)), gate, p2))))"

section \<open>Creation\<close>

definition set_gate :: "'g \<Rightarrow> ('g \<times> 'w) io_state \<Rightarrow> ('g \<times> 'w) io_state" where
  "set_gate gate s = s\<lparr>world := (gate, snd (world s))\<rparr>"

text \<open>The operation both creations run on a lifecycle session.\<close>

definition create_on_session ::
  "'g semaphore \<Rightarrow> ('g \<times> 'w) backend \<Rightarrow> nat \<Rightarrow> 'u server_inner \<Rightarrow> template_source \<Rightarrow> database_name
     \<Rightarrow> admin_client \<Rightarrow> ('g \<times> 'w, unit) io" where
  "create_on_session sem be unix_now server source name client =
     io_bind (create_managed_database_classified sem be client name (source_name source)
                (ResourceMetadata_test unix_now (srv_project server) (srv_owner_key server))) (\<lambda>created.
     case created of Inl failure \<Rightarrow> io_err (into_error failure) | Inr _ \<Rightarrow> io_ok ())"

text \<open>
  \<open>create_test_database\<close>. The permit is a guard: it is returned when the creation fails or panics.
\<close>

definition create_test_database ::
  "'g semaphore \<Rightarrow> 'u url_api \<Rightarrow> ('g \<times> 'w) backend \<Rightarrow> nat \<Rightarrow> 'u server_inner \<Rightarrow> string \<Rightarrow> template_source
     \<Rightarrow> session_pool \<Rightarrow> ('g \<times> 'w) io_state
     \<Rightarrow> (database_lease result exec \<times> session_pool \<times> ('g \<times> 'w) io_state) option" where
  "create_test_database sem api be unix_now server uuid source sessions s =
     (case acquire_database_permit sem server (fst (world s)) of
        None \<Rightarrow> None
      | Some (Inl e, gate) \<Rightarrow> Some (Return (Inl e), sessions, set_gate gate s)
      | Some (Inr permit, gate) \<Rightarrow>
          (let s1 = set_gate gate s;
               give_back = (\<lambda>t. set_gate (sem_add_permits sem permit (fst (world t))) t)
           in case DatabaseName_test (srv_project server) uuid of
                Panic m \<Rightarrow> Some (Panic m, sessions, give_back s1)
              | Return name \<Rightarrow>
                  (case execute be ''connect for disposable database creation''
                          (create_on_session sem be unix_now server source name) sessions s1 of
                     None \<Rightarrow> None
                   | Some (r, sessions', t) \<Rightarrow>
                       (case blocking_result r of
                          Inl e \<Rightarrow> Some (Return (Inl e), sessions', give_back t)
                        | Inr _ \<Rightarrow>
                            Some (Return (Inr \<lparr>le_inner = Some \<lparr>li_name = name, li_permit = permit, li_prewarm_pool = None\<rparr>,
                                    le_database_url = database_url api (srv_admin_url server) name\<rparr>), sessions', t)))))"

definition create_unpublished_database ::
  "'g semaphore \<Rightarrow> 'u url_api \<Rightarrow> ('g \<times> 'w) backend \<Rightarrow> nat \<Rightarrow> 'u server_inner \<Rightarrow> string \<Rightarrow> template_source
     \<Rightarrow> session_pool \<Rightarrow> ('g \<times> 'w) io_state
     \<Rightarrow> (prepared_database result \<times> session_pool \<times> ('g \<times> 'w) io_state) option" where
  "create_unpublished_database sem api be unix_now server uuid source sessions s =
     (case DatabaseName_test (srv_project server) uuid of
        Panic m \<Rightarrow> Some (Inl (BlockingTask m), sessions, s)
      | Return name \<Rightarrow>
          map_option (\<lambda>(r, sessions', t).
              (case blocking_result r of
                 Inl e \<Rightarrow> (Inl e, sessions', t)
               | Inr _ \<Rightarrow> (Inr \<lparr>pd_name = name, pd_database_url = database_url api (srv_admin_url server) name\<rparr>,
                           sessions', t)))
            (execute be ''connect for prewarmed database creation''
               (create_on_session sem be unix_now server source name) sessions s))"

text \<open>\<open>PostgresHarness::empty_database\<close> and \<open>DatabaseTemplate::database\<close>.\<close>

definition empty_database ::
  "'g semaphore \<Rightarrow> 'u url_api \<Rightarrow> ('g \<times> 'w) backend \<Rightarrow> nat \<Rightarrow> 'u server_inner \<Rightarrow> string
     \<Rightarrow> session_pool \<Rightarrow> ('g \<times> 'w) io_state
     \<Rightarrow> (database_lease result exec \<times> session_pool \<times> ('g \<times> 'w) io_state) option" where
  "empty_database sem api be unix_now server uuid =
     create_test_database sem api be unix_now server uuid Empty"

definition template_database ::
  "'g semaphore \<Rightarrow> 'u url_api \<Rightarrow> ('g \<times> 'w) backend \<Rightarrow> nat \<Rightarrow> 'u server_inner \<Rightarrow> string \<Rightarrow> database_name
     \<Rightarrow> session_pool \<Rightarrow> ('g \<times> 'w) io_state
     \<Rightarrow> (database_lease result exec \<times> session_pool \<times> ('g \<times> 'w) io_state) option" where
  "template_database sem api be unix_now server uuid template =
     create_test_database sem api be unix_now server uuid (Template_source template)"

text \<open>
  An \<open>UnpublishedDatabase\<close> that is dropped unpublished queues its database for deletion.
\<close>

definition queue_unpublished_database ::
  "'s semaphore \<Rightarrow> prepared_database \<Rightarrow> 's cleanup_queue \<Rightarrow> 's cleanup_queue" where
  "queue_unpublished_database sem prepared q =
     (case submit_prewarmer sem (db_value (pd_name prepared)) q of Some (_, q') \<Rightarrow> q' | None \<Rightarrow> q)"

definition unpublished_drop :: "'s semaphore \<Rightarrow> prepared_database option \<Rightarrow> 's cleanup_queue \<Rightarrow> 's cleanup_queue" where
  "unpublished_drop sem prepared q =
     (case prepared of None \<Rightarrow> q | Some d \<Rightarrow> queue_unpublished_database sem d q)"

definition unpublished_publish :: "prepared_database option \<Rightarrow> prepared_database exec" where
  "unpublished_publish prepared = expect prepared ''an unpublished database is published at most once''"

section \<open>Cleanup\<close>

text \<open>A section under the pool's mutex that also moves the phase of the return guard.\<close>

definition pool_section ::
  "('s prewarm_pool \<times> return_phase \<Rightarrow> 'r \<times> 's prewarm_pool \<times> return_phase)
     \<Rightarrow> ('s \<times> ('s prewarm_pool \<times> return_phase) \<times> 'w, 'r) io" where
  "pool_section f s =
     (let (r, p) = f (fst (snd (world s)))
      in (Return (Inr r), s\<lparr>world := (fst (world s), p, snd (snd (world s)))\<rparr>))"

definition refill_wanted :: "'s prewarm_pool \<times> return_phase \<Rightarrow> bool \<times> 's prewarm_pool \<times> return_phase" where
  "refill_wanted pp = (let (refill, phase, p) = after_drop (fst pp) in (refill, p, phase))"

text \<open>\<open>PrewarmReturn::publish\<close>; a database that was queued as ready adds a token.\<close>

definition return_publish ::
  "'s semaphore \<Rightarrow> prepared_database \<Rightarrow> 's prewarm_pool \<times> return_phase \<Rightarrow> bool \<times> 's prewarm_pool \<times> return_phase" where
  "return_publish sem prepared pp =
     (let (queued, p) = finish_creation prepared (fst pp)
      in (queued, if queued then add_ready_token sem p else p, Complete))"

definition finish_deletion :: "'s prewarm_pool \<times> return_phase \<Rightarrow> unit \<times> 's prewarm_pool \<times> return_phase" where
  "finish_deletion pp = ((), deletion_finish (fst pp), snd pp)"

text \<open>The replacement of a returned prewarmed database.\<close>

definition refill_database ::
  "'s semaphore \<Rightarrow> 'u url_api \<Rightarrow> ('s \<times> ('s prewarm_pool \<times> return_phase) \<times> 'w) backend \<Rightarrow> nat \<Rightarrow> 'u server_inner
     \<Rightarrow> string \<Rightarrow> database_name \<Rightarrow> admin_client
     \<Rightarrow> ('s \<times> ('s prewarm_pool \<times> return_phase) \<times> 'w, cleanup_outcome disposition) io" where
  "refill_database sem api be unix_now server uuid template_name client =
     io_bind (io_exec (DatabaseName_test (srv_project server) uuid)) (\<lambda>fresh_name.
     io_bind (create_managed_database_classified sem be client fresh_name (db_value template_name)
                (ResourceMetadata_test unix_now (srv_project server) (srv_owner_key server))) (\<lambda>created.
     case created of
       Inl (CreationNoResidual e) \<Rightarrow> io_ok (Reuse (NoResidual e))
     | Inl (CreationResidualPossible e) \<Rightarrow> io_ok (Evict (ResidualPossible e))
     | Inr _ \<Rightarrow>
         io_bind (pool_section (return_publish sem \<lparr>pd_name = fresh_name,
                    pd_database_url = database_url api (srv_admin_url server) fresh_name\<rparr>)) (\<lambda>queued.
         if queued then io_ok (Reuse Succeeded)
         else
           io_bind (io_try (drop_database be client fresh_name)) (\<lambda>result.
           io_bind (pool_section finish_deletion) (\<lambda>_.
           case result of
             Inl e \<Rightarrow> io_ok (Evict (ResidualPossible e))
           | Inr _ \<Rightarrow> io_ok (Reuse Succeeded))))))"

text \<open>\<open>prewarm_return\<close>: the template of the pool that the lease came from, if that pool still exists.\<close>

definition cleanup_on_session ::
  "'s semaphore \<Rightarrow> 'u url_api \<Rightarrow> ('s \<times> ('s prewarm_pool \<times> return_phase) \<times> 'w) backend \<Rightarrow> nat \<Rightarrow> 'u server_inner
     \<Rightarrow> string \<Rightarrow> database_name \<Rightarrow> database_name option \<Rightarrow> admin_client
     \<Rightarrow> ('s \<times> ('s prewarm_pool \<times> return_phase) \<times> 'w, cleanup_outcome disposition) io" where
  "cleanup_on_session sem api be unix_now server uuid name prewarm_return client =
     io_bind (io_try (drop_database be client name)) (\<lambda>dropped.
     case dropped of
       Inl e \<Rightarrow> io_ok (Evict (ResidualPossible e))
     | Inr _ \<Rightarrow>
         (case prewarm_return of
            None \<Rightarrow> io_ok (Reuse Succeeded)
          | Some template_name \<Rightarrow>
              io_bind (pool_section refill_wanted) (\<lambda>refill.
              if \<not> refill then io_ok (Reuse Succeeded)
              else refill_database sem api be unix_now server uuid template_name client)))"

text \<open>The code above never takes the error exit of \<open>io\<close>: errors are outcomes.\<close>

definition disposition_run ::
  "('w, cleanup_outcome disposition) io \<Rightarrow> 'w io_state \<Rightarrow> cleanup_outcome disposition exec \<times> 'w io_state" where
  "disposition_run m s =
     (case m s of
        (Return (Inr d), t) \<Rightarrow> (Return d, t)
      | (Return (Inl e), t) \<Rightarrow> (Return (Evict (ResidualPossible e)), t)
      | (Panic msg, t) \<Rightarrow> (Panic msg, t))"

definition database_cleanup_operation ::
  "'s semaphore \<Rightarrow> 'u url_api \<Rightarrow> ('s \<times> ('s prewarm_pool \<times> return_phase) \<times> 'w) backend \<Rightarrow> nat \<Rightarrow> 'u server_inner
     \<Rightarrow> string \<Rightarrow> database_name \<Rightarrow> database_name option \<Rightarrow> session_pool
     \<Rightarrow> ('s \<times> ('s prewarm_pool \<times> return_phase) \<times> 'w) io_state
     \<Rightarrow> (cleanup_outcome exec \<times> session_pool \<times> ('s \<times> ('s prewarm_pool \<times> return_phase) \<times> 'w) io_state) option" where
  "database_cleanup_operation sem api be unix_now server uuid name prewarm_return sessions s =
     map_option (\<lambda>(r, sessions', t).
         (case r of
            Return (Inr outcome) \<Rightarrow> Return outcome
          | Return (Inl e) \<Rightarrow> Return (ResidualPossible e)
          | Panic m \<Rightarrow> Panic m, sessions', t))
       (execute_with_disposition be ''connect for disposable database cleanup''
          (\<lambda>client. disposition_run (cleanup_on_session sem api be unix_now server uuid name prewarm_return client))
          sessions s)"

section \<open>Giving a lease back\<close>

text \<open>
  The three ways to submit the cleanup of a lease. \<open>pool\<close> is the prewarm pool if its weak reference can
  still be upgraded; the return guard is taken before the submission and travels with the operation.
  A rejected submission drops the operation with its guard.
\<close>

definition begin_lease_return :: "lease_inner \<Rightarrow> 's prewarm_pool option \<Rightarrow> (return_phase \<times> 's prewarm_pool) option" where
  "begin_lease_return self pool = (case li_prewarm_pool self of None \<Rightarrow> None | Some _ \<Rightarrow> map_option begin_return pool)"

definition after_submission ::
  "'s semaphore \<Rightarrow> 's prewarm_pool option \<Rightarrow> (return_phase \<times> 's prewarm_pool) option
     \<Rightarrow> (unit result exec \<times> 's cleanup_queue) option
     \<Rightarrow> (unit result exec \<times> 's cleanup_queue \<times> 's prewarm_pool option) option" where
  "after_submission sem unguarded guard submitted =
     (case submitted of
        None \<Rightarrow> None
      | Some (r, q) \<Rightarrow>
          Some (case guard of
             None \<Rightarrow> (r, q, unguarded)
           | Some (phase, pool) \<Rightarrow>
               if r = Return (Inr ()) then (r, q, Some pool)
               else (let (q', pool') = return_drop sem phase (q, pool) in (r, q', Some pool'))))"

definition queue_awaited_cleanup ::
  "'s semaphore \<Rightarrow> lease_inner \<Rightarrow> 's prewarm_pool option \<Rightarrow> 's cleanup_queue
     \<Rightarrow> (unit result exec \<times> 's cleanup_queue \<times> 's prewarm_pool option) option" where
  "queue_awaited_cleanup sem self pool q =
     after_submission sem pool (begin_lease_return self pool)
       (submit_awaited_outcome sem (db_value (li_name self)) (li_permit self) q)"

definition queue_deferred_cleanup ::
  "'s semaphore \<Rightarrow> lease_inner \<Rightarrow> 's prewarm_pool option \<Rightarrow> 's cleanup_queue
     \<Rightarrow> (unit result exec \<times> 's cleanup_queue \<times> 's prewarm_pool option) option" where
  "queue_deferred_cleanup sem self pool q =
     after_submission sem pool (begin_lease_return self pool)
       (submit_deferred_outcome sem (db_value (li_name self)) (Some (li_permit self)) q)"

definition queue_fallback_cleanup ::
  "'s semaphore \<Rightarrow> lease_inner \<Rightarrow> 's prewarm_pool option \<Rightarrow> 's cleanup_queue
     \<Rightarrow> (unit result exec \<times> 's cleanup_queue \<times> 's prewarm_pool option) option" where
  "queue_fallback_cleanup sem self pool q =
     after_submission sem pool (begin_lease_return self pool)
       (submit_fallback_outcome sem (db_value (li_name self)) (li_permit self) q)"

text \<open>\<open>DatabaseLease::drop\<close>: a lease that a cleanup has consumed has nothing left.\<close>

definition lease_drop ::
  "'s semaphore \<Rightarrow> database_lease \<Rightarrow> 's prewarm_pool option \<Rightarrow> 's cleanup_queue
     \<Rightarrow> ('s cleanup_queue \<times> 's prewarm_pool option) option" where
  "lease_drop sem self pool q =
     (case le_inner self of
        None \<Rightarrow> Some (q, pool)
      | Some inner \<Rightarrow> map_option (\<lambda>(_, q', pool'). (q', pool')) (queue_fallback_cleanup sem inner pool q))"

text \<open>
  \<open>DatabaseLease::defer_cleanup\<close>, and \<open>DatabaseLease::cleanup\<close> up to the end of its submission. Both consume
  the lease, so that its drop finds nothing.
\<close>

definition defer_cleanup ::
  "'s semaphore \<Rightarrow> database_lease \<Rightarrow> 's prewarm_pool option \<Rightarrow> 's cleanup_queue
     \<Rightarrow> (unit result exec \<times> database_lease \<times> 's cleanup_queue \<times> 's prewarm_pool option) option" where
  "defer_cleanup sem self pool q =
     (case le_inner self of
        None \<Rightarrow> Some (Panic ''database lease cleanup runs at most once'', self, q, pool)
      | Some inner \<Rightarrow>
          map_option (\<lambda>(r, q', pool'). (Return (blocking_result r), self\<lparr>le_inner := None\<rparr>, q', pool'))
            (queue_deferred_cleanup sem inner pool q))"

definition cleanup_submitted ::
  "'s semaphore \<Rightarrow> database_lease \<Rightarrow> 's prewarm_pool option \<Rightarrow> 's cleanup_queue
     \<Rightarrow> (unit result exec \<times> database_lease \<times> 's cleanup_queue \<times> 's prewarm_pool option) option" where
  "cleanup_submitted sem self pool q =
     (case le_inner self of
        None \<Rightarrow> Some (Panic ''database lease cleanup runs at most once'', self, q, pool)
      | Some inner \<Rightarrow>
          map_option (\<lambda>(r, q', pool'). (Return (blocking_result r), self\<lparr>le_inner := None\<rparr>, q', pool'))
            (queue_awaited_cleanup sem inner pool q))"

text \<open>\<open>DatabaseLease::cleanup\<close> after its submission: what the completion channel delivers.\<close>

definition await_cleanup :: "awaited_outcome option \<Rightarrow> unit result exec" where
  "await_cleanup received =
     (case received of None \<Rightarrow> Return (Inl CleanupWorkerStopped) | Some out \<Rightarrow> awaited_finish out)"

section \<open>Filling a prewarm pool\<close>

text \<open>
  The loop of \<open>DatabaseTemplate::prewarm\<close>. The cleanup queue and the world share the admission gate.
  A failed creation fails the pool and ends the loop.
\<close>

definition share_gate :: "'g cleanup_queue \<Rightarrow> ('g \<times> 'w) io_state \<Rightarrow> 'g cleanup_queue" where
  "share_gate q s = q\<lparr>q_admission := fst (world s)\<rparr>"

fun prewarm_loop ::
  "nat \<Rightarrow> (nat \<Rightarrow> string) \<Rightarrow> 'g semaphore \<Rightarrow> 'u url_api \<Rightarrow> ('g \<times> 'w) backend \<Rightarrow> nat \<Rightarrow> 'u server_inner
     \<Rightarrow> database_name \<Rightarrow> session_pool \<Rightarrow> ('g \<times> 'w) io_state \<Rightarrow> 'g cleanup_queue \<times> 'g prewarm_pool
     \<Rightarrow> (unit result \<times> session_pool \<times> ('g \<times> 'w) io_state \<times> 'g cleanup_queue \<times> 'g prewarm_pool) option" where
  "prewarm_loop 0 uuids sem api be now server template sessions s qp = Some (Inr (), sessions, s, qp)"
| "prewarm_loop (Suc k) uuids sem api be now server template sessions s qp =
     (case begin_creation (snd qp) of
        (Inl e, pool) \<Rightarrow> Some (Inl e, sessions, s, fst qp, pool)
      | (Inr _, pool) \<Rightarrow>
          (case create_unpublished_database sem api be now server (uuids k) (Template_source template) sessions s of
             None \<Rightarrow> None
           | Some (Inl e, sessions', t) \<Rightarrow>
               Some (Inl e, sessions', t, fail_phase sem Creating (share_gate (fst qp) t, pool))
           | Some (Inr prepared, sessions', t) \<Rightarrow>
               prewarm_loop k uuids sem api be now server template sessions' t
                 (creation_publish sem prepared (share_gate (fst qp) t, pool))))"

text \<open>
  \<open>DatabaseTemplate::prewarm\<close> for a pool numbered \<open>p\<close>; an error drops the only public handle.
\<close>

definition prewarm ::
  "nat \<Rightarrow> (nat \<Rightarrow> string) \<Rightarrow> 'g semaphore \<Rightarrow> 'u url_api \<Rightarrow> ('g \<times> 'w) backend \<Rightarrow> nat \<Rightarrow> 'u server_inner
     \<Rightarrow> database_name \<Rightarrow> (nat \<Rightarrow> bool) \<Rightarrow> nat \<Rightarrow> nat list \<Rightarrow> session_pool \<Rightarrow> ('g \<times> 'w) io_state \<Rightarrow> 'g cleanup_queue
     \<Rightarrow> (unit result \<times> nat list \<times> session_pool \<times> ('g \<times> 'w) io_state \<times> 'g cleanup_queue \<times> 'g prewarm_pool option) option" where
  "prewarm capacity uuids sem api be now server template alive p pools sessions s q =
     (case prewarm_capacity_check capacity (max_simultaneous_leases (srv_connection_limits server)) of
        Inl e \<Rightarrow> Some (Inl e, pools, sessions, s, q, None)
      | Inr _ \<Rightarrow>
          (case register_prewarm_pool sem alive (q_admission q) p pools of
             (Inl e, pools') \<Rightarrow> Some (Inl e, pools', sessions, s, q, None)
           | (Inr _, pools') \<Rightarrow>
               map_option (\<lambda>(r, sessions', t, qp).
                   (let (q', pool) = (case r of Inr _ \<Rightarrow> qp | Inl _ \<Rightarrow> snd (pool_drop sem 1 qp))
                    in (r, pools', sessions', t, q', Some pool)))
                 (prewarm_loop capacity uuids sem api be now server template sessions s
                    (q, PrewarmPool_new sem capacity))))"

end
