(* ===== verification/Lease_Properties.thy ===== *)
theory Lease_Properties
  imports Leases Session_Properties Request_Invariants Demo_Server
begin

text \<open>
  Properties of disposable databases: what the outcome of a cleanup says about the databases that
  exist, what a lease from a prewarm pool takes and gives back, and that filling a pool makes exactly
  the requested number of databases available.
\<close>

section \<open>What a checkout preserves\<close>

lemma acquire_now_preserves:
  assumes "preserves P (read_clock be)" "acquire_now be dl p s = (a, t)" "P s" shows "P t"
proof -
  have "preserves P (deadline_remaining be dl)"
    unfolding deadline_remaining_def by (intro preserves_intros assms(1))
  with assms(2,3) show ?thesis
    by (auto simp: acquire_now_def split: if_splits prod.splits exec.splits sum.splits dest: preservesD)
qed

text \<open>A predicate that the single requests of a checkout keep, the checkout keeps.\<close>

lemma checkout_preserves:
  assumes clock: "preserves P (read_clock be)"
    and connect: "\<And>q op'. preserves P (connect_lifecycle be q op')"
    and reuse: "\<And>q dl c. preserves P (prepare_reused be q dl c)"
    and run: "checkout be op p s = Some (r, p', t)" and "P s"
  shows "P t"
proof -
  have el: "preserves P (deadline_is_elapsed be dl)" for dl
    unfolding deadline_is_elapsed_def by (intro preserves_intros clock)
  have loop: "checkout_loop be op dl p s = Some (r, p', t) \<Longrightarrow> P s \<Longrightarrow> P t" for dl p s
  proof (induction "length (sp_idle p)" arbitrary: p s rule: less_induct)
    case less
    note run = less.prems(1)[unfolded checkout_loop.simps[of be op dl p s]]
    obtain a s1 where a: "acquire_now be dl p s = (a, s1)" by fastforce
    from acquire_now_preserves[OF clock a less.prems(2)] have s1: "P s1" .
    show ?case
    proof (cases a)
      case (Granted c q)
      show ?thesis
      proof (cases c)
        case None
        with run a Granted s1 show ?thesis
          by (auto split: prod.splits exec.splits sum.splits dest: preservesD[OF connect])
      next
        case (Some client)
        obtain x s2 where x: "prepare_reused be q dl client s1 = (x, s2)" by fastforce
        from preservesD[OF reuse x s1] have s2: "P s2" .
        obtain b s3 where b: "deadline_is_elapsed be dl s2 = (b, s3)" by fastforce
        from preservesD[OF el b s2] have s3: "P s3" .
        have shorter: "length (sp_idle q2) < length (sp_idle p)" if "release_slot q = Return q2" for q2
          using acquire_now_idle[of be dl p s client q s1] a Granted Some release_slot_idle[OF that] by simp
        from run a Granted Some x b s2 s3 less.hyps[OF shorter] show ?thesis
          by (auto split: exec.splits sum.splits if_splits)
      qed
    qed (use run a s1 in auto)
  qed
  from run show ?thesis
  proof (cases "Deadline_new be (sp_operation_timeout p) s")
    case (Pair x s1)
    have "preserves P (Deadline_new be d)" for d unfolding Deadline_new_def by (intro preserves_intros clock)
    from preservesD[OF this Pair \<open>P s\<close>] have "P s1" .
    with run Pair loop show ?thesis by (auto simp: checkout_def split: exec.splits sum.splits)
  qed
qed

lemma bind_readings_try:
  "io_bind (io_try m) k s = (case m s of (Return r, t) \<Rightarrow> k r t | (Panic msg, t) \<Rightarrow> (Panic msg, t))"
  by (simp add: io_bind_def io_try_def split: prod.split exec.split)

section \<open>Databases that exist\<close>

text \<open>\<open>pres w n\<close>: the server in state \<open>w\<close> has a database named \<open>n\<close>.\<close>

definition on_server :: "('w \<Rightarrow> string \<Rightarrow> bool) \<Rightarrow> 's \<times> 'p \<times> 'w \<Rightarrow> string \<Rightarrow> bool" where
  "on_server pres x n = pres (snd (snd x)) n"

text \<open>A name that appears on the server only by a \<open>CREATE\<close> statement.\<close>

definition only_created :: "'x backend \<Rightarrow> ('x \<Rightarrow> string \<Rightarrow> bool) \<Rightarrow> string \<Rightarrow> bool" where
  "only_created be present n \<longleftrightarrow> (\<forall>w. \<not> present w n \<longrightarrow>
     (\<forall>u t. \<not> present (snd (be_connect be u t w)) n) \<and> \<not> present (snd (be_now be w)) n
   \<and> (\<forall>c t q. take 6 q \<noteq> ''CREATE'' \<longrightarrow> \<not> present (snd (be_batch be c t q w)) n))"

fun disposed :: "'a disposition \<Rightarrow> 'a" where
  "disposed (Reuse x) = x" | "disposed (Evict x) = x"

lemma pool_section_ok:
  "pool_section f s = (r, t) \<Longrightarrow> on_server pres (world t) = on_server pres (world s)"
  by (auto simp: pool_section_def on_server_def fun_eq_iff Let_def split: prod.splits)

lemma create_classified_effect:
  assumes laws: "server_laws be (on_server pres)" "wf_name n"
    and run: "create_managed_database_classified sem be c n tpl md s = (r, t)"
  shows "\<exists>v. r = Return (Inr v)
      \<and> (\<not> on_server pres (world s) (db_value n) \<longrightarrow> creation_sound (on_server pres) (db_value n) v (world t))
      \<and> (\<forall>m. m \<noteq> db_value n \<longrightarrow> on_server pres (world t) m = on_server pres (world s) m)"
proof (cases "sem_is_closed sem (fst (world s))")
  case True
  with run show ?thesis
    by (auto simp: create_managed_database_classified_def attempt_closed creation_sound_def on_server_def)
next
  case False
  obtain v u where op: "creation_operation be c (n, tpl, md) s = (v, u)" by fastforce
  with False run obtain g where t: "r = Return (Inr v)" "t = u\<lparr>world := (g, snd (world u))\<rparr>"
    by (auto simp: create_managed_database_classified_def attempt_managed_creation_def ensure_open_def Let_def)
  have same: "on_server pres (world t) = on_server pres (world u)" by (simp add: t fun_eq_iff on_server_def)
  have wf: "wf_name (fst (n, tpl, md))" using laws(2) by simp
  note eff = creation_operation_sound[OF laws(1) wf op, unfolded request_name_def fst_conv]
  show ?thesis
  proof (intro exI conjI impI allI)
    show "r = Return (Inr v)" by (rule t)
    show "creation_sound (on_server pres) (db_value n) v (world t)" if "\<not> on_server pres (world s) (db_value n)"
      using eff(1)[OF that] unfolding creation_sound_def same .
    show "on_server pres (world t) m = on_server pres (world s) m" if "m \<noteq> db_value n" for m
      using eff(2)[OF that] same by simp
  qed
qed

lemma drop_database_returns: "drop_database be c n s = (r, t) \<Longrightarrow> \<exists>x. r = Return x"
  by (auto simp: drop_database_def request_defs Let_def split: prod.splits)

text \<open>What an outcome says of the two names.\<close>

definition outcome_sound ::
  "('w \<Rightarrow> string \<Rightarrow> bool) \<Rightarrow> database_name \<Rightarrow> cleanup_outcome \<Rightarrow> ('s \<times> ('s prewarm_pool \<times> return_phase) \<times> 'w) \<Rightarrow> bool" where
  "outcome_sound pres fresh outcome w \<longleftrightarrow>
     (case outcome of
        Succeeded \<Rightarrow> on_server pres w (db_value fresh) \<longrightarrow> fresh \<in> pd_name ` set (pw_ready (fst (fst (snd w))))
      | NoResidual _ \<Rightarrow> \<not> on_server pres w (db_value fresh)
      | ResidualPossible _ \<Rightarrow> True)"

lemma publish_effect:
  assumes "pool_section (return_publish sem d) s = (r, t)"
  shows "\<exists>queued. r = Return (Inr queued) \<and> on_server pres (world t) = on_server pres (world s)
    \<and> (queued \<longrightarrow> d \<in> set (pw_ready (fst (fst (snd (world t))))))"
proof -
  obtain g p ph w where ws: "world s = (g, (p, ph), w)" by (metis prod.collapse)
  obtain queued p' where f: "finish_creation d p = (queued, p')" by fastforce
  then have "queued \<Longrightarrow> d \<in> set (pw_ready p')" by (auto simp: finish_creation_def Let_def split: if_splits)
  moreover from assms ws f have "r = Return (Inr queued)"
    "t = s\<lparr>world := (g, (if queued then add_ready_token sem p' else p', Complete), w)\<rparr>"
    by (simp_all add: pool_section_def return_publish_def)
  ultimately show ?thesis using ws by (simp add: add_ready_token_def on_server_def fun_eq_iff)
qed

lemma pool_section_returns: "\<exists>r t. pool_section f s = (Return (Inr r), t)"
  by (simp add: pool_section_def case_prod_beta Let_def)

lemma refill_effect:
  assumes laws: "server_laws be (on_server pres)"
    and fresh: "DatabaseName_test (srv_project server) uuid = Return fresh" "wf_name fresh"
      "\<not> on_server pres (world s) (db_value fresh)"
    and run: "refill_database sem api be now server uuid tpl c s = (Return (Inr d), t)"
  shows "outcome_sound pres fresh (disposed d) (world t)
    \<and> (\<forall>m. m \<noteq> db_value fresh \<longrightarrow> on_server pres (world t) m = on_server pres (world s) m)"
proof -
  let ?d = "\<lparr>pd_name = fresh, pd_database_url = database_url api (srv_admin_url server) fresh\<rparr>"
  obtain v u where cr: "create_managed_database_classified sem be c fresh (db_value tpl)
      (ResourceMetadata_test now (srv_project server) (srv_owner_key server)) s = (Return (Inr v), u)"
    and sound: "creation_sound (on_server pres) (db_value fresh) v (world u)"
    and others: "\<And>m. m \<noteq> db_value fresh \<Longrightarrow> on_server pres (world u) m = on_server pres (world s) m"
    using create_classified_effect[OF laws fresh(2)] fresh(3) by (metis prod.exhaust)
  note run' = run[unfolded refill_database_def fresh(1) io_bind_def io_simps prod.case exec.case sum.case cr]
  show ?thesis
  proof (cases v)
    case (Inl f)
    with run' sound others show ?thesis
      by (cases f) (auto simp: outcome_sound_def creation_sound_def)
  next
    case (Inr x)
    obtain qd u1 where pub: "pool_section (return_publish sem ?d) u = (Return (Inr qd), u1)"
      "on_server pres (world u1) = on_server pres (world u)"
      "qd \<Longrightarrow> ?d \<in> set (pw_ready (fst (fst (snd (world u1)))))"
      using publish_effect by (metis prod.exhaust)
    show ?thesis
    proof (cases qd)
      case True
      from run' Inr pub(1) True have d: "u1 = t" "d = Reuse Succeeded" by simp_all
      from pub(3)[OF True] have "fresh \<in> pd_name ` set (pw_ready (fst (fst (snd (world t)))))"
        by (metis d(1) imageI prepared_database.select_convs(1))
      with d pub(2) others show ?thesis by (simp add: outcome_sound_def)
    next
      case False
      obtain y u2 where dr: "drop_database be c fresh u1 = (Return y, u2)"
        using drop_database_returns by (metis prod.exhaust)
      note eff = drop_database_effect[OF laws fresh(2) dr]
      obtain r3 u3 where fin: "pool_section finish_deletion u2 = (Return (Inr r3), u3)"
        using pool_section_returns[of finish_deletion u2] by blast
      note same = pool_section_ok[OF fin, of pres]
      from run' Inr pub(1) False dr fin have d: "u3 = t" "d = (case y of Inl e \<Rightarrow> Evict (ResidualPossible e) | Inr _ \<Rightarrow> Reuse Succeeded)"
        by (auto simp: io_try_def split: sum.splits)
      from eff same d pub(2) others show ?thesis
        by (cases y) (auto simp: outcome_sound_def)
    qed
  qed
qed

section \<open>The outcome of a cleanup\<close>

lemma only_created_requests:
  assumes "only_created be present n"
  shows "preserves (\<lambda>s. \<not> present (world s) n) (read_clock be)"
    "preserves (\<lambda>s. \<not> present (world s) n) (AdminClient_connect be url ct rt op)"
    "take 6 q \<noteq> ''CREATE'' \<Longrightarrow> preserves (\<lambda>s. \<not> present (world s) n) (batch_execute_with_timeout be c t op q)"
  using assms
  by (auto simp: preserves_def only_created_def read_clock_def AdminClient_connect_def batch_execute_with_timeout_def
      Let_def case_prod_beta split: connect_reply.splits)

text \<open>Setting up a session sends no \<open>CREATE\<close> statement.\<close>

lemma sessions_preserve:
  assumes clock: "preserves P (read_clock be)"
    and connect: "\<And>url ct rt op. preserves P (AdminClient_connect be url ct rt op)"
    and batch: "\<And>c t op q. take 6 q \<noteq> ''CREATE'' \<Longrightarrow> preserves P (batch_execute_with_timeout be c t op q)"
  shows "preserves P (connect_lifecycle be p op)" "preserves P (prepare_reused be p dl client)"
proof -
  have cfg: "preserves P (configure_lifecycle_session_with_timeout be c t a rt)" for c t a rt
    unfolding configure_lifecycle_session_with_timeout_def by (intro preserves_intros batch) simp
  have rem: "preserves P (checkout_remaining be dl)" for dl
    unfolding checkout_remaining_def deadline_remaining_def by (intro preserves_intros clock)
  show "preserves P (connect_lifecycle be p op)"
    unfolding connect_lifecycle_def prepare_new_lifecycle_session_def configure_lifecycle_session_def
    by (intro preserves_intros connect cfg)
  show "preserves P (prepare_reused be p dl client)"
    unfolding prepare_reused_def prepare_reused_lifecycle_session_def
    by (intro preserves_intros batch cfg rem) simp
qed

lemma only_created_sessions:
  assumes "only_created be present n"
  shows "preserves (\<lambda>s. \<not> present (world s) n) (connect_lifecycle be p op)"
    "preserves (\<lambda>s. \<not> present (world s) n) (prepare_reused be p dl client)"
  by (rule sessions_preserve; rule only_created_requests[OF assms]; assumption)+

lemma execute_with_disposition_ok:
  assumes "execute_with_disposition be op f p s = Some (Return (Inr v), p', t)"
  obtains ses q u client d where "checkout be op p s = Some (Return (Inr ses), q, u)"
    "f client u = (Return d, t)" "v = disposed d"
  using assms
  by (auto simp: execute_with_disposition_def Let_def
      split: option.splits prod.splits exec.splits sum.splits disposition.splits)

lemma cleanup_on_session_effect:
  assumes laws: "server_laws be (on_server pres)" and name: "wf_name name" "db_value name \<noteq> db_value fresh"
    and fresh: "DatabaseName_test (srv_project server) uuid = Return fresh" "wf_name fresh"
      "\<not> on_server pres (world s) (db_value fresh)"
    and run: "cleanup_on_session sem api be now server uuid name prewarm_return c s = (Return (Inr d), t)"
  shows "(may_leave_residual (disposed d) \<or> \<not> on_server pres (world t) (db_value name))
    \<and> outcome_sound pres fresh (disposed d) (world t)"
proof -
  obtain x u where dr: "drop_database be c name s = (Return x, u)" using drop_database_returns by (metis prod.exhaust)
  note eff = drop_database_effect[OF laws name(1) dr]
  have absent: "\<not> on_server pres (world u) (db_value fresh)" using eff(2) name(2) fresh(3) by metis
  note run' = run[unfolded cleanup_on_session_def bind_readings_try dr prod.case exec.case]
  show ?thesis
  proof (cases x)
    case (Inl e)
    with run' show ?thesis by (auto simp: outcome_sound_def)
  next
    case (Inr y)
    have gone: "\<not> on_server pres (world u) (db_value name)" using eff(1) Inr by simp
    show ?thesis
    proof (cases prewarm_return)
      case None
      with run' Inr gone absent show ?thesis by (auto simp: outcome_sound_def)
    next
      case (Some tpl)
      obtain refill u1 where sec: "pool_section refill_wanted u = (Return (Inr refill), u1)"
        using pool_section_returns[of refill_wanted u] by blast
      note same = pool_section_ok[OF sec, of pres]
      show ?thesis
      proof (cases refill)
        case False
        with run' Inr Some sec gone absent same show ?thesis by (auto simp: outcome_sound_def io_bind_def)
      next
        case True
        with run' Inr Some sec have "refill_database sem api be now server uuid tpl c u1 = (Return (Inr d), t)"
          by (simp add: io_bind_def)
        from refill_effect[OF laws fresh(1,2) _ this] absent gone same name(2) show ?thesis by simp
      qed
    qed
  qed
qed

lemma test_name_wf: "DatabaseName_test p uuid = Return n \<Longrightarrow> wf_name n"
  by (auto simp: DatabaseName_test_def ok_Some_iff DatabaseName_new_Inr_iff)

lemma lift_server_laws:
  assumes "server_laws be pres" shows "server_laws (lift_backend be) (\<lambda>x. pres (snd x))"
proof -
  have "create_law be pres" "drop_law be pres" "comment_law be pres" using assms by (simp_all add: server_laws_def)
  then have "create_law (lift_backend be) (\<lambda>x. pres (snd x))" "drop_law (lift_backend be) (\<lambda>x. pres (snd x))"
    "comment_law (lift_backend be) (\<lambda>x. pres (snd x))"
    unfolding create_law_def drop_law_def comment_law_def lift_backend_def lift_reply_def
    by (auto simp: case_prod_beta Let_def) (metis prod.collapse)+
  then show ?thesis by (simp add: server_laws_def)
qed

text \<open>C17: The outcome of a cleanup can be relied on. Let the server obey its statements and let the name of
  a replacement be new. When the cleanup of a leased database reports success, that database is gone,
  and a replacement created for its prewarm pool exists only if it is in the pool's ready queue. When
  it reports a failure without residue, neither database exists. Otherwise it reports that one may be
  left behind, which closes admission.\<close>

theorem cleanup_outcome_sound:
  assumes "server_laws be (on_server pres)" "wf_name name"
    and "DatabaseName_test (srv_project server) uuid = Return fresh" "db_value name \<noteq> db_value fresh"
    and "only_created be (on_server pres) (db_value fresh)" "\<not> on_server pres (world s) (db_value fresh)"
    and "database_cleanup_operation sem api be now server uuid name prewarm_return sessions s
      = Some (Return outcome, sessions', t)"
  shows "case outcome of
      Succeeded \<Rightarrow> \<not> pres (snd (snd (world t))) (db_value name)
        \<and> (pres (snd (snd (world t))) (db_value fresh) \<longrightarrow> fresh \<in> pd_name ` set (pw_ready (fst (fst (snd (world t))))))
    | NoResidual _ \<Rightarrow> \<not> pres (snd (snd (world t))) (db_value name) \<and> \<not> pres (snd (snd (world t))) (db_value fresh)
    | ResidualPossible _ \<Rightarrow> True"
proof (cases "may_leave_residual outcome")
  case True
  then show ?thesis by (cases outcome) auto
next
  case False
  let ?run = "execute_with_disposition be ''connect for disposable database cleanup''
      (\<lambda>client. disposition_run (cleanup_on_session sem api be now server uuid name prewarm_return client)) sessions s"
  from assms(7) obtain r where r: "?run = Some (r, sessions', t)"
    "Return outcome = (case r of Return (Inr out) \<Rightarrow> Return out | Return (Inl e) \<Rightarrow> Return (ResidualPossible e)
       | Panic m \<Rightarrow> Panic m)"
    by (auto simp: database_cleanup_operation_def)
  with False have "?run = Some (Return (Inr outcome), sessions', t)"
    by (auto split: exec.splits sum.splits)
  then obtain ses q u client d where co: "checkout be ''connect for disposable database cleanup'' sessions s
      = Some (Return (Inr ses), q, u)" and body: "disposition_run (cleanup_on_session sem api be now server uuid name
        prewarm_return client) u = (Return d, t)" and out: "outcome = disposed d"
    by (rule execute_with_disposition_ok)
  have absent: "\<not> on_server pres (world u) (db_value fresh)"
    by (rule checkout_preserves[where P = "\<lambda>s. \<not> on_server pres (world s) (db_value fresh)",
          OF only_created_requests(1)[OF assms(5)] only_created_sessions[OF assms(5)] co assms(6)])
  from body False out have "cleanup_on_session sem api be now server uuid name prewarm_return client u
      = (Return (Inr d), t)" by (auto simp: disposition_run_def split: prod.splits exec.splits sum.splits)
  from cleanup_on_session_effect[OF assms(1,2,4,3) test_name_wf[OF assms(3)] absent this]
  have "\<not> on_server pres (world t) (db_value name)" "outcome_sound pres fresh outcome (world t)"
    using False unfolding out by blast+
  with False show ?thesis by (cases outcome) (auto simp: outcome_sound_def on_server_def)
qed

text \<open>The little server with a gate and a prewarm pool beside it.\<close>

definition pooled_server :: "((nat \<times> bool) \<times> ((nat \<times> bool) prewarm_pool \<times> return_phase) \<times> string list) backend" where
  "pooled_server = lift_backend (lift_backend mini_server)"

definition pooled_start :: "((nat \<times> bool) \<times> ((nat \<times> bool) prewarm_pool \<times> return_phase) \<times> string list) io_state" where
  "pooled_start = \<lparr>world = ((1, False), (PrewarmPool_new counting_semaphore 1, Complete), [db_value mini_name]), trace = []\<rparr>"

lemma pooled_server_laws: "server_laws pooled_server (on_server (\<lambda>w n. n \<in> set w))"
  using lift_server_laws[OF lift_server_laws[OF mini_server_laws]]
  unfolding pooled_server_def on_server_def .

lemma pooled_only_created: "only_created pooled_server (on_server (\<lambda>w n. n \<in> set w)) n"
proof -
  have "n \<notin> set (snd (mini_batch q w))" if "take 6 q \<noteq> ''CREATE''" "n \<notin> set w" for q w
  proof -
    have "strip_prefix (''CREATE DATABASE '' @ [CHR 0x22]) q = None"
      using that(1) by (cases "strip_prefix (''CREATE DATABASE '' @ [CHR 0x22]) q") (auto simp: strip_prefix_Some_iff)
    with that(2) show ?thesis by (auto simp: mini_batch_def split: option.split)
  qed
  then show ?thesis
    by (auto simp: only_created_def pooled_server_def on_server_def lift_backend_def lift_reply_def mini_server_def
        case_prod_beta Let_def)
qed

theorem cleanup_outcome_sound_witness:
  "\<exists>sessions' t. database_cleanup_operation counting_semaphore demo_url_api pooled_server 0 demo_server ''0'' mini_name None
       demo_pool pooled_start = Some (Return Succeeded, sessions', t)
     \<and> ''pgh_a_test_1'' \<notin> set (snd (snd (world t)))"
proof -
  have sql: "mini_batch (''SET '' @ q) w = (Replied (), w)" for q w
    by (simp add: mini_batch_def strip_prefix.simps)
  have fresh: "DatabaseName_test (srv_project demo_server) ''0'' = Return \<lparr>db_value = ''pgh_a_test_0'', db_kind = Test\<rparr>"
    by (simp add: DatabaseName_test_def DatabaseName_new_def demo_server_def test_prefix_def identifier_char_def std_defs IDENTIFIER_MAX_LEN_def)
  let ?c = "\<lparr>client_session = 1, request_timeout = client_operation_timeout (from_secs 1)\<rparr>"
  obtain u where co: "checkout pooled_server ''connect for disposable database cleanup'' demo_pool pooled_start =
      Some (Return (Inr (fresh_session (PersistentClient_new ?c))), demo_pool\<lparr>sp_total := 1\<rparr>, u)"
    using sql
    by (auto simp: checkout_def Deadline_new_def read_clock_def io_bind_def checkout_loop.simps acquire_now_def
        acquire_checkout_def connect_lifecycle_def admin_defs AdminClient_connect_def request_defs
        pooled_server_def lift_backend_def lift_reply_def mini_server_def demo_pool_def AdminSessionPool_new_def
        duration_millis_def run_admin_operation_def u64_max_def std_defs LOCK_TIMEOUT_def)
  obtain v where "drop_database pooled_server ?c mini_name u = (Return (Inr ()), v)"
    by (auto simp: drop_database_def request_defs pooled_server_def lift_backend_def lift_reply_def mini_server_def
        mini_statements[OF mini_wf_name] run_admin_operation_def case_prod_beta)
  then have "disposition_run (cleanup_on_session counting_semaphore demo_url_api pooled_server 0 demo_server ''0'' mini_name
      None ?c) u = (Return (Reuse Succeeded), v)"
    by (simp add: disposition_run_def cleanup_on_session_def bind_readings_try)
  with co obtain sessions' where run: "database_cleanup_operation counting_semaphore demo_url_api pooled_server 0 demo_server
      ''0'' mini_name None demo_pool pooled_start = Some (Return Succeeded, sessions', v)"
    by (simp add: database_cleanup_operation_def execute_with_disposition_def fresh_session_def PersistentClient_new_def
        session_client_mut_def persistent_client_mut_def session_drop_def release_slot_def demo_pool_def AdminSessionPool_new_def)
  from cleanup_outcome_sound[OF pooled_server_laws mini_wf_name fresh _ pooled_only_created _ run]
  have "db_value mini_name \<notin> set (snd (snd (world v)))"
    by (simp add: mini_name_def pooled_start_def on_server_def)
  with run show ?thesis by (simp add: mini_name_def)
qed

end
