(* ===== verification/Pool_Properties.thy ===== *)
theory Pool_Properties
  imports Lease_Properties
begin

text \<open>
  Properties of a prewarm pool as its callers see it: what a lease takes from the pool and from the
  connection budget, what a refused caller gives back, and what filling a pool leaves behind when it
  succeeds and when it fails.
\<close>

section \<open>Leasing a prepared database\<close>

text \<open>C30: A lease from a prewarm pool is exact. A caller that receives one has taken the oldest ready
  database, one ready token and the permits of one database; the slot moves from ready to leased, so
  that the number of occupied slots is unchanged. A caller that is refused has given back its token and
  its permits and changed nothing. The call never panics.\<close>

theorem prewarmed_lease_exact:
  assumes "semaphore_laws sem" "pool_database sem server pool (gate, p) = Some (r, gate', p')"
  shows "case r of
      Return (Inr lease) \<Rightarrow> \<exists>d rest permit. pw_ready p = d # rest \<and> pw_ready p' = rest \<and> pw_leased p' = pw_leased p + 1
        \<and> occupied_slots p' = occupied_slots p
        \<and> permit = connections_per_database (srv_connection_limits server)
        \<and> le_inner lease = Some \<lparr>li_name = pd_name d, li_permit = permit, li_prewarm_pool = Some pool\<rparr>
        \<and> le_database_url lease = pd_database_url d
        \<and> sem_available sem gate = sem_available sem gate' + permit
        \<and> sem_available sem (pw_ready_admission p) = sem_available sem (pw_ready_admission p') + 1
    | Return (Inl e) \<Rightarrow> e \<in> {PrewarmPoolClosed, ConnectionBudgetClosed} \<and> pool_status p' = pool_status p \<and> pw_ready p' = pw_ready p
        \<and> sem_available sem gate' = sem_available sem gate
        \<and> sem_available sem (pw_ready_admission p') = sem_available sem (pw_ready_admission p)
    | Panic m \<Rightarrow> False"
proof (cases "sem_acquire sem 1 (pw_ready_admission p)")
  case (Acquired token)
  let ?p1 = "p\<lparr>pw_ready_admission := token\<rparr>"
  note add = semaphore_lawsD(5,6)[OF assms(1)]
  have tok: "sem_available sem (pw_ready_admission p) = sem_available sem token + 1"
    using semaphore_lawsD(3)[OF assms(1) Acquired] by simp
  obtain x gate1 where acq: "acquire_database_permit_or_pool_close sem server gate (pw_closed p) = Some (x, gate1)"
    using assms(2) Acquired by (auto simp: pool_database_def Let_def split: option.splits)
  show ?thesis
  proof (cases x)
    case (Inl e)
    then have "gate1 = gate \<and> e \<in> {PrewarmPoolClosed, ConnectionBudgetClosed}" using acq
      by (auto simp: acquire_database_permit_or_pool_close_def acquire_database_permit_def admission_acquire_def
          split: acquire_poll.splits)
    with assms(2) Acquired tok acq Inl show ?thesis
      by (auto simp: pool_database_def add_ready_token_def pool_status_def add)
  next
    case (Inr permit)
    then have permit: "permit = connections_per_database (srv_connection_limits server)"
        "sem_acquire sem permit gate = Acquired gate1" using acq
      by (auto simp: acquire_database_permit_or_pool_close_def acquire_database_permit_def admission_acquire_def
          split: acquire_poll.splits)
    have cost: "sem_available sem gate = sem_available sem gate1 + permit"
      using semaphore_lawsD(3)[OF assms(1) permit(2)] by simp
    obtain d p2 where take: "take_ready ?p1 = (d, p2)" by fastforce
    show ?thesis
    proof (cases d)
      case None
      with take have "p2 = ?p1" by (auto simp: take_ready_def split: if_splits list.splits)
      with assms(2) Acquired tok acq Inr cost take None show ?thesis
        by (auto simp: pool_database_def add_ready_token_def pool_status_def add)
    next
      case (Some prepared)
      with take obtain rest where "pw_ready p = prepared # rest"
        "p2 = ?p1\<lparr>pw_ready := rest, pw_leased := pw_leased p + 1\<rparr>"
        by (auto simp: take_ready_def split: if_splits list.splits)
      with assms(2) Acquired tok acq Inr cost take Some permit(1) show ?thesis
        by (auto simp: pool_database_def into_lease_def occupied_slots_def)
    qed
  qed
qed (use assms in \<open>auto simp: pool_database_def\<close>)

theorem prewarmed_lease_exact_witness:
  "\<exists>lease gate' p'. pool_database counting_semaphore demo_server 7
       ((2, False), (PrewarmPool_new counting_semaphore 1)\<lparr>pw_ready := [\<lparr>pd_name = mini_name, pd_database_url = ''u''\<rparr>],
          pw_ready_admission := (1, False)\<rparr>) = Some (Return (Inr lease), gate', p')
     \<and> le_inner lease = Some \<lparr>li_name = mini_name, li_permit = 1, li_prewarm_pool = Some 7\<rparr> \<and> fst gate' = 1"
proof -
  let ?p = "(PrewarmPool_new counting_semaphore 1)\<lparr>pw_ready := [\<lparr>pd_name = mini_name, pd_database_url = ''u''\<rparr>],
    pw_ready_admission := (1, False)\<rparr>"
  obtain lease gate' p' where run: "pool_database counting_semaphore demo_server 7 ((2, False), ?p)
      = Some (Return (Inr lease), gate', p')"
    by (simp add: pool_database_def counting_semaphore_def PrewarmPool_new_def acquire_database_permit_or_pool_close_def
        acquire_database_permit_def admission_acquire_def demo_server_def take_ready_def into_lease_def)
  from prewarmed_lease_exact[OF counting_semaphore_laws run] have "le_inner lease
      = Some \<lparr>li_name = mini_name, li_permit = 1, li_prewarm_pool = Some 7\<rparr>" "fst gate' = 1"
    by (auto simp: demo_server_def counting_semaphore_def)
  with run show ?thesis by blast
qed

section \<open>Filling a pool\<close>

lemma queue_counted_keeps:
  assumes "queue_counted_prepared_database sem d (q, p) = (q', p')"
  shows "pw_ready p' = pw_ready p" "pw_leased p' = pw_leased p" "pw_creating p' = pw_creating p"
    "pw_accepting p' = pw_accepting p" "pw_cleanup_started p' = pw_cleanup_started p"
    "pw_ready_admission p' = pw_ready_admission p" "pw_closed p' = pw_closed p"
  using assms
  by (auto simp: queue_counted_prepared_database_def deletion_finish_def
      split: option.splits prod.splits exec.splits sum.splits)

lemma queue_all_keeps:
  assumes "fold (queue_counted_prepared_database sem) ds (q, p) = (q', p')"
  shows "pw_ready p' = pw_ready p" "pw_leased p' = pw_leased p" "pw_creating p' = pw_creating p"
    "pw_accepting p' = pw_accepting p" "pw_cleanup_started p' = pw_cleanup_started p"
    "pw_ready_admission p' = pw_ready_admission p" "pw_closed p' = pw_closed p"
proof -
  have "pw_ready p' = pw_ready p \<and> pw_leased p' = pw_leased p \<and> pw_creating p' = pw_creating p
    \<and> pw_accepting p' = pw_accepting p \<and> pw_cleanup_started p' = pw_cleanup_started p
    \<and> pw_ready_admission p' = pw_ready_admission p \<and> pw_closed p' = pw_closed p"
    using assms
  proof (induction ds arbitrary: q p)
    case (Cons d ds)
    obtain q1 p1 where "queue_counted_prepared_database sem d (q, p) = (q1, p1)" by fastforce
    with Cons.IH[of q1 p1] Cons.prems queue_counted_keeps[OF this] show ?case by simp
  qed simp
  then show "pw_ready p' = pw_ready p" "pw_leased p' = pw_leased p" "pw_creating p' = pw_creating p"
    "pw_accepting p' = pw_accepting p" "pw_cleanup_started p' = pw_cleanup_started p"
    "pw_ready_admission p' = pw_ready_admission p" "pw_closed p' = pw_closed p" by simp_all
qed

text \<open>A pool that was shut: nothing is ready, nothing is accepted, and waiting callers are woken.\<close>

definition shut :: "'s semaphore \<Rightarrow> 's prewarm_pool \<Rightarrow> bool" where
  "shut sem p \<longleftrightarrow> pw_ready p = [] \<and> \<not> pw_accepting p \<and> pw_cleanup_started p
     \<and> sem_is_closed sem (pw_ready_admission p) \<and> sem_is_closed sem (pw_closed p)"

lemma finish_close_shuts:
  assumes "semaphore_laws sem" "pw_ready p = []" "\<not> pw_accepting p" "pw_cleanup_started p"
    and "finish_close sem ready (q, p) = (q', p')"
  shows "shut sem p' \<and> pw_leased p' = pw_leased p \<and> pw_creating p' = pw_creating p"
proof (cases ready)
  case None
  with assms show ?thesis by (auto simp: finish_close_def close_semaphores_def shut_def semaphore_lawsD)
next
  case (Some ds)
  with assms(5) have "fold (queue_counted_prepared_database sem) ds (q, close_semaphores sem p) = (q', p')"
    by (simp add: finish_close_def)
  from queue_all_keeps[OF this] assms(1-4) show ?thesis
    by (simp add: shut_def close_semaphores_def semaphore_lawsD)
qed

lemma begin_cleanup_stops:
  assumes "begin_cleanup p = (ready, p')" "pw_cleanup_started p \<Longrightarrow> pw_ready p = []"
  shows "pw_ready p' = []" "\<not> pw_accepting p'" "pw_cleanup_started p'" "pw_leased p' = pw_leased p"
    "pw_creating p' = pw_creating p"
  using assms by (auto simp: begin_cleanup_def Let_def split: if_splits)

lemma fail_phase_shuts:
  assumes "semaphore_laws sem" "\<not> pw_cleanup_started p" "fail_phase sem Creating (q, p) = (q', p')"
  shows "shut sem p' \<and> pw_leased p' = pw_leased p \<and> pw_creating p' = pw_creating p - 1"
proof -
  let ?p1 = "p\<lparr>pw_creating := pw_creating p - 1\<rparr>"
  obtain ready p2 where b: "begin_cleanup ?p1 = (ready, p2)" by fastforce
  note stop = begin_cleanup_stops[OF b]
  have "pw_ready p2 = []" "\<not> pw_accepting p2" "pw_cleanup_started p2" "pw_leased p2 = pw_leased p"
    "pw_creating p2 = pw_creating p - 1" using stop assms(2) by simp_all
  moreover have "finish_close sem ready (q, p2) = (q', p')"
    using assms(3) b by (simp add: fail_phase_def fail_and_begin_cleanup_def)
  ultimately show ?thesis using finish_close_shuts[OF assms(1)] by metis
qed

lemma close_again_shuts:
  assumes "semaphore_laws sem" "shut sem p" "close_and_queue_ready sem (q, p) = (q', p')"
  shows "shut sem p' \<and> pw_leased p' = pw_leased p \<and> pw_creating p' = pw_creating p"
proof -
  obtain ready p2 where b: "begin_cleanup p = (ready, p2)" by fastforce
  note stop = begin_cleanup_stops[OF b]
  have "pw_ready p2 = []" "\<not> pw_accepting p2" "pw_cleanup_started p2" "pw_leased p2 = pw_leased p"
    "pw_creating p2 = pw_creating p" using stop assms(2) by (simp_all add: shut_def)
  moreover have "finish_close sem ready (q, p2) = (q', p')"
    using assms(3) b by (simp add: close_and_queue_ready_def)
  ultimately show ?thesis using finish_close_shuts[OF assms(1)] by metis
qed

text \<open>A pool that is being filled, with \<open>k\<close> databases to go.\<close>

definition filling :: "'s semaphore \<Rightarrow> nat \<Rightarrow> 's prewarm_pool \<Rightarrow> bool" where
  "filling sem k p \<longleftrightarrow> pw_accepting p \<and> \<not> pw_cleanup_started p \<and> pw_leased p = 0 \<and> pw_creating p = 0 \<and> pw_deleting p = 0
     \<and> length (pw_ready p) + k = pw_capacity p \<and> sem_available sem (pw_ready_admission p) = length (pw_ready p)
     \<and> \<not> sem_is_closed sem (pw_ready_admission p)"

lemma filling_step:
  assumes "semaphore_laws sem" "filling sem (Suc k) p"
  shows "begin_creation p = (Inr (), p\<lparr>pw_creating := 1\<rparr>)"
    and "\<exists>p'. creation_publish sem d (q, p\<lparr>pw_creating := 1\<rparr>) = (q, p') \<and> filling sem k p' \<and> pw_ready p' = pw_ready p @ [d]
      \<and> pw_capacity p' = pw_capacity p"
  using assms
  by (auto simp: filling_def begin_creation_def occupied_slots_def creation_publish_def finish_creation_def
      add_ready_token_def semaphore_lawsD)

lemma create_unpublished_name:
  "create_unpublished_database sem api be now server uuid source sessions s = Some (Inr d, sessions', t) \<Longrightarrow>
    DatabaseName_test (srv_project server) uuid = Return (pd_name d)"
  by (auto simp: create_unpublished_database_def split: exec.splits sum.splits) (metis sum.exhaust old.unit.exhaust)

lemma prewarm_loop_effect:
  assumes laws: "semaphore_laws sem"
    and "filling sem k p" "prewarm_loop k uuids sem api be now server template sessions s (q, p) = Some (r, sessions', t, q', p')"
  shows "case r of
      Inr _ \<Rightarrow> filling sem 0 p' \<and> pw_capacity p' = pw_capacity p
        \<and> map (\<lambda>d. Return (pd_name d)) (pw_ready p') = map (\<lambda>d. Return (pd_name d)) (pw_ready p)
            @ map (\<lambda>i. DatabaseName_test (srv_project server) (uuids i)) (rev [0..<k])
    | Inl _ \<Rightarrow> shut sem p' \<and> pw_leased p' = 0 \<and> pw_creating p' = 0"
  using assms(2,3)
proof (induction k arbitrary: sessions s q p)
  case (Suc k)
  let ?p1 = "p\<lparr>pw_creating := 1\<rparr>"
  note bc = filling_step(1)[OF laws Suc.prems(1)]
  obtain x ses1 s1 where cr: "create_unpublished_database sem api be now server (uuids k) (Template_source template) sessions s
      = Some (x, ses1, s1)"
    using Suc.prems(2) bc by (auto split: option.splits)
  show ?case
  proof (cases x)
    case (Inl e)
    with Suc.prems(2) bc cr have "r = Inl e" "fail_phase sem Creating (share_gate q s1, ?p1) = (q', p')" by auto
    with fail_phase_shuts[OF laws _ this(2)] Suc.prems(1) show ?thesis by (simp add: filling_def)
  next
    case (Inr d)
    obtain p2 where pub: "creation_publish sem d (share_gate q s1, ?p1) = (share_gate q s1, p2)" "filling sem k p2"
      "pw_ready p2 = pw_ready p @ [d]" "pw_capacity p2 = pw_capacity p"
      using filling_step(2)[OF laws Suc.prems(1)] by blast
    from Suc.prems(2) bc cr Inr pub(1) have
      "prewarm_loop k uuids sem api be now server template ses1 s1 (share_gate q s1, p2) = Some (r, sessions', t, q', p')"
      by simp
    from Suc.IH[OF pub(2) this] pub(3,4) create_unpublished_name[OF cr[unfolded Inr]] show ?thesis
      by (auto split: sum.splits)
  qed
qed auto

text \<open>C29: Filling a prewarm pool is all or nothing. If it succeeds, the pool accepts callers and holds exactly
  as many ready databases as requested, with the generated names in the order of their creation, a
  token for each and no other slot in use. If it fails after the pool was registered, the pool is shut:
  nothing is ready or being created, and callers waiting for a token are woken. The capacity was
  positive and within the lease limit in both cases.\<close>

theorem prewarm_fills_or_shuts:
  assumes "semaphore_laws sem"
    and "prewarm capacity uuids sem api be now server template alive n pools sessions s q
      = Some (r, pools', sessions', t, q', Some pool)"
  shows "0 < capacity \<and> capacity \<le> max_simultaneous_leases (srv_connection_limits server) \<and> n \<in> set pools'
    \<and> (case r of
      Inr _ \<Rightarrow> pool_status pool = \<lparr>st_capacity = capacity, st_ready = capacity, st_leased = 0, st_creating = 0, st_deleting = 0,
            st_closed = False\<rparr>
        \<and> sem_available sem (pw_ready_admission pool) = capacity \<and> \<not> sem_is_closed sem (pw_ready_admission pool)
        \<and> map (\<lambda>d. Return (pd_name d)) (pw_ready pool)
            = map (\<lambda>i. DatabaseName_test (srv_project server) (uuids i)) (rev [0..<capacity])
    | Inl _ \<Rightarrow> pw_ready pool = [] \<and> pw_leased pool = 0 \<and> pw_creating pool = 0 \<and> \<not> pw_accepting pool
        \<and> sem_is_closed sem (pw_ready_admission pool) \<and> sem_is_closed sem (pw_closed pool))"
proof -
  have start: "filling sem capacity (PrewarmPool_new sem capacity)"
    using assms(1) by (simp add: filling_def PrewarmPool_new_def semaphore_lawsD)
  from assms(2) have cap: "0 < capacity" "capacity \<le> max_simultaneous_leases (srv_connection_limits server)"
    and reg: "register_prewarm_pool sem alive (q_admission q) n pools = (Inr (), pools')"
    by (auto simp: prewarm_def prewarm_capacity_check_def register_prewarm_pool_def
        case_prod_beta Let_def split: if_splits)
  from assms(2) cap reg obtain q1 p1 where loop: "prewarm_loop capacity uuids sem api be now server template sessions s
      (q, PrewarmPool_new sem capacity) = Some (r, sessions', t, q1, p1)"
    and last: "(q', pool) = (case r of Inr _ \<Rightarrow> (q1, p1) | Inl _ \<Rightarrow> close_and_queue_ready sem (q1, p1))"
    by (cases r) (auto simp: prewarm_def prewarm_capacity_check_def pool_drop_def case_prod_beta Let_def)
  note eff = prewarm_loop_effect[OF assms(1) start loop]
  have "n \<in> set pools'" using reg by (auto simp: register_prewarm_pool_def split: if_splits)
  show ?thesis
  proof (cases r)
    case (Inl e)
    with last have "close_and_queue_ready sem (q1, p1) = (q', pool)" by simp
    from close_again_shuts[OF assms(1) _ this] eff Inl cap \<open>n \<in> set pools'\<close> show ?thesis by (simp add: shut_def)
  next
    case (Inr u)
    with eff last cap \<open>n \<in> set pools'\<close> show ?thesis
      by (simp add: filling_def pool_status_def PrewarmPool_new_def)
  qed
qed

text \<open>A queue and a server that always succeed, and a pool of one.\<close>

definition demo_queue :: "(nat \<times> bool) cleanup_queue" where
  "demo_queue = new_queue 1 (2, False)"

lemma demo_unpublished:
  "\<exists>d t. create_unpublished_database counting_semaphore demo_url_api (agreeable (\<lambda>_. []) (\<lambda>_. None)) 0 demo_server ''0''
      (Template_source demo_template_name) demo_pool demo_io = Some (Inr d, demo_pool\<lparr>sp_total := 1,
        sp_idle := [PersistentClient_new \<lparr>client_session = 1, request_timeout = client_operation_timeout (from_secs 1)\<rparr>]\<rparr>, t)
    \<and> pd_name d = \<lparr>db_value = ''pgh_a_test_0'', db_kind = Test\<rparr>"
proof -
  let ?be = "agreeable (\<lambda>_. []) (\<lambda>_. None) :: ((nat \<times> bool) \<times> unit) backend"
  let ?c = "\<lparr>client_session = 1, request_timeout = client_operation_timeout (from_secs 1)\<rparr>"
  let ?n = "\<lparr>db_value = ''pgh_a_test_0'', db_kind = Test\<rparr>"
  have name: "DatabaseName_test (srv_project demo_server) ''0'' = Return ?n"
    by (simp add: DatabaseName_test_def DatabaseName_new_def demo_server_def test_prefix_def identifier_char_def std_defs
        IDENTIFIER_MAX_LEN_def)
  obtain u where co: "checkout ?be ''connect for prewarmed database creation'' demo_pool demo_io =
      Some (Return (Inr (fresh_session (PersistentClient_new ?c))), demo_pool\<lparr>sp_total := 1\<rparr>, u)" "world u = world demo_io"
    by (auto simp: checkout_def Deadline_new_def read_clock_def io_bind_def checkout_loop.simps acquire_now_def
        acquire_checkout_def connect_lifecycle_def admin_defs AdminClient_connect_def request_defs
        agreeable_def demo_pool_def AdminSessionPool_new_def duration_millis_def run_admin_operation_def
        u64_max_def std_defs LOCK_TIMEOUT_def)
  have ident: "quote_identifier (db_value demo_template_name) = Inr (''\"'' @ db_value demo_template_name @ ''\"'')"
    by (simp add: demo_template_name_def quote_identifier_def identifier_char_def std_defs)
  have sem: "\<not> sem_is_closed counting_semaphore (2, False)" by (simp add: counting_semaphore_def)
  have gate: "fst (world u) = (2, False)" by (simp add: co(2) demo_io_def)
  obtain v where "create_managed_database_classified counting_semaphore ?be ?c ?n (db_value demo_template_name)
      (ResourceMetadata_test 0 (srv_project demo_server) (srv_owner_key demo_server)) u = (Return (Inr (Inr ())), v)"
    using yields_creation[OF sem ident gate] by blast
  then have "create_on_session counting_semaphore ?be 0 demo_server (Template_source demo_template_name) ?n ?c u
      = (Return (Inr ()), v)"
    by (simp add: create_on_session_def io_bind_def)
  with co(1) name show ?thesis
    by (simp add: create_unpublished_database_def execute_def execute_with_disposition_def fresh_session_def
        PersistentClient_new_def session_client_mut_def persistent_client_mut_def session_drop_def disposition_of_def
        demo_pool_def AdminSessionPool_new_def)
qed

theorem prewarm_fills_or_shuts_witness:
  "\<exists>pools' sessions' t q' pool. prewarm 1 (\<lambda>_. ''0'') counting_semaphore demo_url_api (agreeable (\<lambda>_. []) (\<lambda>_. None)) 0
       demo_server demo_template_name (\<lambda>_. True) 7 [] demo_pool demo_io demo_queue
     = Some (Inr (), pools', sessions', t, q', Some pool)
     \<and> map (db_value \<circ> pd_name) (pw_ready pool) = [''pgh_a_test_0'']"
proof -
  let ?be = "agreeable (\<lambda>_. []) (\<lambda>_. None) :: ((nat \<times> bool) \<times> unit) backend"
  obtain d ses t where d: "create_unpublished_database counting_semaphore demo_url_api ?be 0 demo_server ''0''
      (Template_source demo_template_name) demo_pool demo_io = Some (Inr d, ses, t)"
    "pd_name d = \<lparr>db_value = ''pgh_a_test_0'', db_kind = Test\<rparr>"
    using demo_unpublished by blast
  obtain pools' q' pool where run: "prewarm 1 (\<lambda>_. ''0'') counting_semaphore demo_url_api ?be 0 demo_server demo_template_name
      (\<lambda>_. True) 7 [] demo_pool demo_io demo_queue = Some (Inr (), pools', ses, t, q', Some pool)"
    using d(1)
    by (simp add: prewarm_def prewarm_capacity_check_def demo_server_def max_simultaneous_leases_def register_prewarm_pool_def
        admission_is_closed_def demo_queue_def new_queue_def counting_semaphore_def begin_creation_def PrewarmPool_new_def
        occupied_slots_def creation_publish_def finish_creation_def split_beta)
  from prewarm_fills_or_shuts[OF counting_semaphore_laws run] create_unpublished_name[OF d(1)]
  have "map (\<lambda>d. Return (pd_name d)) (pw_ready pool) = [Return (pd_name d)]" by simp
  with run d(2) show ?thesis by auto
qed

end
