(* ===== verification/Lease_System.thy ===== *)
theory Lease_System
  imports Leases Demo_Server
begin

text \<open>
  Leases and the cleanup queue together. A state holds, next to the cleanup system, the permits of the
  calls that are creating a database, the live leases and the prewarm pools; a step is one critical
  section of a public operation on leases, or of any other thread. Every step is a run of the cleanup
  system, so what holds of its reachable states holds here too, with the permits that it calls held
  being exactly those of the calls and of the live leases.
\<close>

section \<open>The system\<close>

record 's lease_system =
  lz_system :: "'s cleanup_system"
  lz_calls :: "nat list"
  lz_leases :: "database_lease list"
  lz_pools :: "nat \<rightharpoonup> 's prewarm_pool"

definition lease_pool :: "(nat \<rightharpoonup> 's prewarm_pool) \<Rightarrow> database_lease \<Rightarrow> 's prewarm_pool option" where
  "lease_pool pools lease = Option.bind (Option.bind (le_inner lease) li_prewarm_pool) pools"

definition put_pool ::
  "database_lease \<Rightarrow> 's prewarm_pool option \<Rightarrow> (nat \<rightharpoonup> 's prewarm_pool) \<Rightarrow> nat \<rightharpoonup> 's prewarm_pool" where
  "put_pool lease pool pools =
     (case (Option.bind (le_inner lease) li_prewarm_pool, pool) of
        (Some n, Some p) \<Rightarrow> pools(n \<mapsto> p) | _ \<Rightarrow> pools)"

definition lease_permit :: "database_lease \<Rightarrow> nat" where
  "lease_permit lease = (case le_inner lease of None \<Rightarrow> 0 | Some inner \<Rightarrow> li_permit inner)"

text \<open>The cleanup system after a lease handed its permit and its database to the queue.\<close>

definition handed_over :: "nat \<Rightarrow> 's cleanup_queue \<Rightarrow> nat list \<Rightarrow> 's cleanup_system \<Rightarrow> 's cleanup_system" where
  "handed_over permit q bypassed y =
     y\<lparr>sys_queue := q, sys_held := remove1 permit (sys_held y), sys_bypass := bypassed @ sys_bypass y\<rparr>"

inductive lease_step :: "'s semaphore \<Rightarrow> 's lease_system \<Rightarrow> 's lease_system \<Rightarrow> bool" for sem :: "'s semaphore" where
  background: "cleanup_step sem (lz_system s) y \<Longrightarrow> sys_held y = sys_held (lz_system s) \<Longrightarrow>
    lease_step sem s (s\<lparr>lz_system := y\<rparr>)"
| other_pool: "lz_pools s n = Some pool \<Longrightarrow> pool_change sem pool pool' \<Longrightarrow>
    lease_step sem s (s\<lparr>lz_pools := (lz_pools s)(n \<mapsto> pool')\<rparr>)"
| begin_call: "admission_acquire sem per_database (q_admission (sys_queue (lz_system s))) = Some (Inr permit, gate) \<Longrightarrow>
    lease_step sem s (s\<lparr>lz_calls := permit # lz_calls s,
      lz_system := (lz_system s)\<lparr>sys_queue := (sys_queue (lz_system s))\<lparr>q_admission := gate\<rparr>,
        sys_held := permit # sys_held (lz_system s)\<rparr>\<rparr>)"
| created: "lz_calls s = c1 @ permit # c2 \<Longrightarrow>
    lease_step sem s (s\<lparr>lz_calls := c1 @ c2,
      lz_leases := \<lparr>le_inner = Some \<lparr>li_name = name, li_permit = permit, li_prewarm_pool = None\<rparr>, le_database_url = url\<rparr>
        # lz_leases s\<rparr>)"
| take_prepared: "lz_calls s = c1 @ permit # c2 \<Longrightarrow> lz_pools s n = Some pool \<Longrightarrow> take_ready pool = (Some prepared, pool') \<Longrightarrow>
    into_lease True n permit prepared = Return lease \<Longrightarrow>
    lease_step sem s (s\<lparr>lz_calls := c1 @ c2, lz_leases := lease # lz_leases s, lz_pools := (lz_pools s)(n \<mapsto> pool')\<rparr>)"
| give_up: "lz_calls s = c1 @ permit # c2 \<Longrightarrow>
    lease_step sem s (s\<lparr>lz_calls := c1 @ c2,
      lz_system := handed_over permit (drop_permit sem (Some permit) (sys_queue (lz_system s))) [] (lz_system s)\<rparr>)"
| cleanup: "lz_leases s = l1 @ lease # l2 \<Longrightarrow>
    cleanup_submitted sem lease (lease_pool (lz_pools s) lease) (sys_queue (lz_system s)) = Some (r, consumed, q, pool) \<Longrightarrow>
    lease_step sem s (s\<lparr>lz_leases := l1 @ l2, lz_pools := put_pool lease pool (lz_pools s),
      lz_system := handed_over (lease_permit lease) q [] (lz_system s)\<rparr>)"
| return_later: "lz_leases s = l1 @ lease # l2 \<Longrightarrow>
    defer_cleanup sem lease (lease_pool (lz_pools s) lease) (sys_queue (lz_system s)) = Some (r, consumed, q, pool) \<Longrightarrow>
    lease_step sem s (s\<lparr>lz_leases := l1 @ l2, lz_pools := put_pool lease pool (lz_pools s),
      lz_system := handed_over (lease_permit lease) q [] (lz_system s)\<rparr>)"
| drop_lease: "lz_leases s = l1 @ lease # l2 \<Longrightarrow>
    lease_drop sem lease (lease_pool (lz_pools s) lease) (sys_queue (lz_system s)) = Some (q, pool) \<Longrightarrow>
    lease_step sem s (s\<lparr>lz_leases := l1 @ l2, lz_pools := put_pool lease pool (lz_pools s),
      lz_system := handed_over (lease_permit lease) q (issued (sys_queue (lz_system s)) q) (lz_system s)\<rparr>)"

inductive_cases lease_stepE: "lease_step sem s t"

lemmas lease_step_cases = lease_stepE [consumes 1, case_names background other_pool begin_call created take_prepared
  give_up cleanup return_later drop_lease]

definition lease_start :: "'s semaphore \<Rightarrow> nat \<Rightarrow> nat \<Rightarrow> 's lease_system \<Rightarrow> bool" where
  "lease_start sem budget bound s \<longleftrightarrow>
     s = \<lparr>lz_system = initial_system sem budget bound, lz_calls = [], lz_leases = [], lz_pools = Map.empty\<rparr>"

section \<open>Rejected submissions\<close>

text \<open>
  A queue that rejects a submission rejects all later ones, so dropping the return guard of a rejected
  cleanup, which closes its pool and submits every idle database, leaves the queue as it is.
\<close>

definition rejecting :: "'s cleanup_queue \<Rightarrow> bool" where
  "rejecting q \<longleftrightarrow> q_closed q \<or> checked_add_u64 (q_next_sequence q) 1 = None"

lemma enqueue_rejected:
  "enqueue sem name completion permit admission q = Some (r, q') \<Longrightarrow> r \<noteq> Return (Inr ()) \<Longrightarrow> rejecting q'"
  by (auto simp: enqueue_def rejecting_def split: if_splits option.splits)

lemma rejecting_drop_permit [simp]: "rejecting (drop_permit sem permit q) = rejecting q"
  by (simp add: rejecting_def)

lemma queue_counted_rejected: "rejecting q \<Longrightarrow> fst (queue_counted_prepared_database sem d (q, p)) = q"
  by (auto simp: queue_counted_prepared_database_def submit_prewarmer_def enqueue_def rejecting_def drop_permit_def
      split: option.splits)

lemma queue_all_rejected: "rejecting q \<Longrightarrow> fst (fold (queue_counted_prepared_database sem) ds (q, p)) = q"
proof (induction ds arbitrary: p)
  case (Cons d ds)
  obtain q1 p1 where step: "queue_counted_prepared_database sem d (q, p) = (q1, p1)" by fastforce
  with queue_counted_rejected[OF Cons.prems, of sem d p] have "q1 = q" by simp
  with step Cons show ?case by simp
qed simp

lemma return_drop_rejected: "rejecting q \<Longrightarrow> fst (return_drop sem phase (q, p)) = q"
  by (auto simp: return_drop_def fail_phase_def finish_close_def queue_all_rejected case_prod_beta Let_def split: option.split)

lemma after_submission_queue:
  assumes "after_submission sem unguarded guard submitted = Some (r, q, pool)"
    and "\<And>r q. submitted = Some (r, q) \<Longrightarrow> r \<noteq> Return (Inr ()) \<Longrightarrow> rejecting q"
  shows "submitted = Some (r, q)"
proof -
  obtain r1 q1 where sub: "submitted = Some (r1, q1)" using assms(1) by (cases submitted) (auto simp: after_submission_def)
  show ?thesis
  proof (cases guard)
    case None
    with assms(1) sub show ?thesis by (simp add: after_submission_def)
  next
    case (Some g)
    obtain phase p where g: "g = (phase, p)" by fastforce
    obtain q2 p2 where rd: "return_drop sem phase (q1, p) = (q2, p2)" by fastforce
    show ?thesis
    proof (cases "r1 = Return (Inr ())")
      case True
      with assms(1) sub Some g show ?thesis by (simp add: after_submission_def)
    next
      case False
      with return_drop_rejected[OF assms(2)[OF sub], of sem phase p] rd have "q2 = q1" by simp
      with assms(1) sub Some g rd False show ?thesis by (simp add: after_submission_def)
    qed
  qed
qed

lemma queue_cleanup_submits:
  "queue_awaited_cleanup sem inner pool q = Some (r, q', pool') \<Longrightarrow>
     submit_awaited_outcome sem (db_value (li_name inner)) (li_permit inner) q = Some (r, q')"
  "queue_deferred_cleanup sem inner pool q = Some (r, q', pool') \<Longrightarrow>
     submit_deferred_outcome sem (db_value (li_name inner)) (Some (li_permit inner)) q = Some (r, q')"
  "queue_fallback_cleanup sem inner pool q = Some (r, q', pool') \<Longrightarrow>
     submit_fallback_outcome sem (db_value (li_name inner)) (li_permit inner) q = Some (r, q')"
  unfolding queue_awaited_cleanup_def queue_deferred_cleanup_def queue_fallback_cleanup_def
  by (erule after_submission_queue;
      auto simp: submit_awaited_outcome_def submit_deferred_outcome_def submit_fallback_outcome_def dest: enqueue_rejected)+

section \<open>The simulation\<close>

definition lease_inv :: "'s lease_system \<Rightarrow> bool" where
  "lease_inv s \<longleftrightarrow>
     mset (sys_held (lz_system s)) = mset (lz_calls s) + mset (map lease_permit (lz_leases s))
   \<and> (\<forall>lease \<in> set (lz_leases s). le_inner lease \<noteq> None)"

lemma held_call:
  assumes "lease_inv s" "permit \<in> set (lz_calls s) \<union> lease_permit ` set (lz_leases s)"
  obtains h1 h2 where "sys_held (lz_system s) = h1 @ permit # h2" "remove1 permit (sys_held (lz_system s)) = h1 @ h2"
proof -
  have "permit \<in># mset (sys_held (lz_system s))" using assms by (auto simp: lease_inv_def)
  then obtain h1 h2 where "sys_held (lz_system s) = h1 @ permit # h2" "permit \<notin> set h1"
    by (metis set_mset_mset split_list_first)
  with that show ?thesis by (simp add: remove1_append)
qed

lemma submission_simulated:
  assumes inv: "lease_inv s" and lease: "lz_leases s = l1 @ lease # l2"
  shows "cleanup_submitted sem lease pool (sys_queue (lz_system s)) = Some (r, consumed, q, pool') \<Longrightarrow>
      cleanup_step sem (lz_system s) (handed_over (lease_permit lease) q [] (lz_system s))"
    and "defer_cleanup sem lease pool (sys_queue (lz_system s)) = Some (r, consumed, q, pool') \<Longrightarrow>
      cleanup_step sem (lz_system s) (handed_over (lease_permit lease) q [] (lz_system s))"
    and "lease_drop sem lease pool (sys_queue (lz_system s)) = Some (q, pool') \<Longrightarrow>
      cleanup_step sem (lz_system s)
        (handed_over (lease_permit lease) q (issued (sys_queue (lz_system s)) q) (lz_system s))"
proof -
  obtain inner where inner: "le_inner lease = Some inner" using inv lease by (auto simp: lease_inv_def)
  then have permit: "lease_permit lease = li_permit inner" by (simp add: lease_permit_def)
  obtain h1 h2 where held: "sys_held (lz_system s) = h1 @ li_permit inner # h2"
      "remove1 (li_permit inner) (sys_held (lz_system s)) = h1 @ h2"
    using held_call[OF inv, of "li_permit inner"] lease permit by auto
  let ?q = "sys_queue (lz_system s)"
  show "cleanup_step sem (lz_system s) (handed_over (lease_permit lease) q [] (lz_system s))"
    if run: "cleanup_submitted sem lease pool ?q = Some (r, consumed, q, pool')"
  proof -
    from run inner obtain r' where "queue_awaited_cleanup sem inner pool ?q = Some (r', q, pool')"
      by (auto simp: cleanup_submitted_def)
    from cleanup_step.submit_awaited[OF held(1) queue_cleanup_submits(1)[OF this]] held(2) show ?thesis
      by (simp add: handed_over_def permit)
  qed
  show "cleanup_step sem (lz_system s) (handed_over (lease_permit lease) q [] (lz_system s))"
    if run: "defer_cleanup sem lease pool ?q = Some (r, consumed, q, pool')"
  proof -
    from run inner obtain r' where "queue_deferred_cleanup sem inner pool ?q = Some (r', q, pool')"
      by (auto simp: defer_cleanup_def)
    from cleanup_step.submit_deferred[OF held(1) queue_cleanup_submits(2)[OF this]] held(2) show ?thesis
      by (simp add: handed_over_def permit)
  qed
  show "cleanup_step sem (lz_system s) (handed_over (lease_permit lease) q (issued ?q q) (lz_system s))"
    if run: "lease_drop sem lease pool ?q = Some (q, pool')"
  proof -
    from run inner obtain r' where "queue_fallback_cleanup sem inner pool ?q = Some (r', q, pool')"
      by (auto simp: lease_drop_def)
    from cleanup_step.submit_fallback[OF held(1) queue_cleanup_submits(3)[OF this]] held(2) show ?thesis
      by (simp add: handed_over_def permit)
  qed
qed

lemma lease_inv_step:
  assumes inv: "lease_inv s" and step: "lease_step sem s t"
  shows "lease_inv t"
  using step
proof (cases rule: lease_step_cases)
  case (take_prepared c1 permit c2 n pool prepared pool' lease)
  with inv show ?thesis by (auto simp: lease_inv_def into_lease_def lease_permit_def)
qed (use inv in \<open>auto simp: lease_inv_def handed_over_def lease_permit_def mset_remove1\<close>)

lemma lease_step_simulated:
  assumes inv: "lease_inv s" and step: "lease_step sem s t"
  shows "(cleanup_step sem)\<^sup>*\<^sup>* (lz_system s) (lz_system t)"
  using step
proof (cases rule: lease_step_cases)
  case (begin_call per_database permit gate)
  then show ?thesis
    by (auto intro: cleanup_step.acquire)
next
  case (give_up c1 permit c2)
  obtain h1 h2 where "sys_held (lz_system s) = h1 @ permit # h2" "remove1 permit (sys_held (lz_system s)) = h1 @ h2"
    using held_call[OF inv, of permit] give_up by auto
  with cleanup_step.release[of "lz_system s" h1 permit h2 sem] give_up show ?thesis
    by (auto simp: handed_over_def)
next
  case (cleanup l1 lease l2 r consumed q pool)
  with submission_simulated(1)[OF inv cleanup(2,3)] show ?thesis by auto
next
  case (return_later l1 lease l2 r consumed q pool)
  with submission_simulated(2)[OF inv return_later(2,3)] show ?thesis by auto
next
  case (drop_lease l1 lease l2 q pool)
  with submission_simulated(3)[OF inv drop_lease(2,3)] show ?thesis by auto
qed auto

interpretation lease_sim: forward_simulation "lease_start sem b c" "lease_step sem" lease_inv lz_system
  "start_of sem b c" "cleanup_step sem" for sem b c
proof unfold_locales
  show "lease_inv s" if "lease_start sem b c s" for s
    using that by (simp add: lease_start_def lease_inv_def initial_system_def)
  show "lease_inv t" if "lease_inv s" "lease_step sem s t" for s t using that by (rule lease_inv_step)
  show "start_of sem b c (lz_system s)" if "lease_start sem b c s" for s
    using that by (simp add: lease_start_def start_of_def)
  show "(cleanup_step sem)\<^sup>*\<^sup>* (lz_system s) (lz_system t)" if "lease_inv s" "lease_step sem s t" for s t
    using that by (rule lease_step_simulated)
qed

text \<open>C5: The public operations on leases implement the cleanup protocol. However calls that create databases,
  cleanups, deferred cleanups and drops of leases, prewarm pools, workers and drains interleave, the
  queue goes through a run of the cleanup system, and the permits it counts as held are exactly those of
  the calls in progress and of the live leases. So every permit of the budget is available, or belongs
  to exactly one call, one live lease, or one waiting or running cleanup job.\<close>

theorem lease_lifecycle_refines_cleanup:
  assumes "semaphore_laws sem" "reachable (lease_start sem b c) (lease_step sem) s"
  shows "cleanup_reachable sem b c (lz_system s)
    \<and> mset (sys_held (lz_system s)) = mset (lz_calls s) + mset (map lease_permit (lz_leases s))
    \<and> sem_available sem (q_admission (sys_queue (lz_system s))) + sum_list (lz_calls s)
        + sum_list (map lease_permit (lz_leases s)) + sum_list (map permits_of (q_jobs (sys_queue (lz_system s))))
        + sum_list (map permits_of (sys_running (lz_system s))) = b"
proof -
  have run: "cleanup_reachable sem b c (lz_system s)" by (rule lease_sim.reachable_abs[OF assms(2)])
  have held: "mset (sys_held (lz_system s)) = mset (lz_calls s @ map lease_permit (lz_leases s))"
    using lease_sim.reachable_inv[OF assms(2)] by (simp add: lease_inv_def)
  then have "sum_list (sys_held (lz_system s)) = sum_list (lz_calls s @ map lease_permit (lz_leases s))"
    by (metis sum_mset_sum_list)
  moreover have "permit_inv sem b (lz_system s)"
    using cleanup_sys.reachable_inv[OF run] assms(1) by (simp add: system_inv_def)
  ultimately show ?thesis using run held by (simp add: permit_inv_def permits_out_def)
qed

text \<open>A call that acquires a permit, its lease, and the drop of the lease.\<close>

definition demo_lease :: database_lease where
  "demo_lease = \<lparr>le_inner = Some \<lparr>li_name = demo_template_name, li_permit = 3, li_prewarm_pool = None\<rparr>, le_database_url = ''u''\<rparr>"

definition demo_dropped :: "(nat \<times> bool) lease_system" where
  "demo_dropped = \<lparr>lz_system = (initial_system counting_semaphore 8 2)\<lparr>
      sys_queue := (new_queue 2 (5, False))\<lparr>q_next_sequence := 1,
        q_jobs := [\<lparr>job_sequence = 1, job_database_name = db_value demo_template_name, job_completion = Deferred,
                    job_permit = Some 3\<rparr>]\<rparr>, sys_bypass := [1]\<rparr>,
    lz_calls = [], lz_leases = [], lz_pools = Map.empty\<rparr>"

lemma demo_dropped_reachable: "reachable (lease_start counting_semaphore 8 2) (lease_step counting_semaphore) demo_dropped"
proof -
  let ?reach = "reachable (lease_start counting_semaphore 8 2) (lease_step counting_semaphore)"
  let ?y = "(initial_system counting_semaphore 8 2)\<lparr>sys_queue := new_queue 2 (5, False), sys_held := [3]\<rparr>"
  let ?s0 = "\<lparr>lz_system = initial_system counting_semaphore 8 2, lz_calls = [], lz_leases = [], lz_pools = Map.empty\<rparr>"
  let ?s1 = "\<lparr>lz_system = ?y, lz_calls = [3], lz_leases = [], lz_pools = Map.empty\<rparr>"
  let ?s2 = "\<lparr>lz_system = ?y, lz_calls = [], lz_leases = [demo_lease], lz_pools = Map.empty\<rparr>"
  have "?reach ?s0" by (rule reachable_init) (simp add: lease_start_def)
  moreover have "lease_step counting_semaphore ?s0 ?s1"
    using lease_step.begin_call[of counting_semaphore 3 ?s0 3 "(5, False)"]
    by (simp add: admission_acquire_def counting_semaphore_def initial_system_def new_queue_def DatabaseAdmission_new_def)
  moreover have "lease_step counting_semaphore ?s1 ?s2"
    using lease_step.created[of ?s1 "[]" 3 "[]" counting_semaphore demo_template_name "''u''"] by (simp add: demo_lease_def)
  moreover have "lease_step counting_semaphore ?s2 demo_dropped"
    using lease_step.drop_lease[of ?s2 "[]" demo_lease "[]" counting_semaphore
        "sys_queue (lz_system demo_dropped)" None]
    by (simp add: demo_lease_def demo_dropped_def lease_drop_def queue_fallback_cleanup_def submit_fallback_outcome_def
        enqueue_def new_queue_def after_submission_def begin_lease_return_def lease_pool_def put_pool_def handed_over_def
        lease_permit_def issued_def initial_system_def std_defs u64_max_def)
  ultimately show ?thesis by (meson reachable_step)
qed

theorem lease_lifecycle_refines_cleanup_witness:
  "sem_available counting_semaphore (q_admission (sys_queue (lz_system demo_dropped))) + 3 = 8"
  using lease_lifecycle_refines_cleanup[OF counting_semaphore_laws demo_dropped_reachable]
  by (simp add: demo_dropped_def initial_system_def permits_of_def)

end
