(* ===== verification/Facade.thy ===== *)
theory Facade
  imports Lease_System Startup
begin

text \<open>
  The remaining public operations of \<open>src/harness.rs\<close> that compose the components: templates and derived
  templates, the explicit drain, the shutdown of a prewarm pool, and the drop of the cleanup queue with
  the last handle of a server. Where an operation waits, it takes the queue twice: as it was when the
  target was read and as it is when the wait is over.
\<close>

section \<open>Templates\<close>

definition harness_template ::
  "(bytes \<Rightarrow> bytes) \<Rightarrow> 'u url_api \<Rightarrow> 'g semaphore \<Rightarrow> ('g \<times> 'w) backend \<Rightarrow> nat
     \<Rightarrow> (string \<Rightarrow> ('g \<times> 'w) io_state \<Rightarrow> (string + unit) \<times> ('g \<times> 'w) io_state)
     \<Rightarrow> 'u server_inner \<Rightarrow> root_spec \<Rightarrow> nat \<Rightarrow> (cache \<Rightarrow> cache) list \<Rightarrow> cache \<Rightarrow> ('g \<times> 'w) io_state
     \<Rightarrow> (nat result exec \<times> cache \<times> ('g \<times> 'w) io_state) option" where
  "harness_template sha256 api sem be unix_now initialize server spec inner turns c s =
     get_or_initialize_template sha256 api sem be unix_now initialize server (identity_root spec) Empty inner None turns c s"

text \<open>\<open>DatabaseTemplate::derive\<close> on a template with the given name and fingerprint.\<close>

definition template_derive ::
  "(bytes \<Rightarrow> bytes) \<Rightarrow> 'u url_api \<Rightarrow> 'g semaphore \<Rightarrow> ('g \<times> 'w) backend \<Rightarrow> nat
     \<Rightarrow> (string \<Rightarrow> ('g \<times> 'w) io_state \<Rightarrow> (string + unit) \<times> ('g \<times> 'w) io_state)
     \<Rightarrow> 'u server_inner \<Rightarrow> database_name \<Rightarrow> template_fingerprint \<Rightarrow> step_spec \<Rightarrow> nat \<Rightarrow> (cache \<Rightarrow> cache) list
     \<Rightarrow> cache \<Rightarrow> ('g \<times> 'w) io_state \<Rightarrow> (nat result exec \<times> cache \<times> ('g \<times> 'w) io_state) option" where
  "template_derive sha256 api sem be unix_now initialize server name fingerprint step_spec inner turns c s =
     get_or_initialize_template sha256 api sem be unix_now initialize server
       (identity_derived sha256 fingerprint step_spec) (Template_source name) inner None turns c s"

section \<open>Drains\<close>

definition drain_deferred_cleanup ::
  "'s cleanup_queue \<Rightarrow> 's cleanup_queue \<Rightarrow> (unit result \<times> 's cleanup_queue) option" where
  "drain_deferred_cleanup at_call at_return =
     map_option (\<lambda>(outcome, q). drain_finish outcome q) (wait_and_take (current_target at_call) at_return)"

text \<open>
  \<open>PrewarmedDatabasePool::shutdown\<close>: the part before the wait, the wait, and the drop of the consumed handle,
  one of \<open>public_handles\<close>.
\<close>

definition pool_shutdown_begin ::
  "'s semaphore \<Rightarrow> 's cleanup_queue \<times> 's prewarm_pool \<Rightarrow> nat \<times> 's cleanup_queue \<times> 's prewarm_pool" where
  "pool_shutdown_begin sem qp =
     (let (q, pool) = close_and_queue_ready sem qp in (current_target q, q, pool))"

definition pool_shutdown_finish ::
  "'s semaphore \<Rightarrow> nat \<Rightarrow> nat \<Rightarrow> 's cleanup_queue \<times> 's prewarm_pool
     \<Rightarrow> (unit result \<times> nat \<times> 's cleanup_queue \<times> 's prewarm_pool) option" where
  "pool_shutdown_finish sem public_handles target qp =
     (case wait_and_take target (fst qp) of
        None \<Rightarrow> None
      | Some (outcome, q) \<Rightarrow>
          (let (r, q') = drain_finish outcome q in Some (r, pool_drop sem public_handles (q', snd qp))))"

text \<open>\<open>DatabaseCleanupQueue::drop\<close>: unreported failures are only logged.\<close>

definition queue_drop_begin :: "'s cleanup_queue \<Rightarrow> nat \<times> 's cleanup_queue" where
  "queue_drop_begin q = submission_close q"

definition queue_drop_finish :: "nat \<Rightarrow> 's cleanup_queue \<Rightarrow> (error option \<times> 's cleanup_queue) option" where
  "queue_drop_finish target q =
     map_option (\<lambda>(outcome, q1). case drain_finish outcome q1 of
         (Inl e, q2) \<Rightarrow> (Some e, q2) | (Inr _, q2) \<Rightarrow> (None, q2)) (wait_and_take target q)"

definition OwnedShutdownOutcome_finish ::
  "sequenced_failure list option \<Rightarrow> unit result \<Rightarrow> 's cleanup_queue \<Rightarrow> unit result \<times> 's cleanup_queue" where
  "OwnedShutdownOutcome_finish cleanup shutdown q =
     (let (r, q') = drain_finish cleanup q in (combine_cleanup_and_shutdown r shutdown, q'))"

section \<open>What the drain of a pool's shutdown covers\<close>

text \<open>A submission numbers its job at most as high as the counter that later becomes the target.\<close>

lemma enqueue_numbers:
  assumes "enqueue sem name completion permit admission q = Some (r, q')"
    and "list_all (\<lambda>job. job_sequence job \<le> q_next_sequence q) (q_jobs q)"
  shows "list_all (\<lambda>job. job_sequence job \<le> q_next_sequence q') (q_jobs q')"
  using assms
  by (auto simp: enqueue_def drop_permit_def checked_add_u64_def list_all_iff split: if_splits option.splits)
    (meson le_SucI)+

lemma queue_counted_numbers:
  assumes "list_all (\<lambda>job. job_sequence job \<le> q_next_sequence q) (q_jobs q)"
    and "queue_counted_prepared_database sem d (q, p) = (q', p')"
  shows "list_all (\<lambda>job. job_sequence job \<le> q_next_sequence q') (q_jobs q')"
proof (cases "submit_prewarmer sem (db_value (pd_name d)) q")
  case None
  with assms show ?thesis by (simp add: queue_counted_prepared_database_def)
next
  case (Some a)
  obtain r q1 where a: "a = (r, q1)" by fastforce
  with assms(2) Some have "q' = q1"
    by (auto simp: queue_counted_prepared_database_def split: exec.splits sum.splits)
  with enqueue_numbers[OF _ assms(1)] Some a show ?thesis by (auto simp: submit_prewarmer_def)
qed

lemma queue_all_numbers:
  assumes "list_all (\<lambda>job. job_sequence job \<le> q_next_sequence q) (q_jobs q)"
    and "fold (queue_counted_prepared_database sem) ds (q, p) = (q', p')"
  shows "list_all (\<lambda>job. job_sequence job \<le> q_next_sequence q') (q_jobs q')"
  using assms
proof (induction ds arbitrary: q p)
  case (Cons d ds)
  obtain q1 p1 where "queue_counted_prepared_database sem d (q, p) = (q1, p1)" by fastforce
  with Cons.IH[of q1 p1] queue_counted_numbers[OF Cons.prems(1) this] Cons.prems(2) show ?case by simp
qed simp

lemma pool_shutdown_covers_idle:
  assumes "list_all (\<lambda>job. job_sequence job \<le> q_next_sequence q) (q_jobs q)"
    and "pool_shutdown_begin sem (q, p) = (target, q', p')"
  shows "list_all (\<lambda>job. job_sequence job \<le> target) (q_jobs q')"
  using assms queue_all_numbers[OF assms(1)]
  by (auto simp: pool_shutdown_begin_def close_and_queue_ready_def finish_close_def current_target_def
      case_prod_beta Let_def split: option.splits)

end
