(* ===== verification/Benchmark_Config.thy ===== *)
theory Benchmark_Config
  imports Container
begin

text \<open>
  The configuration of the benchmark program (\<open>examples/performance.rs\<close>): its environment variables, the
  server mode, the harness configuration it builds and the limits it checks before any work. Errors are
  named by what they report; their wording is not modelled.
\<close>

section \<open>Errors\<close>

datatype bench_error =
    Bench_not_unicode string
  | Bench_not_positive string string
  | Bench_zero string
  | Bench_not_boolean string string
  | Bench_not_a_size string
  | Bench_too_many_per_database
  | Bench_over_capacity string nat nat
  | Bench_too_few_prewarmed
  | Bench_too_few_operations nat nat
  | Bench_pool_too_large nat nat
  | Bench_mode_changed string string
  | Bench_still_active string nat nat
  | Bench_left_behind string nat nat nat
  | Bench_unexpected_drops string nat nat nat
  | Bench_invalid_input string
  | Bench_other string
  | Bench_harness error
  | Bench_operation_and_cleanup bench_error bench_error
  | Bench_report_lost bench_error bench_error
  | Bench_client pg_error
  | Bench_timed_out string nat
  | Bench_still_present int

type_synonym 'a bench_result = "bench_error + 'a"

fun bench_bind :: "'a bench_result \<Rightarrow> ('a \<Rightarrow> 'b bench_result) \<Rightarrow> 'b bench_result" where
  "bench_bind (Inl e) f = Inl e"
| "bench_bind (Inr x) f = f x"

lemma bench_bind_Inr_iff: "bench_bind m f = Inr y \<longleftrightarrow> (\<exists>x. m = Inr x \<and> f x = Inr y)"
  by (cases m) auto

text \<open>The conversion of the crate's errors by the question mark operator.\<close>

definition bench_from :: "'a result \<Rightarrow> 'a bench_result" where
  "bench_from r = (case r of Inl e \<Rightarrow> Inl (Bench_harness e) | Inr x \<Rightarrow> Inr x)"

lemma bench_from_Inr_iff [simp]: "bench_from r = Inr x \<longleftrightarrow> r = Inr x"
  by (cases r) (auto simp: bench_from_def)

definition combine_operation_and_cleanup ::
  "'t bench_result \<Rightarrow> 'c bench_result \<Rightarrow> ('t \<times> 'c) bench_result" where
  "combine_operation_and_cleanup operation cleanup =
     (case (operation, cleanup) of
        (Inr v, Inr c) \<Rightarrow> Inr (v, c)
      | (Inl e, Inr _) \<Rightarrow> Inl e
      | (Inr _, Inl e) \<Rightarrow> Inl e
      | (Inl o', Inl c) \<Rightarrow> Inl (Bench_operation_and_cleanup o' c))"

section \<open>Environment variables\<close>

datatype env_var = Var_unset | Var_text string | Var_not_unicode

definition optional_positive_env :: "(string \<Rightarrow> env_var) \<Rightarrow> string \<Rightarrow> nat option bench_result" where
  "optional_positive_env env name =
     (case env name of
        Var_unset \<Rightarrow> Inr None
      | Var_not_unicode \<Rightarrow> Inl (Bench_not_unicode name)
      | Var_text v \<Rightarrow>
          (case parse_u64 v of
             None \<Rightarrow> Inl (Bench_not_positive name v)
           | Some parsed \<Rightarrow> if parsed = 0 then Inl (Bench_zero name) else Inr (Some parsed)))"

definition positive_env :: "(string \<Rightarrow> env_var) \<Rightarrow> string \<Rightarrow> nat \<Rightarrow> nat bench_result" where
  "positive_env env name fallback =
     bench_bind (optional_positive_env env name)
       (\<lambda>v. Inr (case v of None \<Rightarrow> fallback | Some n \<Rightarrow> n))"

definition boolean_env :: "(string \<Rightarrow> env_var) \<Rightarrow> string \<Rightarrow> bool \<Rightarrow> bool bench_result" where
  "boolean_env env name fallback =
     (case env name of
        Var_unset \<Rightarrow> Inr fallback
      | Var_not_unicode \<Rightarrow> Inl (Bench_not_unicode name)
      | Var_text v \<Rightarrow>
          if v = ''true'' then Inr True
          else if v = ''false'' then Inr False
          else Inl (Bench_not_boolean name v))"

definition OWNED_INITDB_NO_SYNC_ENV :: string where
  "OWNED_INITDB_NO_SYNC_ENV = ''PTH_PERF_OWNED_INITDB_NO_SYNC''"
definition OWNED_TMPFS_SIZE_BYTES_ENV :: string where
  "OWNED_TMPFS_SIZE_BYTES_ENV = ''PTH_PERF_OWNED_TMPFS_SIZE_BYTES''"

definition owned_container_profile_from_environment ::
  "(string \<Rightarrow> env_var) \<Rightarrow> owned_container_profile bench_result" where
  "owned_container_profile_from_environment env =
     bench_bind (boolean_env env OWNED_INITDB_NO_SYNC_ENV True) (\<lambda>no_sync.
     let profile = with_initdb_no_sync performance no_sync
     in case env OWNED_TMPFS_SIZE_BYTES_ENV of
          Var_unset \<Rightarrow> Inr profile
        | Var_not_unicode \<Rightarrow> Inl (Bench_not_unicode OWNED_TMPFS_SIZE_BYTES_ENV)
        | Var_text v \<Rightarrow>
            if to_ascii_lowercase (bytes_of_string v) = to_ascii_lowercase (bytes_of_string ''off'')
            then Inr (without_tmpfs profile)
            else (case parse_u64 v of
                    None \<Rightarrow> Inl (Bench_not_a_size v)
                  | Some size_bytes \<Rightarrow> bench_from (with_tmpfs_size_bytes profile size_bytes)))"

section \<open>Server mode\<close>

datatype server_mode = Mode_owned | Mode_external

definition mode_from_admin_url_environment :: "env_var \<Rightarrow> server_mode bench_result" where
  "mode_from_admin_url_environment admin_url =
     (case admin_url of
        Var_text _ \<Rightarrow> Inr Mode_external
      | Var_unset \<Rightarrow> Inr Mode_owned
      | Var_not_unicode \<Rightarrow> Inl (Bench_not_unicode POSTGRES_TEST_ADMIN_URL_ENV))"

fun mode_as_str :: "server_mode \<Rightarrow> string" where
  "mode_as_str Mode_owned = ''owned''"
| "mode_as_str Mode_external = ''external''"

definition mode_from_harness :: "'u server_inner \<Rightarrow> server_mode" where
  "mode_from_harness server = (if is_external server then Mode_external else Mode_owned)"

definition mode_ensure_matches :: "server_mode \<Rightarrow> server_mode \<Rightarrow> unit bench_result" where
  "mode_ensure_matches self actual =
     (if self = actual then Inr () else Inl (Bench_mode_changed (mode_as_str self) (mode_as_str actual)))"

section \<open>Configuration\<close>

definition BENCH_STARTUP_TIMEOUT :: duration where "BENCH_STARTUP_TIMEOUT = from_secs 120"
definition BENCH_OPERATION_TIMEOUT :: duration where "BENCH_OPERATION_TIMEOUT = from_secs 90"
definition BENCH_TEMPLATE_WAIT_TIMEOUT :: duration where "BENCH_TEMPLATE_WAIT_TIMEOUT = from_secs (15 * 60)"
definition DEFERRED_DRAIN_TIMEOUT :: duration where "DEFERRED_DRAIN_TIMEOUT = from_secs 120"
definition EXTERNAL_CLEANUP_RETRY_WINDOW :: duration where "EXTERNAL_CLEANUP_RETRY_WINDOW = from_secs 120"
definition EXTERNAL_CLEANUP_INITIAL_RETRY_INTERVAL :: duration where
  "EXTERNAL_CLEANUP_INITIAL_RETRY_INTERVAL = from_millis 25"
definition EXTERNAL_CLEANUP_MAX_RETRY_INTERVAL :: duration where
  "EXTERNAL_CLEANUP_MAX_RETRY_INTERVAL = from_secs 1"
definition DEFAULT_DOWNSTREAM_POOL_SIZE :: nat where "DEFAULT_DOWNSTREAM_POOL_SIZE = 10"
definition DEFAULT_PREWARM_DATABASES :: nat where "DEFAULT_PREWARM_DATABASES = 4"
definition DEFAULT_SAMPLES :: nat where "DEFAULT_SAMPLES = 3"
definition DEFAULT_SEQUENTIAL_OPERATIONS :: nat where "DEFAULT_SEQUENTIAL_OPERATIONS = 4"
definition DEFAULT_CONCURRENCY :: nat where "DEFAULT_CONCURRENCY = 4"
definition DEFAULT_CONCURRENT_OPERATIONS :: nat where "DEFAULT_CONCURRENT_OPERATIONS = 8"
definition DEFAULT_DRAIN_DATABASES :: nat where "DEFAULT_DRAIN_DATABASES = 4"
definition DEFAULT_REPRESENTATIVE_ROWS :: nat where "DEFAULT_REPRESENTATIVE_ROWS = 50000"

record benchmark_config =
  bc_project :: string
  bc_mode :: server_mode
  bc_image :: string
  bc_owned_container_profile :: owned_container_profile
  bc_output :: "string option"
  bc_samples :: nat
  bc_sequential_operations :: nat
  bc_concurrency :: nat
  bc_concurrent_operations :: nat
  bc_drain_databases :: nat
  bc_representative_rows :: nat
  bc_connection_budget :: nat
  bc_connections_per_database_override :: "32 word option"
  bc_downstream_pool_size :: nat
  bc_prewarm_databases :: nat

definition bench_harness_config :: "benchmark_config \<Rightarrow> harness_config bench_result" where
  "bench_harness_config self =
     bench_bind (bench_from (HarnessConfig_new (bc_project self))) (\<lambda>config.
     bench_bind (bench_from (with_startup_timeout config BENCH_STARTUP_TIMEOUT)) (\<lambda>config.
     bench_bind (bench_from (with_operation_timeout config BENCH_OPERATION_TIMEOUT)) (\<lambda>config.
     bench_bind (bench_from (with_template_wait_timeout config BENCH_TEMPLATE_WAIT_TIMEOUT)) (\<lambda>config.
     bench_bind (bench_from (with_connection_budget config (bc_connection_budget self))) (\<lambda>config.
     let config = with_cleanup_on_start config False
     in bench_bind (case bc_connections_per_database_override self of
            Some n \<Rightarrow> bench_from (with_connections_per_database config n) | None \<Rightarrow> Inr config) (\<lambda>config.
        case bc_mode self of
          Mode_owned \<Rightarrow>
            bench_bind (bench_from (with_image config (bc_image self))) (\<lambda>config.
            Inr (with_owned_container_profile config (bc_owned_container_profile self)))
        | Mode_external \<Rightarrow> Inr config))))))"

text \<open>\<open>config.harness_config()?.connection_limits()?\<close>\<close>

definition bench_limits :: "benchmark_config \<Rightarrow> connection_limits bench_result" where
  "bench_limits self =
     bench_bind (bench_harness_config self) (\<lambda>config. bench_from (resolve_connection_limits config))"

text \<open>The checks after the variables have been read.\<close>

definition bench_validate :: "benchmark_config \<Rightarrow> benchmark_config bench_result" where
  "bench_validate config =
     bench_bind (bench_limits config) (\<lambda>limits.
     let database_capacity = max_simultaneous_leases limits
     in if bc_concurrency config > database_capacity
        then Inl (Bench_over_capacity ''PTH_PERF_CONCURRENCY'' (bc_concurrency config) database_capacity)
        else if bc_drain_databases config > database_capacity
        then Inl (Bench_over_capacity ''PTH_PERF_DRAIN_DATABASES'' (bc_drain_databases config) database_capacity)
        else if bc_prewarm_databases config > database_capacity
        then Inl (Bench_over_capacity ''PTH_PERF_PREWARM_DATABASES'' (bc_prewarm_databases config) database_capacity)
        else if bc_prewarm_databases config < 2 then Inl Bench_too_few_prewarmed
        else if bc_concurrent_operations config < bc_concurrency config
        then Inl (Bench_too_few_operations (bc_concurrent_operations config) (bc_concurrency config))
        else if bc_downstream_pool_size config > connections_per_database limits
        then Inl (Bench_pool_too_large (bc_downstream_pool_size config) (connections_per_database limits))
        else Inr config)"

definition per_database_override :: "(string \<Rightarrow> env_var) \<Rightarrow> 32 word option bench_result" where
  "per_database_override env =
     bench_bind (optional_positive_env env ''PTH_PERF_CONNECTIONS_PER_DATABASE'') (\<lambda>v.
     case v of
       None \<Rightarrow> Inr None
     | Some n \<Rightarrow> if n > u32_max then Inl Bench_too_many_per_database else Inr (Some (of_nat n)))"

text \<open>\<open>output\<close> is the value of \<open>PTH_PERF_OUTPUT\<close>, a path that need not be text.\<close>

definition from_environment :: "(string \<Rightarrow> env_var) \<Rightarrow> string option \<Rightarrow> string \<Rightarrow> benchmark_config bench_result" where
  "from_environment env output project =
     bench_bind (mode_from_admin_url_environment (env POSTGRES_TEST_ADMIN_URL_ENV)) (\<lambda>mode.
     bench_bind (per_database_override env) (\<lambda>per_database.
     let img = (case env POSTGRES_TEST_IMAGE_ENV of Var_text i \<Rightarrow> i | _ \<Rightarrow> DEFAULT_IMAGE)
     in bench_bind (case mode of
            Mode_owned \<Rightarrow> owned_container_profile_from_environment env | Mode_external \<Rightarrow> Inr performance) (\<lambda>profile.
        bench_bind (positive_env env ''PTH_PERF_SAMPLES'' DEFAULT_SAMPLES) (\<lambda>samples.
        bench_bind (positive_env env ''PTH_PERF_SEQUENTIAL_OPERATIONS'' DEFAULT_SEQUENTIAL_OPERATIONS) (\<lambda>sequential.
        bench_bind (positive_env env ''PTH_PERF_CONCURRENCY'' DEFAULT_CONCURRENCY) (\<lambda>concurrency.
        bench_bind (positive_env env ''PTH_PERF_CONCURRENT_OPERATIONS'' DEFAULT_CONCURRENT_OPERATIONS) (\<lambda>concurrent.
        bench_bind (positive_env env ''PTH_PERF_DRAIN_DATABASES'' DEFAULT_DRAIN_DATABASES) (\<lambda>drain_databases.
        bench_bind (positive_env env ''PTH_PERF_REPRESENTATIVE_ROWS'' DEFAULT_REPRESENTATIVE_ROWS) (\<lambda>rows.
        bench_bind (positive_env env ''PTH_PERF_CONNECTION_BUDGET'' DEFAULT_CONNECTION_BUDGET) (\<lambda>budget.
        bench_bind (positive_env env ''PTH_PERF_DOWNSTREAM_POOL_SIZE'' DEFAULT_DOWNSTREAM_POOL_SIZE) (\<lambda>pool_size.
        bench_bind (positive_env env ''PTH_PERF_PREWARM_DATABASES'' DEFAULT_PREWARM_DATABASES) (\<lambda>prewarm_databases.
        bench_validate \<lparr>bc_project = project, bc_mode = mode, bc_image = img, bc_owned_container_profile = profile,
          bc_output = output, bc_samples = samples, bc_sequential_operations = sequential,
          bc_concurrency = concurrency, bc_concurrent_operations = concurrent,
          bc_drain_databases = drain_databases, bc_representative_rows = rows, bc_connection_budget = budget,
          bc_connections_per_database_override = per_database, bc_downstream_pool_size = pool_size,
          bc_prewarm_databases = prewarm_databases\<rparr>))))))))))))"

section \<open>The configuration report\<close>

datatype storage_report = Tmpfs nat | ImageDefault

record profile_report =
  pr_initdb_no_sync :: bool
  pr_storage :: storage_report

definition profile_report_from :: "owned_container_profile \<Rightarrow> profile_report" where
  "profile_report_from profile =
     \<lparr>pr_initdb_no_sync = initdb_no_sync profile,
      pr_storage = (case tmpfs_size_bytes profile of None \<Rightarrow> ImageDefault | Some size_bytes \<Rightarrow> Tmpfs size_bytes)\<rparr>"

record configuration_report =
  cr_project :: string
  cr_samples :: nat
  cr_sequential_operations :: nat
  cr_concurrency :: nat
  cr_concurrent_operations :: nat
  cr_drain_databases :: nat
  cr_representative_rows :: nat
  cr_startup_timeout_ms :: nat
  cr_operation_timeout_ms :: nat
  cr_template_wait_timeout_ms :: nat
  cr_deferred_drain_timeout_ms :: nat
  cr_external_cleanup_retry_window_ms :: nat
  cr_external_cleanup_initial_retry_interval_ms :: nat
  cr_external_cleanup_max_retry_interval_ms :: nat
  cr_connection_budget :: nat
  cr_connections_per_database :: nat
  cr_max_simultaneous_leases :: nat
  cr_downstream_pool_size :: nat
  cr_prewarm_databases :: nat
  cr_cleanup_on_start :: bool
  cr_owned_container_profile :: "profile_report option"

definition bench_report :: "benchmark_config \<Rightarrow> configuration_report exec" where
  "bench_report self =
     (case bench_limits self of
        Inl _ \<Rightarrow> Panic ''validated benchmark connection limits remain resolvable''
      | Inr limits \<Rightarrow> Return
          \<lparr>cr_project = bc_project self, cr_samples = bc_samples self,
           cr_sequential_operations = bc_sequential_operations self, cr_concurrency = bc_concurrency self,
           cr_concurrent_operations = bc_concurrent_operations self, cr_drain_databases = bc_drain_databases self,
           cr_representative_rows = bc_representative_rows self,
           cr_startup_timeout_ms = as_millis BENCH_STARTUP_TIMEOUT,
           cr_operation_timeout_ms = as_millis BENCH_OPERATION_TIMEOUT,
           cr_template_wait_timeout_ms = as_millis BENCH_TEMPLATE_WAIT_TIMEOUT,
           cr_deferred_drain_timeout_ms = as_millis DEFERRED_DRAIN_TIMEOUT,
           cr_external_cleanup_retry_window_ms = as_millis EXTERNAL_CLEANUP_RETRY_WINDOW,
           cr_external_cleanup_initial_retry_interval_ms = as_millis EXTERNAL_CLEANUP_INITIAL_RETRY_INTERVAL,
           cr_external_cleanup_max_retry_interval_ms = as_millis EXTERNAL_CLEANUP_MAX_RETRY_INTERVAL,
           cr_connection_budget = connection_budget limits,
           cr_connections_per_database = connections_per_database limits,
           cr_max_simultaneous_leases = max_simultaneous_leases limits,
           cr_downstream_pool_size = bc_downstream_pool_size self,
           cr_prewarm_databases = bc_prewarm_databases self, cr_cleanup_on_start = False,
           cr_owned_container_profile = (if bc_mode self = Mode_owned
             then Some (profile_report_from (bc_owned_container_profile self)) else None)\<rparr>)"

section \<open>A valid configuration\<close>

text \<open>The harness configuration is one chain of the crate's builder calls.\<close>

definition bench_builders :: "benchmark_config \<Rightarrow> builder_call list" where
  "bench_builders self =
     [Startup_timeout BENCH_STARTUP_TIMEOUT, Operation_timeout BENCH_OPERATION_TIMEOUT,
      Template_wait_timeout BENCH_TEMPLATE_WAIT_TIMEOUT, Connection_budget (bc_connection_budget self),
      Cleanup_on_start False]
     @ (case bc_connections_per_database_override self of None \<Rightarrow> [] | Some n \<Rightarrow> [Connections_per_database n])
     @ (case bc_mode self of Mode_owned \<Rightarrow> [Image (bc_image self), Profile (bc_owned_container_profile self)]
        | Mode_external \<Rightarrow> [])"

lemma bench_bind_from:
  "bench_bind (bench_from r) f = (case r of Inl e \<Rightarrow> Inl (Bench_harness e) | Inr x \<Rightarrow> f x)"
  by (cases r) (simp_all add: bench_from_def)

lemma bind_result_case: "bind_result r f = (case r of Inl e \<Rightarrow> Inl e | Inr x \<Rightarrow> f x)"
  by (cases r) simp_all

lemma bench_harness_config_chain:
  "bench_harness_config self
     = bench_from (bind_result (HarnessConfig_new (bc_project self)) (\<lambda>c. apply_builders c (bench_builders self)))"
  by (simp add: bench_harness_config_def bench_builders_def bench_bind_from bind_result_case bench_from_def Let_def
      split: sum.split option.split server_mode.split)

lemma bench_harness_config_wf: "bench_harness_config self = Inr c \<Longrightarrow> wf_config c"
  by (auto simp: bench_harness_config_chain bind_result_Inr_iff intro: HarnessConfig_new_wf apply_builders_wf)

lemma bench_limits_wf: "bench_limits self = Inr l \<Longrightarrow> wf_limits l"
  by (auto simp: bench_limits_def bench_bind_Inr_iff intro: resolve_connection_limits_wf bench_harness_config_wf)

lemma bench_bindE:
  assumes "bench_bind m f = Inr y" obtains x where "m = Inr x" "f x = Inr y"
  using assms by (auto simp: bench_bind_Inr_iff)

lemma bench_validate_Inr_iff:
  "bench_validate c = Inr d \<longleftrightarrow> c = d \<and> (\<exists>limits. bench_limits c = Inr limits
     \<and> bc_concurrency c \<le> max_simultaneous_leases limits \<and> bc_drain_databases c \<le> max_simultaneous_leases limits
     \<and> bc_prewarm_databases c \<le> max_simultaneous_leases limits \<and> 2 \<le> bc_prewarm_databases c
     \<and> bc_concurrency c \<le> bc_concurrent_operations c
     \<and> bc_downstream_pool_size c \<le> connections_per_database limits)"
  by (cases "bench_limits c") (auto simp: bench_validate_def Let_def not_less)

lemma positive_env_pos: "positive_env env name fallback = Inr n \<Longrightarrow> 0 < fallback \<Longrightarrow> 0 < n"
  by (auto simp: positive_env_def bench_bind_Inr_iff optional_positive_env_def
      split: option.splits env_var.splits if_splits)

lemmas bench_defaults = DEFAULT_SAMPLES_def DEFAULT_SEQUENTIAL_OPERATIONS_def DEFAULT_CONCURRENCY_def
  DEFAULT_CONCURRENT_OPERATIONS_def DEFAULT_DRAIN_DATABASES_def DEFAULT_REPRESENTATIVE_ROWS_def
  DEFAULT_CONNECTION_BUDGET_def DEFAULT_DOWNSTREAM_POOL_SIZE_def DEFAULT_PREWARM_DATABASES_def

definition bench_counts :: "benchmark_config \<Rightarrow> nat list" where
  "bench_counts c = [bc_samples c, bc_sequential_operations c, bc_concurrency c, bc_concurrent_operations c,
     bc_drain_databases c, bc_representative_rows c, bc_connection_budget c, bc_downstream_pool_size c,
     bc_prewarm_databases c]"

lemma from_environment_Inr:
  assumes "from_environment env output project = Inr c"
  shows "bench_validate c = Inr c \<and> list_all ((<) 0) (bench_counts c)"
  using assms unfolding from_environment_def Let_def
proof (elim bench_bindE)
  fix mode per_database profile a b d e f g h i j
  assume reads: "positive_env env ''PTH_PERF_SAMPLES'' DEFAULT_SAMPLES = Inr a"
    "positive_env env ''PTH_PERF_SEQUENTIAL_OPERATIONS'' DEFAULT_SEQUENTIAL_OPERATIONS = Inr b"
    "positive_env env ''PTH_PERF_CONCURRENCY'' DEFAULT_CONCURRENCY = Inr d"
    "positive_env env ''PTH_PERF_CONCURRENT_OPERATIONS'' DEFAULT_CONCURRENT_OPERATIONS = Inr e"
    "positive_env env ''PTH_PERF_DRAIN_DATABASES'' DEFAULT_DRAIN_DATABASES = Inr f"
    "positive_env env ''PTH_PERF_REPRESENTATIVE_ROWS'' DEFAULT_REPRESENTATIVE_ROWS = Inr g"
    "positive_env env ''PTH_PERF_CONNECTION_BUDGET'' DEFAULT_CONNECTION_BUDGET = Inr h"
    "positive_env env ''PTH_PERF_DOWNSTREAM_POOL_SIZE'' DEFAULT_DOWNSTREAM_POOL_SIZE = Inr i"
    "positive_env env ''PTH_PERF_PREWARM_DATABASES'' DEFAULT_PREWARM_DATABASES = Inr j"
  assume valid: "bench_validate \<lparr>bc_project = project, bc_mode = mode,
      bc_image = (case env POSTGRES_TEST_IMAGE_ENV of Var_text i \<Rightarrow> i | _ \<Rightarrow> DEFAULT_IMAGE),
      bc_owned_container_profile = profile, bc_output = output, bc_samples = a, bc_sequential_operations = b,
      bc_concurrency = d, bc_concurrent_operations = e, bc_drain_databases = f, bc_representative_rows = g,
      bc_connection_budget = h, bc_connections_per_database_override = per_database, bc_downstream_pool_size = i,
      bc_prewarm_databases = j\<rparr> = Inr c" (is "bench_validate ?c = _")
  then have c: "c = ?c" by (simp add: bench_validate_Inr_iff)
  have "0 < a" "0 < b" "0 < d" "0 < e" "0 < f" "0 < g" "0 < h" "0 < i" "0 < j"
    using reads by (auto simp: bench_defaults dest: positive_env_pos)
  with valid show ?thesis by (simp add: c bench_counts_def)
qed

lemma bench_limits_budget: "bench_limits c = Inr l \<Longrightarrow> connection_budget l = bc_connection_budget c"
  unfolding bench_limits_def bench_harness_config_chain
  by (elim bench_bindE)
     (auto simp: bench_builders_def bind_result_Inr_iff resolve_connection_limits_def Let_def with_connection_budget_def
      with_cleanup_on_start_def with_connections_per_database_def with_image_def with_owned_container_profile_def
      split: option.splits if_splits server_mode.splits)

section \<open>Properties\<close>

lemma bench_defaults_accepted:
  "\<exists>c. from_environment (\<lambda>_. Var_unset) None ''a'' = Inr c \<and> bc_mode c = Mode_owned"
proof -
  have project: "ProjectName_new ''a'' = Inr (ProjectName ''a'')" by code_simp
  have "\<not> is_err (ImageReference_parse DEFAULT_IMAGE)" by code_simp
  then have img: "\<exists>i. ImageReference_parse DEFAULT_IMAGE = Inr i"
    by (cases "ImageReference_parse DEFAULT_IMAGE") simp_all
  show ?thesis
    using project img
    by (auto simp: from_environment_def mode_from_admin_url_environment_def per_database_override_def
        optional_positive_env_def positive_env_def owned_container_profile_from_environment_def boolean_env_def
        bench_validate_Inr_iff bench_limits_def bench_harness_config_def HarnessConfig_new_def bench_from_def Let_def
        with_startup_timeout_def with_operation_timeout_def with_template_wait_timeout_def with_connection_budget_def
        with_cleanup_on_start_def with_image_def with_owned_container_profile_def validate_postgres_timeout_iff
        validate_millisecond_timeout_def postgres_timeout_ok_def resolve_connection_limits_def
        max_simultaneous_leases_def bench_defaults DEFAULT_CONNECTIONS_PER_DATABASE_def BENCH_STARTUP_TIMEOUT_def
        BENCH_OPERATION_TIMEOUT_def BENCH_TEMPLATE_WAIT_TIMEOUT_def std_defs i32_max_def u32_max_def)
qed

text \<open>C37: A benchmark configuration that the environment yields is well-formed: every count is positive and
  the connection limits resolve to the configured budget. Concurrency, drained and prewarmed databases
  fit the number of simultaneous leases, so that all downstream pools together stay within the
  connection budget, each worker has an operation, there are at least two prewarmed databases, and
  the configuration report is built without a panic from the same limits.\<close>

theorem benchmark_config_valid:
  assumes "from_environment env output project = Inr c"
  shows "\<exists>limits report. bench_limits c = Inr limits \<and> wf_limits limits
     \<and> connection_budget limits = bc_connection_budget c \<and> list_all ((<) 0) (bench_counts c)
     \<and> bc_concurrency c \<le> max_simultaneous_leases limits \<and> bc_drain_databases c \<le> max_simultaneous_leases limits
     \<and> 2 \<le> bc_prewarm_databases c \<and> bc_prewarm_databases c \<le> max_simultaneous_leases limits
     \<and> bc_concurrency c \<le> bc_concurrent_operations c
     \<and> bc_concurrency c * bc_downstream_pool_size c \<le> bc_connection_budget c
     \<and> bench_report c = Return report
     \<and> cr_max_simultaneous_leases report = max_simultaneous_leases limits"
proof -
  from from_environment_Inr[OF assms] obtain limits where limits: "bench_limits c = Inr limits"
    and counts: "list_all ((<) 0) (bench_counts c)"
    and le: "bc_concurrency c \<le> max_simultaneous_leases limits" "bc_drain_databases c \<le> max_simultaneous_leases limits"
      "bc_prewarm_databases c \<le> max_simultaneous_leases limits" "2 \<le> bc_prewarm_databases c"
      "bc_concurrency c \<le> bc_concurrent_operations c"
      "bc_downstream_pool_size c \<le> connections_per_database limits"
    by (auto simp: bench_validate_Inr_iff)
  have "bc_concurrency c * bc_downstream_pool_size c \<le> max_simultaneous_leases limits * connections_per_database limits"
    using le by (intro mult_le_mono) simp_all
  also have "\<dots> \<le> connection_budget limits" by (rule max_leases_within_budget)
  finally show ?thesis
    using limits counts le bench_limits_wf[OF limits] bench_limits_budget[OF limits] by (simp add: bench_report_def)
qed

theorem benchmark_config_valid_witness:
  "\<exists>c. from_environment (\<lambda>_. Var_unset) None ''a'' = Inr c \<and> bc_mode c = Mode_owned
     \<and> bc_concurrency c * bc_downstream_pool_size c \<le> bc_connection_budget c"
  using bench_defaults_accepted benchmark_config_valid by blast

end
