(* ===== verification/Benchmark_Cleanup.thy ===== *)
theory Benchmark_Cleanup
  imports Benchmark_Config Container_Properties Stale Request_Invariants Demo_Server
begin

text \<open>
  The benchmark's sweep of an external server after each sample (\<open>cleanup_external_resources\<close> of
  \<open>examples/performance.rs\<close>): stale cleanups repeated with a growing delay until nothing is in use or the
  retry window is over.
\<close>

section \<open>Backoff and reports\<close>

record retry_backoff =
  rb_next :: duration
  rb_maximum :: duration

text \<open>The debug assertions, a positive initial delay within the maximum, hold for the two constants used.\<close>

lemma backoff_constants:
  "0 < EXTERNAL_CLEANUP_INITIAL_RETRY_INTERVAL"
  "EXTERNAL_CLEANUP_INITIAL_RETRY_INTERVAL \<le> EXTERNAL_CLEANUP_MAX_RETRY_INTERVAL"
  by (simp_all add: EXTERNAL_CLEANUP_INITIAL_RETRY_INTERVAL_def EXTERNAL_CLEANUP_MAX_RETRY_INTERVAL_def std_defs)

definition RetryBackoff_new :: "duration \<Rightarrow> duration \<Rightarrow> retry_backoff" where
  "RetryBackoff_new initial maximum = \<lparr>rb_next = initial, rb_maximum = maximum\<rparr>"

definition next_delay :: "retry_backoff \<Rightarrow> duration \<times> retry_backoff" where
  "next_delay self =
     (rb_next self, self\<lparr>rb_next := min (min (2 * rb_next self) duration_max) (rb_maximum self)\<rparr>)"

record external_cleanup_report =
  er_elapsed_ns :: nat
  er_attempts :: "cleanup_report list"
  er_dropped_test_databases :: nat
  er_dropped_templates :: nat

definition from_attempts :: "duration \<Rightarrow> cleanup_report list \<Rightarrow> external_cleanup_report" where
  "from_attempts elapsed attempts =
     \<lparr>er_elapsed_ns = elapsed, er_attempts = attempts,
      er_dropped_test_databases = sum_list (map dropped_test_databases attempts),
      er_dropped_templates = sum_list (map dropped_templates attempts)\<rparr>"

definition validate_external_sweep :: "external_cleanup_report \<Rightarrow> string \<Rightarrow> unit bench_result exec" where
  "validate_external_sweep report project =
     (if er_attempts report = [] then Panic ''external cleanup always records at least one attempt''
      else let final_attempt = last (er_attempts report)
           in if skipped_fresh final_attempt = 0 \<and> skipped_unrecognized final_attempt = 0 then Return (Inr ())
              else Return (Inl (Bench_left_behind project (skipped_active final_attempt) (skipped_fresh final_attempt)
                     (skipped_unrecognized final_attempt))))"

definition validate_completed_external_cleanup ::
  "external_cleanup_report \<Rightarrow> string \<Rightarrow> nat \<Rightarrow> unit bench_result" where
  "validate_completed_external_cleanup report project expected_templates =
     (if er_dropped_test_databases report = 0 \<and> er_dropped_templates report = expected_templates then Inr ()
      else Inl (Bench_unexpected_drops project (er_dropped_test_databases report) (er_dropped_templates report)
             expected_templates))"

section \<open>The sweep\<close>

text \<open>
  \<open>unix_now\<close> reads the wall clock that decides which databases are stale, \<open>sleep_until\<close> is the timer of
  the runtime.
\<close>

definition external_cleanup_body ::
  "'w backend \<Rightarrow> 'u url_api \<Rightarrow> ('w \<Rightarrow> nat) \<Rightarrow> (nat \<Rightarrow> 'w \<Rightarrow> 'w) \<Rightarrow> string \<Rightarrow> string \<Rightarrow> nat \<Rightarrow> nat
     \<Rightarrow> cleanup_report list \<times> retry_backoff \<times> 'w io_state
     \<Rightarrow> (external_cleanup_report bench_result exec \<times> 'w io_state) + (cleanup_report list \<times> retry_backoff \<times> 'w io_state)" where
  "external_cleanup_body be api unix_now sleep_until admin_url project started retry_deadline st =
     (case st of (attempts, backoff, s) \<Rightarrow>
        (case cleanup_stale_databases be api admin_url project 0 (unix_now (world s)) s of
           (Panic m, t) \<Rightarrow> Inl (Panic m, t)
         | (Return (Inl e), t) \<Rightarrow> Inl (Return (Inl (Bench_harness e)), t)
         | (Return (Inr cleanup), t) \<Rightarrow>
             (let attempts = attempts @ [cleanup]; (now, w) = be_now be (world t)
              in if skipped_active cleanup = 0 then
                   (let report = from_attempts (now - started) attempts
                    in Inl (bind_exec (validate_external_sweep report project)
                              (\<lambda>valid. Return (bench_bind valid (\<lambda>_. Inr report))), t\<lparr>world := w\<rparr>))
                 else if now \<ge> retry_deadline then
                   Inl (Return (Inl (Bench_still_active project (skipped_active cleanup) (length attempts))), t\<lparr>world := w\<rparr>)
                 else
                   (let (delay, backoff) = next_delay backoff; (now, w) = be_now be w
                    in Inr (attempts, backoff, t\<lparr>world := sleep_until (min (now + delay) retry_deadline) w\<rparr>)))))"

definition cleanup_external_resources ::
  "'w backend \<Rightarrow> 'u url_api \<Rightarrow> ('w \<Rightarrow> nat) \<Rightarrow> (nat \<Rightarrow> 'w \<Rightarrow> 'w) \<Rightarrow> string \<Rightarrow> string \<Rightarrow> 'w io_state
     \<Rightarrow> (external_cleanup_report bench_result exec \<times> 'w io_state) option" where
  "cleanup_external_resources be api unix_now sleep_until admin_url project s =
     (let (started, w1) = be_now be (world s); (now, w2) = be_now be w1
      in rust_loop (external_cleanup_body be api unix_now sleep_until admin_url project started
                      (now + EXTERNAL_CLEANUP_RETRY_WINDOW))
           ([], RetryBackoff_new EXTERNAL_CLEANUP_INITIAL_RETRY_INTERVAL EXTERNAL_CLEANUP_MAX_RETRY_INTERVAL,
            s\<lparr>world := w2\<rparr>))"

section \<open>What a stale cleanup preserves\<close>

lemma preserves_run_blocking [preserves_intros]: "preserves P m \<Longrightarrow> preserves P (run_blocking m)"
  by (auto simp: preserves_def run_blocking_def case_prod_beta Let_def) (metis prod.collapse)

lemma preserves_prod [preserves_intros]: "(\<And>x y. preserves P (f x y)) \<Longrightarrow> preserves P (case v of (x, y) \<Rightarrow> f x y)"
  by (cases v) simp

lemma preserves_classification [preserves_intros]:
  assumes "preserves P e" "preserves P f" "preserves P g" "\<And>n k. preserves P (h n k)"
  shows "preserves P (case cls of Ignore \<Rightarrow> e | Unrecognized \<Rightarrow> f | Fresh \<Rightarrow> g | Candidate n k \<Rightarrow> h n k)"
  using assms by (cases cls) auto

lemma stale_cleanup_preserves:
  assumes connect: "\<And>u ct rt op. preserves P (AdminClient_connect be u ct rt op)"
    and batch: "\<And>c t op q. preserves P (batch_execute_with_timeout be c t op q)"
    and query: "\<And>c op q ps. preserves P (client_query be c op q ps)"
    and one: "\<And>c op q ps. preserves P (query_one be c op q ps)"
    and opt: "\<And>c op q ps. preserves P (query_opt be c op q ps)"
  shows "preserves P (cleanup_stale_databases be api url project stale now)"
proof -
  have simple: "preserves P (batch_execute be c op q)" for c op q unfolding batch_execute_def by (rule batch)
  have locked: "preserves P (cleanup_candidate_after_lock be c p rec k now stale report)" for c p rec k report
    unfolding cleanup_candidate_after_lock_def find_database_def drop_database_def
    by (intro preserves_intros opt simple)
  have finish: "preserves P u \<Longrightarrow> preserves P (finish_locked_cleanup r u)" for r :: "'z result" and u
    unfolding finish_locked_cleanup_def by (intro preserves_intros)
  have one_record: "preserves P (cleanup_record be c p now stale rec report)" for c p rec report
    unfolding cleanup_record_def try_acquire_advisory_lock_def release_advisory_lock_def
    by (intro preserves_intros one locked finish)
  have records: "preserves P (cleanup_records be c p now stale recs report)" for c p recs report
    by (induction recs arbitrary: report) (auto intro: preserves_intros one_record)
  show ?thesis
    unfolding cleanup_stale_databases_def cleanup_stale_with_def cleanup_stale_blocking_def connect_admin_def
      connect_admin_with_timeout_def configure_session_timeouts_def configure_session_timeouts_with_timeout_def
      validate_postgres_18_def list_databases_def
    by (intro preserves_intros connect batch simple query one records)
qed

lemma stale_cleanup_no_panic: "fst (cleanup_stale_databases be api url project stale now s) \<noteq> Panic m"
  by (simp add: cleanup_stale_databases_def cleanup_stale_with_def io_bind_def io_result_def run_blocking_def
      case_prod_beta split: sum.split)

section \<open>Time passes\<close>

text \<open>
  What the sweep relies on: a clock reading lies between the times before and after it, no request goes
  back in time, and a sleep lasts until its wake-up time.
\<close>

definition sweep_clock :: "'w backend \<Rightarrow> (nat \<Rightarrow> 'w \<Rightarrow> 'w) \<Rightarrow> ('w \<Rightarrow> nat) \<Rightarrow> bool" where
  "sweep_clock be sleep_until time \<longleftrightarrow>
     (\<forall>w. time w \<le> fst (be_now be w) \<and> fst (be_now be w) \<le> time (snd (be_now be w)))
   \<and> (\<forall>w u t. time w \<le> time (snd (be_connect be u t w)))
   \<and> (\<forall>w c t q. time w \<le> time (snd (be_batch be c t q w)))
   \<and> (\<forall>w c t q ps. time w \<le> time (snd (be_query be c t q ps w)))
   \<and> (\<forall>w c t q ps. time w \<le> time (snd (be_query_one be c t q ps w)))
   \<and> (\<forall>w c t q ps. time w \<le> time (snd (be_query_opt be c t q ps w)))
   \<and> (\<forall>w T. T \<le> time (sleep_until T w))"

lemma sweep_clockD:
  assumes "sweep_clock be sleep_until time"
  shows "time w \<le> fst (be_now be w)" "fst (be_now be w) \<le> time (snd (be_now be w))"
    "time w \<le> time (snd (be_connect be u t w))" "time w \<le> time (snd (be_batch be c t q w))"
    "time w \<le> time (snd (be_query be c t q ps w))" "time w \<le> time (snd (be_query_one be c t q ps w))"
    "time w \<le> time (snd (be_query_opt be c t q ps w))" "T \<le> time (sleep_until T w)"
  using assms by (auto simp: sweep_clock_def)

lemma sweep_time:
  assumes "sweep_clock be sleep_until time"
  shows "preserves (not_before time T) (cleanup_stale_databases be api url project stale now)"
  using sweep_clockD(3-7)[OF assms]
  by (intro stale_cleanup_preserves)
     (auto simp: preserves_def not_before_def AdminClient_connect_def request_defs Let_def case_prod_beta
       split: connect_reply.splits intro: order_trans)

section \<open>The delays grow to their maximum\<close>

definition sweep_delay :: "nat \<Rightarrow> duration" where
  "sweep_delay k = min (from_millis (25 * 2 ^ k)) (from_secs 1)"

lemma sweep_delay_next: "min (min (2 * sweep_delay k) duration_max) (from_secs 1) = sweep_delay (Suc k)"
  by (auto simp: sweep_delay_def std_defs duration_max_def min_def)

fun sweep_slept :: "nat \<Rightarrow> duration" where
  "sweep_slept 0 = 0"
| "sweep_slept (Suc k) = sweep_slept k + sweep_delay k"

lemma sweep_slept_start: "sweep_slept 6 = from_millis 1575"
proof -
  have "(6::nat) = Suc (Suc (Suc (Suc (Suc (Suc 0)))))" by simp
  then have "sweep_slept 6 = sweep_slept (Suc (Suc (Suc (Suc (Suc (Suc 0))))))" by (simp only:)
  also have "\<dots> = from_millis 1575" by (simp add: sweep_delay_def from_millis_def from_secs_def)
  finally show ?thesis .
qed

lemma sweep_slept_late: "sweep_slept (6 + j) = from_millis 1575 + j * from_secs 1"
proof (induction j)
  case 0
  show ?case by (simp add: sweep_slept_start)
next
  case (Suc j)
  have "(1::nat) \<le> 2 ^ j" by simp
  then have "from_secs 1 \<le> from_millis (25 * (64 * 2 ^ j))" unfolding from_secs_def from_millis_def by linarith
  then have "sweep_delay (6 + j) = from_secs 1" by (simp add: sweep_delay_def power_add)
  with Suc show ?case unfolding add_Suc_right sweep_slept.simps by simp
qed

lemma sweep_attempts_bound:
  assumes "sweep_slept k < EXTERNAL_CLEANUP_RETRY_WINDOW" shows "k < 125"
proof (rule ccontr)
  assume "\<not> k < 125"
  then have k: "k = 6 + (k - 6)" "119 \<le> k - 6" by linarith+
  have "sweep_slept (6 + (k - 6)) < EXTERNAL_CLEANUP_RETRY_WINDOW" using assms k(1) by simp
  with k(2) show False unfolding sweep_slept_late EXTERNAL_CLEANUP_RETRY_WINDOW_def from_secs_def from_millis_def
    by linarith
qed

section \<open>The loop\<close>

text \<open>
  Before every pass the clock shows at least the time slept so far, or the deadline is over; every
  attempt so far left active databases behind.
\<close>

definition sweep_inv ::
  "'w backend \<Rightarrow> (nat \<Rightarrow> 'w \<Rightarrow> 'w) \<Rightarrow> ('w \<Rightarrow> nat) \<Rightarrow> nat \<Rightarrow> cleanup_report list \<times> retry_backoff \<times> 'w io_state \<Rightarrow> bool" where
  "sweep_inv be sleep_until time begun st \<longleftrightarrow>
     (case st of (attempts, backoff, s) \<Rightarrow>
        sweep_clock be sleep_until time
      \<and> min (begun + sweep_slept (length attempts)) (begun + EXTERNAL_CLEANUP_RETRY_WINDOW) \<le> time (world s)
      \<and> backoff = \<lparr>rb_next = sweep_delay (length attempts), rb_maximum = from_secs 1\<rparr>
      \<and> length attempts \<le> 125 \<and> list_all (\<lambda>r. skipped_active r \<noteq> 0) attempts)"

definition sweep_bound :: "cleanup_report list \<times> retry_backoff \<times> 'w io_state \<Rightarrow> nat" where
  "sweep_bound st = 126 - length (fst st)"

lemma sweep_again:
  assumes "sweep_inv be sleep_until time begun st"
    and "external_cleanup_body be api unix_now sleep_until url project started
           (begun + EXTERNAL_CLEANUP_RETRY_WINDOW) st = Inr st'"
  shows "sweep_inv be sleep_until time begun st' \<and> sweep_bound st' < sweep_bound st"
proof -
  obtain attempts backoff s where st: "st = (attempts, backoff, s)" by (cases st) auto
  let ?k = "length attempts" and ?deadline = "begun + EXTERNAL_CLEANUP_RETRY_WINDOW"
  from assms(1) have laws: "sweep_clock be sleep_until time"
    and before: "min (begun + sweep_slept ?k) ?deadline \<le> time (world s)"
    and backoff: "backoff = \<lparr>rb_next = sweep_delay ?k, rb_maximum = from_secs 1\<rparr>"
    and active: "list_all (\<lambda>r. skipped_active r \<noteq> 0) attempts"
    by (auto simp: sweep_inv_def st)
  note law = sweep_clockD[OF laws]
  obtain cleanup t where c: "cleanup_stale_databases be api url project 0 (unix_now (world s)) s = (Return (Inr cleanup), t)"
    using assms(2) by (auto simp: external_cleanup_body_def st split: prod.splits exec.splits sum.splits)
  let ?w = "snd (be_now be (world t))"
  let ?now = "fst (be_now be ?w)"
  from assms(2) c have early: "fst (be_now be (world t)) < ?deadline" and skipped: "skipped_active cleanup \<noteq> 0"
    by (auto simp: external_cleanup_body_def st Let_def case_prod_beta split: if_splits)
  with assms(2) c have st': "st' = (attempts @ [cleanup], \<lparr>rb_next = sweep_delay (Suc ?k), rb_maximum = from_secs 1\<rparr>,
      t\<lparr>world := sleep_until (min (?now + sweep_delay ?k) ?deadline) (snd (be_now be ?w))\<rparr>)"
    by (auto simp: external_cleanup_body_def st Let_def case_prod_beta next_delay_def backoff sweep_delay_next[simplified])
  have "time (world s) \<le> time (world t)"
    using preservesD[OF sweep_time[OF laws, of "time (world s)"] c] by (simp add: not_before_def)
  also have "\<dots> \<le> fst (be_now be (world t))" by (rule law(1))
  finally have s: "time (world s) \<le> fst (be_now be (world t))" .
  have "fst (be_now be (world t)) \<le> ?now" using law(1,2) by (meson order_trans)
  with s before early have now: "begun + sweep_slept ?k \<le> ?now" "sweep_slept ?k < EXTERNAL_CLEANUP_RETRY_WINDOW"
    by (auto simp: min_def split: if_splits)
  have "min (?now + sweep_delay ?k) ?deadline \<le> time (world (snd (snd st')))"
    using law(8) by (simp add: st')
  with now(1) have "min (begun + sweep_slept (Suc ?k)) ?deadline \<le> time (world (snd (snd st')))"
    by (auto simp: min_def split: if_splits)
  with laws active skipped sweep_attempts_bound[OF now(2)] show ?thesis
    by (simp add: sweep_inv_def sweep_bound_def st st')
qed

interpretation sweep: bounded_loop
  "external_cleanup_body be api unix_now sleep_until url project started (begun + EXTERNAL_CLEANUP_RETRY_WINDOW)"
  "sweep_inv be sleep_until time begun" sweep_bound
  for be api unix_now sleep_until url project started begun time
  by unfold_locales (rule sweep_again)

text \<open>How the last pass ends.\<close>

lemma sweep_breaks:
  assumes "sweep_inv be sleep_until time begun st"
    and "external_cleanup_body be api unix_now sleep_until url project started deadline st = Inl (r, t)"
  obtains (failed) e where "r = Return (Inl (Bench_harness e))"
    | (swept) cleanup elapsed where "skipped_active cleanup = 0"
        "r = (if skipped_fresh cleanup = 0 \<and> skipped_unrecognized cleanup = 0
              then Return (Inr (from_attempts elapsed (fst st @ [cleanup])))
              else Return (Inl (Bench_left_behind project 0 (skipped_fresh cleanup) (skipped_unrecognized cleanup))))"
    | (late) active n where "r = Return (Inl (Bench_still_active project active n))" "deadline \<le> time (world t)"
        "0 < active" "n = Suc (length (fst st))"
proof -
  obtain attempts backoff s where st: "st = (attempts, backoff, s)" by (cases st) auto
  from assms(1) have laws: "sweep_clock be sleep_until time" by (simp add: sweep_inv_def st)
  obtain v u where c: "cleanup_stale_databases be api url project 0 (unix_now (world s)) s = (Return v, u)"
    using stale_cleanup_no_panic by (metis exec.exhaust prod.collapse)
  show thesis
  proof (cases v)
    case (Inl e)
    with assms(2) c show thesis by (intro failed[of e]) (simp add: external_cleanup_body_def st)
  next
    case (Inr cleanup)
    let ?now = "fst (be_now be (world u))" and ?w = "snd (be_now be (world u))"
    show thesis
    proof (cases "skipped_active cleanup = 0")
      case True
      with assms(2) c Inr have "r = bind_exec (validate_external_sweep (from_attempts (?now - started) (attempts @ [cleanup])) project)
          (\<lambda>valid. Return (bench_bind valid (\<lambda>_. Inr (from_attempts (?now - started) (attempts @ [cleanup])))))"
        by (simp add: external_cleanup_body_def st Let_def case_prod_beta)
      then show thesis
        by (intro swept[OF True, of "?now - started"]) (simp add: validate_external_sweep_def from_attempts_def st True)
    next
      case False
      with assms(2) c Inr have late_end: "deadline \<le> ?now"
        "r = Return (Inl (Bench_still_active project (skipped_active cleanup) (Suc (length attempts))))"
        "t = u\<lparr>world := ?w\<rparr>"
        by (auto simp: external_cleanup_body_def st Let_def case_prod_beta split: if_splits)
      with False sweep_clockD(2)[OF laws, of "world u"] show thesis
        by (intro late[OF late_end(2)]) (auto simp: st intro: order_trans)
    qed
  qed
qed

section \<open>A concrete sweep\<close>

text \<open>A server whose state is the time, without managed databases.\<close>

definition empty_server :: "nat backend" where
  "empty_server = \<lparr>be_connect = (\<lambda>u d w. (Connected 1, w)), be_batch = (\<lambda>c d q w. (Replied (), w)),
     be_query = (\<lambda>c d q ps w. (Replied [], w)), be_query_one = (\<lambda>c d q ps w. (Replied [SqlInt 180001], w)),
     be_query_opt = (\<lambda>c d q ps w. (Replied None, w)), be_now = (\<lambda>w. (w, w))\<rparr>"

definition empty_start :: "nat io_state" where
  "empty_start = \<lparr>world = 0, trace = []\<rparr>"

lemma empty_clock: "sweep_clock empty_server max (\<lambda>w. w)"
  by (simp add: sweep_clock_def empty_server_def)

lemma empty_pass:
  "\<exists>t. cleanup_stale_databases empty_server demo_url_api ''url'' ''a'' 0 now s = (Return (Inr default_report), t)"
proof -
  have "ProjectName_new ''a'' = Inr (ProjectName ''a'')" by code_simp
  moreover have "AdminDatabaseUrl_parse demo_url_api ''url'' = Inr (AdminDatabaseUrl ())"
    by (simp add: AdminDatabaseUrl_parse_def demo_url_api_def)
  ultimately show ?thesis
    by (simp add: cleanup_stale_databases_def cleanup_stale_with_def cleanup_stale_blocking_def connect_admin_def
        connect_admin_with_timeout_def configure_session_timeouts_def configure_session_timeouts_with_timeout_def
        AdminClient_connect_def request_defs io_bind_def io_try_def io_result_def run_blocking_def empty_server_def
        validate_postgres_18_def list_databases_def run_admin_operation_def get_int_def column_def i32_div_def
        duration_millis_def u64_max_def std_defs LOCK_TIMEOUT_def DEFAULT_CLEANUP_OPERATION_TIMEOUT_def)
qed

section \<open>Properties\<close>

lemma sweep_start:
  assumes "sweep_clock be sleep_until time" "begun \<le> time (world s)"
  shows "sweep_inv be sleep_until time begun ([],
    RetryBackoff_new EXTERNAL_CLEANUP_INITIAL_RETRY_INTERVAL EXTERNAL_CLEANUP_MAX_RETRY_INTERVAL, s)"
  using assms by (simp add: sweep_inv_def RetryBackoff_new_def EXTERNAL_CLEANUP_INITIAL_RETRY_INTERVAL_def
      EXTERNAL_CLEANUP_MAX_RETRY_INTERVAL_def sweep_delay_def from_millis_def from_secs_def)

text \<open>C38: The benchmark's sweep of an external server ends and never panics. It makes at most 126 attempts,
  because the delays double from 25 milliseconds to one second and the retry window is two minutes.
  A sweep that succeeds left nothing active, fresh or unrecognized in its last attempt, every attempt
  before it had found an active database, and its totals add up all attempts. A sweep that fails
  reports an error of a stale cleanup, the databases its last attempt left although none was active, or
  active databases when the whole retry window has passed.\<close>

theorem external_cleanup_returns:
  assumes clock: "sweep_clock be sleep_until time"
  shows "\<exists>r t. cleanup_external_resources be api unix_now sleep_until url project s = Some (Return r, t)
   \<and> (case r of
        Inr report \<Rightarrow>
          (let attempts = er_attempts report
           in attempts \<noteq> [] \<and> length attempts \<le> 126 \<and> list_all (\<lambda>a. skipped_active a \<noteq> 0) (butlast attempts)
            \<and> skipped_active (last attempts) = 0 \<and> skipped_fresh (last attempts) = 0
            \<and> skipped_unrecognized (last attempts) = 0
            \<and> er_dropped_test_databases report = sum_list (map dropped_test_databases attempts)
            \<and> er_dropped_templates report = sum_list (map dropped_templates attempts))
      | Inl e \<Rightarrow>
          (\<exists>h. e = Bench_harness h)
        \<or> (\<exists>f u. e = Bench_left_behind project 0 f u \<and> 0 < f + u)
        \<or> (\<exists>active n. e = Bench_still_active project active n \<and> 0 < active \<and> n \<le> 126
             \<and> time (world s) + EXTERNAL_CLEANUP_RETRY_WINDOW \<le> time (world t)))"
proof -
  note law = sweep_clockD[OF clock]
  let ?w = "snd (be_now be (world s))"
  let ?begun = "fst (be_now be ?w)"
  let ?body = "external_cleanup_body be api unix_now sleep_until url project (fst (be_now be (world s)))
    (?begun + EXTERNAL_CLEANUP_RETRY_WINDOW)"
  let ?start = "([], RetryBackoff_new EXTERNAL_CLEANUP_INITIAL_RETRY_INTERVAL EXTERNAL_CLEANUP_MAX_RETRY_INTERVAL,
    s\<lparr>world := snd (be_now be ?w)\<rparr>)"
  have start: "sweep_inv be sleep_until time ?begun ?start" using law(2) by (intro sweep_start clock) simp
  from sweep.loop_returns[OF this] obtain st r t where st: "sweep_inv be sleep_until time ?begun st"
    and last: "?body st = Inl (r, t)" and loop: "rust_loop ?body ?start = Some (r, t)" by fast
  have begun: "time (world s) \<le> ?begun" using law(1,2) by (meson order_trans)
  have run: "cleanup_external_resources be api unix_now sleep_until url project s = Some (r, t)"
    using loop by (simp add: cleanup_external_resources_def case_prod_beta Let_def)
  from st have fine: "length (fst st) \<le> 125" "list_all (\<lambda>a. skipped_active a \<noteq> 0) (fst st)"
    by (auto simp: sweep_inv_def)
  from st last show ?thesis
  proof (cases rule: sweep_breaks)
    case (failed e)
    with run show ?thesis by simp
  next
    case (swept cleanup elapsed)
    with run fine show ?thesis
      by (cases "skipped_fresh cleanup = 0 \<and> skipped_unrecognized cleanup = 0")
         (auto simp: from_attempts_def Let_def)
  next
    case (late active n)
    with run fine begun show ?thesis by auto
  qed
qed

theorem external_cleanup_returns_witness:
  "\<exists>report t. cleanup_external_resources empty_server demo_url_api (\<lambda>w. w) max ''url'' ''a'' empty_start
       = Some (Return (Inr report), t) \<and> length (er_attempts report) \<le> 126"
proof -
  obtain t where t: "cleanup_stale_databases empty_server demo_url_api ''url'' ''a'' 0 0 empty_start
      = (Return (Inr default_report), t)" using empty_pass by blast
  have now: "be_now empty_server w = (w, w)" for w by (simp add: empty_server_def)
  have "\<exists>report u. cleanup_external_resources empty_server demo_url_api (\<lambda>w. w) max ''url'' ''a'' empty_start
       = Some (Return (Inr report), u)"
    using t by (simp add: cleanup_external_resources_def now rust_loop.simps external_cleanup_body_def
        default_report_def validate_external_sweep_def from_attempts_def Let_def empty_start_def)
  with external_cleanup_returns[OF empty_clock, of demo_url_api "\<lambda>w. w" "''url''" "''a''" empty_start] show ?thesis
    by (auto simp: Let_def)
qed

end
