(* ===== verification/Benchmark_Report.thy ===== *)
theory Benchmark_Report
  imports Benchmark_Cleanup "HOL-Library.RBT" "HOL-Library.Char_ord" "HOL-Library.List_Lexorder"
    "HOL-Library.Product_Lexorder" "HOL-Library.Option_ord"
begin

text \<open>
  The reports of the benchmark (\<open>examples/performance.rs\<close>, \<open>examples/performance/scenarios.rs\<close>): what a
  sample records, the comparison of strategies, and the summary over all samples. The rates in floating
  point are left out; a \<open>u128\<close> is a natural number.
\<close>

section \<open>Sessions and server metadata\<close>

text \<open>The counters are not negative, so that the difference of two of them fits an \<open>i64\<close>.\<close>

record session_snapshot =
  ss_cumulative :: int
  ss_active :: int

record session_delta =
  sd_before :: int
  sd_after :: int
  sd_delta :: int
  sd_active_after :: int

definition snapshot_delta :: "session_snapshot \<Rightarrow> session_snapshot \<Rightarrow> session_delta" where
  "snapshot_delta self after =
     \<lparr>sd_before = ss_cumulative self, sd_after = ss_cumulative after,
      sd_delta = ss_cumulative after - ss_cumulative self, sd_active_after = ss_active after\<rparr>"

record postgres_settings_report =
  ps_fsync :: bool
  ps_synchronous_commit :: string
  ps_full_page_writes :: bool
  ps_data_checksums :: bool
  ps_wal_level :: string
  ps_max_connections :: int
  ps_reserved_connections :: int
  ps_superuser_reserved_connections :: int

record server_metadata =
  sm_version :: string
  sm_version_num :: int
  sm_postmaster_started_at :: string
  sm_settings :: postgres_settings_report

text \<open>The start time of the postmaster is not compared.\<close>

definition ensure_comparable_environment :: "server_metadata \<Rightarrow> server_metadata \<Rightarrow> unit bench_result" where
  "ensure_comparable_environment self other =
     (if sm_version self = sm_version other \<and> sm_version_num self = sm_version_num other
         \<and> sm_settings self = sm_settings other
      then Inr ()
      else Inl (Bench_other ''PostgreSQL environment changed between observations''))"

section \<open>What a sample records\<close>

record timed_operation =
  to_elapsed_ns :: nat
  to_admin_sessions :: session_delta

datatype batch_execution = CallerBounded nat | ImplementationManaged
datatype completion_observation = OperationReturn | AwaitedDrainBarrier

record batch_method =
  bm_execution :: batch_execution
  bm_completion :: completion_observation

definition caller_bounded :: "nat \<Rightarrow> batch_method" where
  "caller_bounded concurrency = \<lparr>bm_execution = CallerBounded concurrency, bm_completion = OperationReturn\<rparr>"

definition implementation_managed_barrier :: batch_method where
  "implementation_managed_barrier = \<lparr>bm_execution = ImplementationManaged, bm_completion = AwaitedDrainBarrier\<rparr>"

record batch_operation =
  bo_operations :: nat
  bo_method :: batch_method
  bo_elapsed_ns :: nat
  bo_individual_elapsed_ns :: "nat list"
  bo_admin_sessions :: session_delta

record deferred_cleanup_operation =
  dc_operations :: nat
  dc_method :: batch_method
  dc_caller_return_elapsed_ns :: nat
  dc_individual_caller_return_elapsed_ns :: "nat list"
  dc_final_drain_elapsed_ns :: nat
  dc_total_elapsed_ns :: nat
  dc_admin_sessions :: session_delta

record downstream_pool_checkout_operation =
  dp_leases :: nat
  dp_eager_connections_per_lease :: nat
  dp_eager_connections_total :: nat
  dp_lease_and_connection_checkout_elapsed_ns :: nat
  dp_observed_application_sessions_at_peak :: int
  dp_cleanup_elapsed_ns :: nat
  dp_total_elapsed_ns :: nat
  dp_admin_sessions :: session_delta

record prewarmed_database_queue_operation =
  pq_capacity :: nat
  pq_initial_fill_elapsed_ns :: nat
  pq_first_lease_elapsed_ns :: nat
  pq_steady_state_lease_elapsed_ns :: "nat list"
  pq_steady_state_median_elapsed_ns :: nat
  pq_initial_ready_storage_growth_bytes :: int
  pq_refill_elapsed_ns :: nat
  pq_ready_after_refill :: nat
  pq_cleanup_elapsed_ns :: nat
  pq_total_elapsed_ns :: nat
  pq_admin_sessions :: session_delta

record fixture_report =
  fr_template_name :: string
  fr_name :: string
  fr_requested_rows :: nat
  fr_template_size_bytes :: int
  fr_cold_template_acquisition :: timed_operation
  fr_warm_template_acquisition :: timed_operation
  fr_sequential_clone_cleanup :: batch_operation
  fr_bounded_concurrent_clone_cleanup :: batch_operation
  fr_downstream_pool_checkout_spike :: downstream_pool_checkout_operation
  fr_prewarmed_database_queue :: prewarmed_database_queue_operation
  fr_explicit_cleanup_drain :: batch_operation
  fr_deferred_cleanup :: deferred_cleanup_operation

section \<open>Strategies\<close>

datatype strategy = PerTest | FlatCached | Derived

fun strategy_name :: "strategy \<Rightarrow> string" where
  "strategy_name PerTest = ''per_test''"
| "strategy_name FlatCached = ''flat_cached''"
| "strategy_name Derived = ''derived''"

definition strategy_order :: "nat \<Rightarrow> strategy list" where
  "strategy_order sample = rotate ((sample - 1) mod 3) [PerTest, FlatCached, Derived]"

record initializer_counts =
  ic_root_migrations :: nat
  ic_shared_fixtures :: nat
  ic_branch_steps :: "nat \<times> nat"

definition default_counts :: initializer_counts where
  "default_counts = \<lparr>ic_root_migrations = 0, ic_shared_fixtures = 0, ic_branch_steps = (0, 0)\<rparr>"

fun expected_counts :: "strategy \<Rightarrow> nat \<Rightarrow> initializer_counts" where
  "expected_counts PerTest tests =
     \<lparr>ic_root_migrations = 1, ic_shared_fixtures = 2 * tests, ic_branch_steps = (tests, tests)\<rparr>"
| "expected_counts FlatCached tests =
     \<lparr>ic_root_migrations = 2, ic_shared_fixtures = 2, ic_branch_steps = (1, 1)\<rparr>"
| "expected_counts Derived tests =
     \<lparr>ic_root_migrations = 1, ic_shared_fixtures = 1, ic_branch_steps = (1, 1)\<rparr>"

definition counts_validate :: "initializer_counts \<Rightarrow> strategy \<Rightarrow> nat \<Rightarrow> unit bench_result" where
  "counts_validate self strategy tests =
     (if self \<noteq> expected_counts strategy tests
      then Inl (Bench_other (strategy_name strategy @ '' setup counts'')) else Inr ())"

record template_storage =
  ts_database_name :: string
  ts_role :: string
  ts_size_bytes :: int

record strategy_report =
  sy_strategy :: strategy
  sy_construction_ns :: nat
  sy_root_acquisition_ns :: "nat option"
  sy_warm_acquisition_ns :: nat
  sy_lease_acquisition_ns :: nat
  sy_repeated_test_setup_ns :: nat
  sy_test_lifecycles_ns :: nat
  sy_cleanup_ns :: nat
  sy_drain_ns :: nat
  sy_total_ns :: nat
  sy_initializer_counts :: initializer_counts
  sy_templates :: "template_storage list"
  sy_template_storage_bytes :: int

definition strategy_metrics :: "strategy_report \<Rightarrow> (string \<times> nat) list" where
  "strategy_metrics self =
     (let timings =
        [(''construction'', sy_construction_ns self), (''warm_acquisition'', sy_warm_acquisition_ns self),
         (''lease_acquisition'', sy_lease_acquisition_ns self),
         (''repeated_test_setup'', sy_repeated_test_setup_ns self),
         (''test_lifecycles'', sy_test_lifecycles_ns self), (''cleanup'', sy_cleanup_ns self),
         (''drain'', sy_drain_ns self), (''total'', sy_total_ns self)]
        @ (case sy_root_acquisition_ns self of None \<Rightarrow> [] | Some root \<Rightarrow> [(''root_acquisition'', root)])
      in map (\<lambda>(metric, v). (''scenario_'' @ strategy_name (sy_strategy self) @ ''_'' @ metric, v)) timings)"

record scenario_reuse_report =
  sc_branch_count :: nat
  sc_tests_per_branch :: nat
  sc_shared_rows :: nat
  sc_test_lifecycles_per_strategy :: nat
  sc_strategies :: "strategy_report list"

record startup_report =
  st_elapsed_ns :: nat
  st_admin_sessions_after_observer_connect :: session_snapshot

record readiness_report =
  rr_postmaster_started_at :: string
  rr_container_image_content_id :: "string option"
  rr_postgres_version :: string
  rr_postgres_version_num :: int
  rr_postgres_settings :: postgres_settings_report

record sample_report =
  sa_sample :: nat
  sa_server_startup :: startup_report
  sa_readiness :: readiness_report
  sa_fixtures :: "fixture_report list"
  sa_scenario_reuse :: scenario_reuse_report
  sa_external_stale_cleanup :: "external_cleanup_report option"

definition template_names :: "sample_report \<Rightarrow> string set" where
  "template_names self =
     set (map fr_template_name (sa_fixtures self)
          @ concat (map (\<lambda>strategy. map ts_database_name (sy_templates strategy)) (sc_strategies (sa_scenario_reuse self))))"

section \<open>Summaries\<close>

record summary_report =
  sr_metric :: string
  sr_fixture :: "string option"
  sr_observations :: nat
  sr_min_ns :: nat
  sr_median_ns :: nat
  sr_mean_ns :: nat
  sr_max_ns :: nat

text \<open>The values are sorted in place: the second component.\<close>

definition median_nanoseconds :: "nat list \<Rightarrow> (nat \<times> nat list) exec" where
  "median_nanoseconds values =
     (if values = [] then Panic ''a latency median needs observations''
      else let values = sort values; n = length values
           in if even n
              then let upper = values ! (n div 2); lower = values ! (n div 2 - 1)
                   in Return (lower + (upper - lower) div 2, values)
              else Return (values ! (n div 2), values))"

text \<open>The median fails on no observations, before any index or division does.\<close>

definition summary_report_of :: "string \<Rightarrow> string option \<Rightarrow> nat list \<Rightarrow> summary_report exec" where
  "summary_report_of metric fixture values =
     (let observations = length values
      in bind_exec (median_nanoseconds values) (\<lambda>(median_ns, values). Return
           \<lparr>sr_metric = metric, sr_fixture = fixture, sr_observations = observations, sr_min_ns = values ! 0,
            sr_median_ns = median_ns, sr_mean_ns = sum_list values div observations,
            sr_max_ns = values ! (observations - 1)\<rparr>))"

definition fixture_metrics :: "fixture_report \<Rightarrow> (string \<times> nat) list" where
  "fixture_metrics fixture =
     (let queue = fr_prewarmed_database_queue fixture; deferred = fr_deferred_cleanup fixture;
          spike = fr_downstream_pool_checkout_spike fixture
      in [(''cold_template_acquisition'', to_elapsed_ns (fr_cold_template_acquisition fixture)),
          (''warm_template_acquisition'', to_elapsed_ns (fr_warm_template_acquisition fixture)),
          (''sequential_clone_cleanup'', bo_elapsed_ns (fr_sequential_clone_cleanup fixture)),
          (''bounded_concurrent_clone_cleanup'', bo_elapsed_ns (fr_bounded_concurrent_clone_cleanup fixture)),
          (''downstream_pool_checkout_spike'', dp_lease_and_connection_checkout_elapsed_ns spike),
          (''downstream_pool_checkout_spike_total'', dp_total_elapsed_ns spike),
          (''prewarmed_database_queue_initial_fill'', pq_initial_fill_elapsed_ns queue),
          (''prewarmed_database_queue_first_lease'', pq_first_lease_elapsed_ns queue),
          (''prewarmed_database_queue_steady_lease'', pq_steady_state_median_elapsed_ns queue),
          (''prewarmed_database_queue_refill'', pq_refill_elapsed_ns queue),
          (''prewarmed_database_queue_total'', pq_total_elapsed_ns queue),
          (''explicit_cleanup_drain'', bo_elapsed_ns (fr_explicit_cleanup_drain fixture)),
          (''deferred_cleanup_caller_return'', dc_caller_return_elapsed_ns deferred),
          (''deferred_cleanup_final_drain'', dc_final_drain_elapsed_ns deferred),
          (''deferred_cleanup_total'', dc_total_elapsed_ns deferred)])"

text \<open>The observations are an ordered map of vectors: \<open>entry(key).or_default().push(value)\<close>.\<close>

type_synonym metric_key = "string \<times> string option"

definition observe :: "metric_key \<Rightarrow> nat \<Rightarrow> (metric_key, nat list) RBT.rbt \<Rightarrow> (metric_key, nat list) RBT.rbt" where
  "observe k v m = RBT.insert k ((case RBT.lookup m k of None \<Rightarrow> [] | Some vs \<Rightarrow> vs) @ [v]) m"

definition observe_sample :: "sample_report \<Rightarrow> (metric_key, nat list) RBT.rbt \<Rightarrow> (metric_key, nat list) RBT.rbt" where
  "observe_sample sample observations =
     (let observations = observe (''server_startup'', None) (st_elapsed_ns (sa_server_startup sample)) observations;
          observations = fold (\<lambda>strategy. fold (\<lambda>(metric, v). observe (metric, None) v) (strategy_metrics strategy))
            (sc_strategies (sa_scenario_reuse sample)) observations
      in fold (\<lambda>fixture. fold (\<lambda>(metric, v). observe (metric, Some (fr_name fixture)) v) (fixture_metrics fixture))
           (sa_fixtures sample) observations)"

fun collect_exec :: "('a \<Rightarrow> 'b exec) \<Rightarrow> 'a list \<Rightarrow> 'b list exec" where
  "collect_exec f [] = Return []"
| "collect_exec f (x # xs) = bind_exec (f x) (\<lambda>y. bind_exec (collect_exec f xs) (\<lambda>ys. Return (y # ys)))"

definition summarize :: "sample_report list \<Rightarrow> summary_report list exec" where
  "summarize samples =
     collect_exec (\<lambda>((metric, fixture), values). summary_report_of metric fixture values)
       (RBT.entries (fold observe_sample samples RBT.empty))"

section \<open>Grouping\<close>

text \<open>The reference: every measurement in the order it is recorded, with its key.\<close>

definition recorded_sample :: "sample_report \<Rightarrow> (metric_key \<times> nat) list" where
  "recorded_sample sample =
     ((''server_startup'', None), st_elapsed_ns (sa_server_startup sample))
     # concat (map (\<lambda>strategy. map (\<lambda>(metric, v). ((metric, None), v)) (strategy_metrics strategy))
         (sc_strategies (sa_scenario_reuse sample)))
     @ concat (map (\<lambda>fixture. map (\<lambda>(metric, v). ((metric, Some (fr_name fixture)), v)) (fixture_metrics fixture))
         (sa_fixtures sample))"

definition recorded :: "sample_report list \<Rightarrow> (metric_key \<times> nat) list" where
  "recorded samples = concat (map recorded_sample samples)"

definition values_of :: "metric_key \<Rightarrow> (metric_key \<times> nat) list \<Rightarrow> nat list" where
  "values_of k obs = map snd (filter (\<lambda>(k', v). k' = k) obs)"

lemma values_of_simps [simp]:
  "values_of k [] = []" "values_of k ((k', v) # obs) = (if k' = k then [v] else []) @ values_of k obs"
  by (simp_all add: values_of_def)

lemma fold_concat_map: "fold f (concat (map h xs)) = fold (\<lambda>x. fold f (h x)) xs"
  by (induction xs) (auto simp: fun_eq_iff)

lemma observe_sample_recorded: "observe_sample sample = fold (\<lambda>(k, v). observe k v) (recorded_sample sample)"
  by (rule ext) (simp add: observe_sample_def recorded_sample_def Let_def fold_concat_map fold_map comp_def case_prod_unfold)

lemma observations_recorded:
  "fold observe_sample samples = fold (\<lambda>(k, v). observe k v) (recorded samples)"
  by (simp add: recorded_def fold_concat_map observe_sample_recorded[abs_def])

lemma lookup_observations:
  "RBT.lookup (fold (\<lambda>(k, v). observe k v) obs m) k =
     (case RBT.lookup m k of
        None \<Rightarrow> if values_of k obs = [] then None else Some (values_of k obs)
      | Some vs \<Rightarrow> Some (vs @ values_of k obs))"
proof (induction obs arbitrary: m)
  case (Cons o1 obs)
  obtain k' v where [simp]: "o1 = (k', v)" by fastforce
  have "RBT.lookup (observe k' v m) k =
      (if k = k' then Some ((case RBT.lookup m k of None \<Rightarrow> [] | Some vs \<Rightarrow> vs) @ [v]) else RBT.lookup m k)"
    by (simp add: observe_def)
  then show ?case by (simp add: Cons split: option.split)
qed (simp split: option.split)

section \<open>The order of the strategies\<close>

text \<open>Three consecutive samples put every strategy at every position once.\<close>

lemma strategy_order_balanced:
  assumes "position < 3"
  shows "{strategy_order (3 * k + 1) ! position, strategy_order (3 * k + 2) ! position,
     strategy_order (3 * k + 3) ! position} = UNIV"
proof -
  have turned: "rotate 0 [PerTest, FlatCached, Derived] = [PerTest, FlatCached, Derived]"
    "rotate 1 [PerTest, FlatCached, Derived] = [FlatCached, Derived, PerTest]"
    "rotate 2 [PerTest, FlatCached, Derived] = [Derived, PerTest, FlatCached]" by code_simp+
  have "3 * k + 1 - 1 = 0 + 3 * k" "3 * k + 2 - 1 = 1 + 3 * k" "3 * k + 3 - 1 = 2 + 3 * k" by linarith+
  then have "(3 * k + 1 - 1) mod 3 = 0" "(3 * k + 2 - 1) mod 3 = 1" "(3 * k + 3 - 1) mod 3 = 2"
    by (simp_all only: mod_mult_self2) simp_all
  then have orders: "strategy_order (3 * k + 1) = [PerTest, FlatCached, Derived]"
    "strategy_order (3 * k + 2) = [FlatCached, Derived, PerTest]"
    "strategy_order (3 * k + 3) = [Derived, PerTest, FlatCached]"
    by (simp_all only: strategy_order_def turned)
  have "UNIV = {PerTest, FlatCached, Derived}" using strategy.exhaust by auto
  moreover have "position = 0 \<or> position = 1 \<or> position = 2" using assms by auto
  ultimately show ?thesis unfolding orders by auto
qed

section \<open>Order statistics\<close>

lemma sorted_count_le:
  assumes "sorted xs" "i < length xs" "xs ! i \<le> m" shows "Suc i \<le> length (filter (\<lambda>x. x \<le> m) xs)"
proof -
  have "\<forall>x \<in> set (take (Suc i) xs). x \<le> m"
    using assms by (auto simp: in_set_conv_nth less_Suc_eq_le intro!: order_trans[OF _ assms(3)] sorted_nth_mono)
  then have "Suc i = length (filter (\<lambda>x. x \<le> m) (take (Suc i) xs))" using assms(2) by simp
  also have "\<dots> \<le> length (filter (\<lambda>x. x \<le> m) (take (Suc i) xs @ drop (Suc i) xs))" by (simp only: filter_append length_append)
  finally show ?thesis by simp
qed

lemma sorted_count_ge:
  assumes "sorted xs" "i < length xs" "m \<le> xs ! i" shows "length xs - i \<le> length (filter (\<lambda>x. m \<le> x) xs)"
proof -
  have "\<forall>x \<in> set (drop i xs). m \<le> x"
    using assms by (auto simp: in_set_conv_nth intro!: order_trans[OF assms(3)] sorted_nth_mono)
  then have "length xs - i = length (filter (\<lambda>x. m \<le> x) (drop i xs))" by simp
  also have "\<dots> \<le> length (filter (\<lambda>x. m \<le> x) (take i xs @ drop i xs))" by (simp only: filter_append length_append)
  finally show ?thesis by simp
qed

lemma filter_sort_length: "length (filter P (sort xs)) = length (filter P (xs :: nat list))"
  by (metis filter_sort length_sort)

lemma middle_value:
  fixes vs :: "nat list" and m i j :: nat
  assumes "i < length vs" "j < length vs" "sort vs ! i \<le> m" "m \<le> sort vs ! j"
    and "length vs \<le> 2 * Suc i" "length vs \<le> 2 * (length vs - j)"
  shows "length vs \<le> 2 * length (filter (\<lambda>v. v \<le> m) vs)" "length vs \<le> 2 * length (filter (\<lambda>v. m \<le> v) vs)"
    "sort vs ! 0 \<le> m" "m \<le> sort vs ! (length vs - 1)"
proof -
  have len: "i < length (sort vs)" "j < length (sort vs)" using assms(1,2) by simp_all
  have mono: "sort vs ! i \<le> sort vs ! j" if "i \<le> j" "j < length vs" for i j using that by (simp add: sorted_nth_mono)
  show "length vs \<le> 2 * length (filter (\<lambda>v. v \<le> m) vs)"
    using sorted_count_le[OF sorted_sort len(1) assms(3)] assms(5) unfolding filter_sort_length by (meson mult_le_mono2 order_trans)
  show "length vs \<le> 2 * length (filter (\<lambda>v. m \<le> v) vs)"
    using sorted_count_ge[OF sorted_sort len(2) assms(4)] assms(6) unfolding filter_sort_length length_sort by (meson mult_le_mono2 order_trans)
  show "sort vs ! 0 \<le> m" using mono[of 0 i] assms(1,3) by linarith
  show "m \<le> sort vs ! (length vs - 1)" using mono[of j "length vs - 1"] assms(2,4) by linarith
qed

lemma median_nanoseconds_middle:
  assumes "vs \<noteq> []"
  obtains m where "median_nanoseconds vs = Return (m, sort vs)"
    "length vs \<le> 2 * length (filter (\<lambda>v. v \<le> m) vs)" "length vs \<le> 2 * length (filter (\<lambda>v. m \<le> v) vs)"
    "sort vs ! 0 \<le> m" "m \<le> sort vs ! (length vs - 1)"
proof (cases "even (length vs)")
  case True
  then obtain h where h: "length vs = 2 * h" by (elim evenE)
  with assms have "0 < h" by (cases h) simp_all
  let ?lower = "sort vs ! (h - 1)" and ?upper = "sort vs ! h"
  have "?lower \<le> ?upper" using h \<open>0 < h\<close> by (simp add: sorted_nth_mono)
  then have le: "?lower \<le> ?lower + (?upper - ?lower) div 2" "?lower + (?upper - ?lower) div 2 \<le> ?upper" by linarith+
  have "h - 1 < length vs" "h < length vs" "length vs \<le> 2 * Suc (h - 1)" "length vs \<le> 2 * (length vs - h)"
    using h \<open>0 < h\<close> by (auto simp: less_imp_diff_less)
  note middle = middle_value[OF this(1,2) le this(3,4)]
  have "median_nanoseconds vs = Return (?lower + (?upper - ?lower) div 2, sort vs)"
    using assms h by (simp add: median_nanoseconds_def Let_def)
  then show thesis by (rule that) (fact middle)+
next
  case False
  then obtain h where h: "length vs = 2 * h + 1" by (elim oddE)
  have "median_nanoseconds vs = Return (sort vs ! h, sort vs)"
    using assms h by (simp add: median_nanoseconds_def Let_def)
  moreover have "h < length vs" "length vs \<le> 2 * Suc h" "length vs \<le> 2 * (length vs - h)" using h by simp_all
  note middle_value[OF this(1,1) order_refl order_refl this(2,3)]
  ultimately show thesis using that by blast
qed

section \<open>Properties\<close>

lemma mean_between:
  assumes "vs \<noteq> []"
  shows "Min (set vs) \<le> sum_list vs div length vs" "sum_list vs div length vs \<le> Max (set vs)"
proof -
  have n: "0 < length vs" using assms by simp
  have "length vs * Min (set vs) \<le> sum_list vs"
    using sum_list_mono[of vs "\<lambda>_. Min (set vs)" "\<lambda>x. x"] by (simp add: sum_list_triv)
  with n show "Min (set vs) \<le> sum_list vs div length vs" by (simp add: less_eq_div_iff_mult_less_eq mult.commute)
  have "sum_list vs \<le> Max (set vs) * length vs"
    using sum_list_mono[of vs "\<lambda>x. x" "\<lambda>_. Max (set vs)"] by (simp add: sum_list_triv mult.commute)
  from div_le_mono[OF this, of "length vs"] n show "sum_list vs div length vs \<le> Max (set vs)" by simp
qed

lemma sorted_ends:
  assumes "vs \<noteq> []"
  shows "sort vs ! 0 = Min (set vs)" "sort vs ! (length vs - 1) = Max (set vs)"
proof -
  have in_sorted: "sort vs ! i \<in> set (sort vs)" if "i < length vs" for i using that nth_mem[of i "sort vs"] by simp
  have "Min (set (sort vs)) = sort vs ! 0"
    using assms in_sorted[of 0] by (intro Min_eqI) (auto simp only: in_set_conv_nth length_sort finite_set length_greater_0_conv
      intro!: sorted_nth_mono sorted_sort)
  moreover have "Max (set (sort vs)) = sort vs ! (length vs - 1)"
  proof (rule Max_eqI)
    fix y assume "y \<in> set (sort vs)"
    then obtain i where "y = sort vs ! i" "i < length (sort vs)" unfolding in_set_conv_nth by blast
    then show "y \<le> sort vs ! (length vs - 1)" by (auto intro!: sorted_nth_mono)
  qed (use assms in_sorted[of "length vs - 1"] in simp_all)
  ultimately show "sort vs ! 0 = Min (set vs)" "sort vs ! (length vs - 1) = Max (set vs)" by simp_all
qed

text \<open>What a summary says about the values it summarizes.\<close>

definition summarizes :: "nat list \<Rightarrow> summary_report \<Rightarrow> bool" where
  "summarizes vs s \<longleftrightarrow>
     sr_observations s = length vs \<and> 0 < length vs
   \<and> sr_min_ns s = Min (set vs) \<and> sr_max_ns s = Max (set vs)
   \<and> sr_mean_ns s = sum_list vs div length vs
   \<and> sr_min_ns s \<le> sr_mean_ns s \<and> sr_mean_ns s \<le> sr_max_ns s
   \<and> sr_min_ns s \<le> sr_median_ns s \<and> sr_median_ns s \<le> sr_max_ns s
   \<and> length vs \<le> 2 * length (filter (\<lambda>v. v \<le> sr_median_ns s) vs)
   \<and> length vs \<le> 2 * length (filter (\<lambda>v. sr_median_ns s \<le> v) vs)"

lemma summary_report_of_summarizes:
  assumes "vs \<noteq> []"
  shows "\<exists>s. summary_report_of metric fixture vs = Return s \<and> sr_metric s = metric \<and> sr_fixture s = fixture
    \<and> summarizes vs s"
proof -
  have "sum_list (sort vs) = sum_list vs" by (metis mset_sort sum_mset_sum_list)
  moreover obtain m where m: "median_nanoseconds vs = Return (m, sort vs)"
    "length vs \<le> 2 * length (filter (\<lambda>v. v \<le> m) vs)" "length vs \<le> 2 * length (filter (\<lambda>v. m \<le> v) vs)"
    "Min (set vs) \<le> m" "m \<le> Max (set vs)"
    using median_nanoseconds_middle[OF assms] unfolding sorted_ends[OF assms] .
  ultimately show ?thesis using mean_between[OF assms] assms sorted_ends[OF assms]
    by (simp add: summary_report_of_def summarizes_def Let_def)
qed

lemma collect_exec_summaries:
  assumes "\<And>k vs. (k, vs) \<in> set groups \<Longrightarrow> vs \<noteq> []"
  shows "\<exists>sums. collect_exec (\<lambda>((metric, fixture), vs). summary_report_of metric fixture vs) groups = Return sums
    \<and> list_all2 (\<lambda>(k, vs) s. k = (sr_metric s, sr_fixture s) \<and> summarizes vs s) groups sums"
  using assms
proof (induction groups)
  case (Cons g groups)
  obtain metric fixture vs where [simp]: "g = ((metric, fixture), vs)" by (cases g) auto
  from Cons.prems[of "(metric, fixture)" vs] summary_report_of_summarizes[of vs metric fixture] obtain s
    where "summary_report_of metric fixture vs = Return s" "sr_metric s = metric" "sr_fixture s = fixture" "summarizes vs s"
    by auto
  moreover obtain sums where "collect_exec (\<lambda>((metric, fixture), vs). summary_report_of metric fixture vs) groups = Return sums"
    "list_all2 (\<lambda>(k, vs) s. k = (sr_metric s, sr_fixture s) \<and> summarizes vs s) groups sums"
    using Cons by auto
  ultimately show ?case by simp
qed simp

lemma observation_entries:
  "(k, vs) \<in> set (RBT.entries (fold observe_sample samples RBT.empty))
     \<longleftrightarrow> vs = values_of k (recorded samples) \<and> vs \<noteq> []"
  unfolding RBT.lookup_in_tree[symmetric] observations_recorded lookup_observations by auto

lemma values_of_nonempty: "values_of k obs \<noteq> [] \<longleftrightarrow> k \<in> fst ` set obs"
  by (induction obs) auto

text \<open>C40: The summary of a run is exact and never panics. It has one entry for each metric that was recorded,
  in strictly increasing order of the keys. Each entry summarizes all values recorded under its key and
  no other: their number, minimum and maximum, the mean rounded down, and a median with at least half
  of the values on either side, both between the minimum and the maximum.\<close>

theorem benchmark_summary_exact:
  "\<exists>sums. summarize samples = Return sums
     \<and> sorted_wrt (<) (map (\<lambda>s. (sr_metric s, sr_fixture s)) sums)
     \<and> set (map (\<lambda>s. (sr_metric s, sr_fixture s)) sums) = fst ` set (recorded samples)
     \<and> list_all (\<lambda>s. summarizes (values_of (sr_metric s, sr_fixture s) (recorded samples)) s) sums"
proof -
  let ?groups = "RBT.entries (fold observe_sample samples RBT.empty)"
  obtain sums where sums: "summarize samples = Return sums"
    and pairs: "list_all2 (\<lambda>(k, vs) s. k = (sr_metric s, sr_fixture s) \<and> summarizes vs s) ?groups sums"
    using collect_exec_summaries[of ?groups] unfolding summarize_def observation_entries by blast
  from pairs have keys: "map (\<lambda>s. (sr_metric s, sr_fixture s)) sums = map fst ?groups"
    by (induction rule: list_all2_induct) auto
  have "set (map fst ?groups) = fst ` set (recorded samples)"
    by (auto simp: observation_entries values_of_nonempty image_iff) (metis fst_conv observation_entries values_of_nonempty image_iff)+
  moreover have "sorted_wrt (<) (map fst ?groups)"
    by (simp add: strict_sorted_iff RBT.sorted_entries RBT.distinct_entries)
  moreover have "list_all (\<lambda>s. summarizes (values_of (sr_metric s, sr_fixture s) (recorded samples)) s) sums"
    unfolding list_all_length
  proof (intro allI impI)
    fix i assume "i < length sums"
    with pairs have "?groups ! i \<in> set ?groups"
      "fst (?groups ! i) = (sr_metric (sums ! i), sr_fixture (sums ! i))" "summarizes (snd (?groups ! i)) (sums ! i)"
      by (auto simp: list_all2_conv_all_nth case_prod_beta)
    then show "summarizes (values_of (sr_metric (sums ! i), sr_fixture (sums ! i)) (recorded samples)) (sums ! i)"
      using observation_entries by (metis prod.collapse)
  qed
  ultimately show ?thesis using sums unfolding keys[symmetric] by (intro exI[of _ sums] conjI)
qed

end
