(* ===== verification/Report_Output.thy ===== *)
theory Report_Output
  imports Benchmark_Config
begin

text \<open>
  Where the benchmark writes its report (\<open>ReportOutput\<close> and \<open>PreparedReportFile\<close> of
  \<open>examples/performance.rs\<close>): a temporary file beside the destination, renamed when it is complete. The
  file system is a map from paths to files and directories; which calls of the operating system fail,
  and how far a failing write got, is an argument.
\<close>

section \<open>Paths and files\<close>

text \<open>A path is the list of its components; the root is the component \<open>/\<close>.\<close>

type_synonym path = "string list"

definition path_parent :: "path \<Rightarrow> path option" where
  "path_parent p = (if p = [] \<or> p = [''/''] then None else Some (butlast p))"

definition path_file_name :: "path \<Rightarrow> string option" where
  "path_file_name p = (if p = [] \<or> last p \<in> {''/'', ''..'', ''.''} then None else Some (last p))"

definition with_file_name :: "path \<Rightarrow> string \<Rightarrow> path" where
  "with_file_name p name = butlast p @ [name]"

datatype node = File bytes | Directory

type_synonym file_system = "path \<rightharpoonup> node"

text \<open>The calls of \<open>std::fs\<close>; \<open>fault\<close> is a failure of the operating system.\<close>

definition create_dir_all :: "string option \<Rightarrow> path \<Rightarrow> file_system \<Rightarrow> unit bench_result \<times> file_system" where
  "create_dir_all fault p fs =
     (case fault of
        Some e \<Rightarrow> (Inl (Bench_other e), fs)
      | None \<Rightarrow>
          if list_ex (\<lambda>n. n \<noteq> 0 \<and> (case fs (take n p) of Some (File _) \<Rightarrow> True | _ \<Rightarrow> False)) [0..<Suc (length p)]
          then (Inl (Bench_other ''not a directory''), fs)
          else (Inr (), fold (\<lambda>n fs. if n \<noteq> 0 \<and> fs (take n p) = None then fs(take n p \<mapsto> Directory) else fs)
                  [0..<Suc (length p)] fs))"

definition open_new :: "string option \<Rightarrow> path \<Rightarrow> file_system \<Rightarrow> unit bench_result \<times> file_system" where
  "open_new fault p fs =
     (case fault of
        Some e \<Rightarrow> (Inl (Bench_other e), fs)
      | None \<Rightarrow> if fs p \<noteq> None then (Inl (Bench_other ''already exists''), fs) else (Inr (), fs(p \<mapsto> File [])))"

text \<open>Writing and flushing an open file: all bytes, or a prefix of them and a failure.\<close>

definition write_file :: "(nat \<times> string) option \<Rightarrow> bytes \<Rightarrow> path \<Rightarrow> file_system \<Rightarrow> unit bench_result \<times> file_system" where
  "write_file fault encoded p fs =
     (case fault of
        None \<Rightarrow> (Inr (), fs(p \<mapsto> File encoded))
      | Some (n, e) \<Rightarrow> (Inl (Bench_other e), fs(p \<mapsto> File (take n encoded))))"

definition rename_file :: "string option \<Rightarrow> path \<Rightarrow> path \<Rightarrow> file_system \<Rightarrow> unit bench_result \<times> file_system" where
  "rename_file fault source target fs =
     (case fault of
        Some e \<Rightarrow> (Inl (Bench_other e), fs)
      | None \<Rightarrow>
          (case (fs source, fs target) of
             (None, _) \<Rightarrow> (Inl (Bench_other ''not found''), fs)
           | (_, Some Directory) \<Rightarrow> (Inl (Bench_other ''is a directory''), fs)
           | (Some node, _) \<Rightarrow> (Inr (), (fs(target \<mapsto> node))(source := None))))"

text \<open>Whether a failure of \<open>remove_file\<close> is reported makes no difference to the files.\<close>

definition remove_file :: "string option \<Rightarrow> path \<Rightarrow> file_system \<Rightarrow> file_system" where
  "remove_file fault p fs = (if fault = None then fs(p := None) else fs)"

section \<open>The report output\<close>

text \<open>
  The open writer is not a field: \<open>prepare\<close> always sets it and only \<open>commit\<close>, which consumes the prepared
  file, takes it, so that the \<open>expect\<close> on it cannot fail.
\<close>

record prepared_report_file =
  rf_destination :: path
  rf_temporary :: path

datatype report_output = Stdout | Report_file prepared_report_file

definition temporary_name :: "string \<Rightarrow> string \<Rightarrow> string" where
  "temporary_name file_name uuid = file_name @ ''.'' @ uuid @ ''.tmp''"

record output_faults =
  fault_create_dirs :: "string option"
  fault_open :: "string option"
  fault_write :: "(nat \<times> string) option"
  fault_rename :: "string option"
  fault_remove :: "string option"
  fault_stdout :: "(nat \<times> string) option"

definition prepare_output ::
  "output_faults \<Rightarrow> string \<Rightarrow> path option \<Rightarrow> file_system \<Rightarrow> report_output bench_result \<times> file_system" where
  "prepare_output faults uuid destination fs =
     (case destination of
        None \<Rightarrow> (Inr Stdout, fs)
      | Some destination \<Rightarrow>
          if fs destination = Some Directory then (Inl (Bench_invalid_input ''must name a file, got directory''), fs)
          else
            (case (case path_parent destination of
                     Some parent \<Rightarrow> if parent = [] then (Inr (), fs) else create_dir_all (fault_create_dirs faults) parent fs
                   | None \<Rightarrow> (Inr (), fs)) of
               (Inl e, fs) \<Rightarrow> (Inl e, fs)
             | (Inr _, fs) \<Rightarrow>
                 (case path_file_name destination of
                    None \<Rightarrow> (Inl (Bench_invalid_input ''must name a file''), fs)
                  | Some file_name \<Rightarrow>
                      (let temporary = with_file_name destination (temporary_name file_name uuid)
                       in case open_new (fault_open faults) temporary fs of
                            (Inl e, fs) \<Rightarrow> (Inl e, fs)
                          | (Inr _, fs) \<Rightarrow>
                              (Inr (Report_file \<lparr>rf_destination = destination, rf_temporary = temporary\<rparr>), fs)))))"

definition prepared_drop :: "output_faults \<Rightarrow> prepared_report_file \<Rightarrow> file_system \<Rightarrow> file_system" where
  "prepared_drop faults self fs = remove_file (fault_remove faults) (rf_temporary self) fs"

text \<open>The prepared file is dropped on every return.\<close>

definition commit_report :: "output_faults \<Rightarrow> prepared_report_file \<Rightarrow> bytes \<Rightarrow> file_system \<Rightarrow> unit bench_result \<times> file_system" where
  "commit_report faults self encoded fs =
     (case write_file (fault_write faults) encoded (rf_temporary self) fs of
        (Inl e, fs) \<Rightarrow> (Inl e, prepared_drop faults self fs)
      | (Inr _, fs) \<Rightarrow>
          (case rename_file (fault_rename faults) (rf_temporary self) (rf_destination self) fs of
             (r, fs) \<Rightarrow> (r, prepared_drop faults self fs)))"

definition write_stdout :: "output_faults \<Rightarrow> bytes \<Rightarrow> bytes \<Rightarrow> unit bench_result \<times> bytes" where
  "write_stdout faults encoded out =
     (case fault_stdout faults of
        None \<Rightarrow> (Inr (), out @ encoded)
      | Some (n, e) \<Rightarrow> (Inl (Bench_other e), out @ take n encoded))"

definition write_encoded ::
  "output_faults \<Rightarrow> report_output \<Rightarrow> bytes \<Rightarrow> bytes \<Rightarrow> file_system \<Rightarrow> unit bench_result \<times> bytes \<times> file_system" where
  "write_encoded faults self encoded out fs =
     (case self of
        Stdout \<Rightarrow> (let (r, out) = write_stdout faults encoded out in (r, out, fs))
      | Report_file file \<Rightarrow>
          (case commit_report faults file encoded fs of
             (Inr _, fs) \<Rightarrow> (Inr (), out, fs)
           | (Inl file_error, fs) \<Rightarrow>
               (case write_stdout faults encoded out of
                  (Inl stdout_error, out) \<Rightarrow> (Inl (Bench_report_lost file_error stdout_error), out, fs)
                | (Inr _, out) \<Rightarrow> (Inl file_error, out, fs))))"

text \<open>\<open>to_json\<close> is the serializer of \<open>serde_json\<close>; a failure to serialize drops the prepared file.\<close>

definition write_report ::
  "('r \<Rightarrow> string + bytes) \<Rightarrow> output_faults \<Rightarrow> report_output \<Rightarrow> 'r \<Rightarrow> bytes \<Rightarrow> file_system
     \<Rightarrow> unit bench_result \<times> bytes \<times> file_system" where
  "write_report to_json faults self report out fs =
     (case to_json report of
        Inl e \<Rightarrow> (Inl (Bench_other e), out, case self of Stdout \<Rightarrow> fs | Report_file file \<Rightarrow> prepared_drop faults file fs)
      | Inr encoded \<Rightarrow> write_encoded faults self (encoded @ [10]) out fs)"

section \<open>Preparing\<close>

lemma create_dir_all_keeps:
  assumes "create_dir_all fault p fs = (r, fs')" "\<And>n. take n p \<noteq> q" shows "fs' q = fs q"
proof -
  have "fold (\<lambda>n fs. if n \<noteq> 0 \<and> fs (take n p) = None then fs(take n p \<mapsto> Directory) else fs) ns fs q = fs q" for ns fs
    by (induction ns arbitrary: fs) (use assms(2) in \<open>auto simp: fun_upd_other\<close>)
  with assms(1) show ?thesis by (auto simp: create_dir_all_def simp del: upt_Suc split: option.splits if_splits)
qed

lemma temporary_name_longer: "temporary_name file_name uuid \<noteq> file_name"
  by (simp add: temporary_name_def)

lemma prepare_output_cases:
  assumes "prepare_output faults uuid (Some destination) fs = (Inr output, fs')"
  obtains temporary where "output = Report_file \<lparr>rf_destination = destination, rf_temporary = temporary\<rparr>"
    "butlast temporary = butlast destination" "temporary \<noteq> destination" "fs temporary = None"
    "fs' temporary = Some (File [])" "fs' destination = fs destination"
proof -
  let ?create = "case path_parent destination of
      Some parent \<Rightarrow> if parent = [] then (Inr (), fs) else create_dir_all (fault_create_dirs faults) parent fs
    | None \<Rightarrow> (Inr (), fs)"
  obtain r fs1 where c: "?create = (r, fs1)" by fastforce
  from assms c obtain file_name where name: "path_file_name destination = Some file_name"
    and r: "r = Inr ()"
    and opened: "open_new (fault_open faults) (with_file_name destination (temporary_name file_name uuid)) fs1 = (Inr (), fs')"
    and out: "output = Report_file \<lparr>rf_destination = destination,
      rf_temporary = with_file_name destination (temporary_name file_name uuid)\<rparr>"
    by (cases r) (auto simp: prepare_output_def Let_def split: if_splits option.splits prod.splits sum.splits)
  let ?t = "with_file_name destination (temporary_name file_name uuid)"
  from name have dest: "destination \<noteq> []" "file_name = last destination" by (auto simp: path_file_name_def split: if_splits)
  have t: "?t \<noteq> destination" "butlast ?t = butlast destination" "length ?t = length destination"
    using dest temporary_name_longer by (auto simp: with_file_name_def) (metis append_butlast_last_id last_snoc)
  have keeps: "fs1 q = fs q" if "length q = length destination" for q
  proof (cases "path_parent destination = None \<or> path_parent destination = Some []")
    case True
    with c show ?thesis by auto
  next
    case False
    then obtain parent where parent: "path_parent destination = Some parent" "parent \<noteq> []" by auto
    then have "length parent < length destination" using dest(1) by (auto simp: path_parent_def split: if_splits)
    then have "take n parent \<noteq> q" for n using that by auto
    with create_dir_all_keeps[of "fault_create_dirs faults" parent fs] c parent show ?thesis by simp
  qed
  from opened have "fs1 ?t = None" "fs' = fs1(?t \<mapsto> File [])" by (auto simp: open_new_def split: option.splits if_splits)
  with keeps[of ?t] keeps[of destination] t out show thesis by (intro that[of ?t]) auto
qed

section \<open>Properties\<close>

text \<open>What is true of a prepared file while the samples run: its temporary file is untouched.\<close>

definition prepared_in :: "file_system \<Rightarrow> prepared_report_file \<Rightarrow> bool" where
  "prepared_in fs file \<longleftrightarrow> rf_temporary file \<noteq> rf_destination file \<and> fs (rf_temporary file) = Some (File [])"

lemma commit_report_cases:
  assumes "prepared_in fs file" "commit_report faults file encoded fs = (r, fs')"
  obtains (published) "r = Inr ()" "fs' = (fs(rf_destination file \<mapsto> File encoded))(rf_temporary file := None)"
      "fs (rf_destination file) \<noteq> Some Directory" "fault_write faults = None" "fault_rename faults = None"
    | (failed) "isl r"
      "\<And>p. p \<noteq> rf_temporary file \<Longrightarrow> fs' p = fs p" "fault_remove faults = None \<Longrightarrow> fs' (rf_temporary file) = None"
      "fault_write faults \<noteq> None \<or> fault_rename faults \<noteq> None \<or> fs (rf_destination file) = Some Directory"
proof -
  have ne: "rf_temporary file \<noteq> rf_destination file" using assms(1) by (simp add: prepared_in_def)
  have twice: "(m(a \<mapsto> x, b \<mapsto> x))(a := None) = (m(b \<mapsto> x))(a := None)" for m :: file_system and a b x
    by (auto simp: fun_eq_iff)
  show thesis
  proof (cases "fault_write faults")
    case (Some f)
    with assms(2) show thesis
      by (intro failed) (auto simp: commit_report_def write_file_def prepared_drop_def remove_file_def split: prod.splits if_splits)
  next
    case None
    show thesis
    proof (cases "fault_rename faults = None \<and> fs (rf_destination file) \<noteq> Some Directory")
      case True
      with None ne assms(2) show thesis
        by (intro published)
           (auto simp: commit_report_def write_file_def rename_file_def prepared_drop_def remove_file_def twice
             split: prod.splits option.splits node.splits if_splits)
    next
      case False
      with None ne assms(2) show thesis
        by (intro failed)
           (auto simp: commit_report_def write_file_def rename_file_def prepared_drop_def remove_file_def
             split: prod.splits option.splits node.splits if_splits)
    qed
  qed
qed

text \<open>C39: The report file is published atomically. Preparing an output file leaves the destination as it is and
  creates a fresh temporary file in the same directory. Writing then changes no file but these two: either it
  succeeds and the destination holds the whole report, with nothing on the standard output, or it fails
  and the destination is as before, with the whole report on the standard output unless that fails too.
  Either way the temporary file is gone, except when removing it fails. It succeeds exactly when the write
  and the rename do and the destination has not become a directory.\<close>

theorem report_published_atomically:
  assumes prepared: "prepare_output before uuid (Some destination) fs = (Inr (Report_file file), fs1)"
    and untouched: "fs2 (rf_temporary file) = Some (File [])"
    and written: "write_encoded faults (Report_file file) encoded out fs2 = (r, out', fs3)"
  shows "fs (rf_temporary file) = None \<and> butlast (rf_temporary file) = butlast destination
     \<and> fs1 destination = fs destination
     \<and> (\<forall>p. p \<noteq> destination \<and> p \<noteq> rf_temporary file \<longrightarrow> fs3 p = fs2 p)
     \<and> (if fault_write faults = None \<and> fault_rename faults = None \<and> fs2 destination \<noteq> Some Directory
        then r = Inr () \<and> fs3 destination = Some (File encoded) \<and> fs3 (rf_temporary file) = None \<and> out' = out
        else isl r \<and> fs3 destination = fs2 destination
           \<and> (fault_remove faults = None \<longrightarrow> fs3 (rf_temporary file) = None)
           \<and> (fault_stdout faults = None \<longrightarrow> out' = out @ encoded))"
proof -
  from prepared obtain dest: "rf_destination file = destination" and temp: "rf_temporary file \<noteq> destination"
    and fresh: "fs (rf_temporary file) = None" "butlast (rf_temporary file) = butlast destination" "fs1 destination = fs destination"
    by (cases rule: prepare_output_cases) auto
  obtain c fs' where c: "commit_report faults file encoded fs2 = (c, fs')" by fastforce
  have "prepared_in fs2 file" using dest temp untouched by (simp add: prepared_in_def)
  then show ?thesis using c
  proof (cases rule: commit_report_cases)
    case published
    with c written fresh dest temp show ?thesis by (auto simp: write_encoded_def)
  next
    case failed
    then obtain e where e: "c = Inl e" by (cases c) auto
    with c written have "fs3 = fs'" "isl r" "fault_stdout faults = None \<longrightarrow> out' = out @ encoded"
      by (auto simp: write_encoded_def write_stdout_def split: option.splits prod.splits sum.splits)
    with failed fresh dest temp show ?thesis by auto
  qed
qed

definition no_faults :: output_faults where
  "no_faults = \<lparr>fault_create_dirs = None, fault_open = None, fault_write = None, fault_rename = None,
     fault_remove = None, fault_stdout = None\<rparr>"

theorem report_published_atomically_witness:
  "\<exists>file fs1 fs3. prepare_output no_faults ''1'' (Some [''d'', ''r'']) Map.empty = (Inr (Report_file file), fs1)
     \<and> write_encoded no_faults (Report_file file) [1, 10] [] fs1 = (Inr (), [], fs3)
     \<and> fs3 [''d'', ''r''] = Some (File [1, 10]) \<and> fs3 (rf_temporary file) = None"
proof -
  let ?file = "\<lparr>rf_destination = [''d'', ''r''], rf_temporary = [''d'', ''r.1.tmp'']\<rparr>"
  let ?fs1 = "[[''d''] \<mapsto> Directory, [''d'', ''r.1.tmp''] \<mapsto> File []]"
  have prepared: "prepare_output no_faults ''1'' (Some [''d'', ''r'']) Map.empty = (Inr (Report_file ?file), ?fs1)"
    by (simp add: prepare_output_def path_parent_def create_dir_all_def path_file_name_def temporary_name_def
        with_file_name_def open_new_def no_faults_def Let_def)
  obtain r out fs3 where written: "write_encoded no_faults (Report_file ?file) [1, 10] [] ?fs1 = (r, out, fs3)"
    by (metis prod.exhaust)
  from report_published_atomically[OF prepared _ written] written prepared show ?thesis
    by (auto simp: no_faults_def)
qed

end
