(* ===== verification/Test_Runs.thy ===== *)
theory Test_Runs
  imports Facade Lease_Properties
begin

text \<open>
  A test that runs against a started harness: it leases a database, works on it, gives it back and drains.
  The theory composes the creation of leases, the cleanup queue, the loop of its worker
  (\<open>cleanup_worker\<close> of \<open>src/cleanup.rs\<close>), the session pool and the server, for one client and one worker that
  runs whenever the client waits. The client's gate is not touched by other threads; the server may
  answer in any way.
\<close>

section \<open>The state of a run\<close>

record ('s, 'w) run_state =
  rs_sessions :: session_pool
  rs_queue :: "'s cleanup_queue"
  rs_io :: "('s \<times> ('s prewarm_pool \<times> return_phase) \<times> 'w) io_state"

text \<open>The gate is one object: the queue holds it, and sessions see it in their world.\<close>

definition session_view :: "('s, 'w) run_state \<Rightarrow> ('s \<times> ('s prewarm_pool \<times> return_phase) \<times> 'w) io_state" where
  "session_view st = set_gate (q_admission (rs_queue st)) (rs_io st)"

definition after_session ::
  "session_pool \<Rightarrow> ('s \<times> ('s prewarm_pool \<times> return_phase) \<times> 'w) io_state \<Rightarrow> ('s, 'w) run_state \<Rightarrow> ('s, 'w) run_state" where
  "after_session sessions t st = st\<lparr>rs_sessions := sessions, rs_queue := share_gate (rs_queue st) t, rs_io := t\<rparr>"

definition run_database ::
  "'s semaphore \<Rightarrow> 'u url_api \<Rightarrow> ('s \<times> ('s prewarm_pool \<times> return_phase) \<times> 'w) backend \<Rightarrow> nat \<Rightarrow> 'u server_inner
     \<Rightarrow> string \<Rightarrow> template_source \<Rightarrow> ('s, 'w) run_state \<Rightarrow> (database_lease result exec \<times> ('s, 'w) run_state) option" where
  "run_database sem api be now server uuid source st =
     map_option (\<lambda>(r, sessions, t). (r, after_session sessions t st))
       (create_test_database sem api be now server uuid source (rs_sessions st) (session_view st))"

section \<open>The cleanup worker\<close>

text \<open>
  One turn of the loop: take a job, run its operation, settle it. The jobs are those of leases without a
  prewarm pool, whose operation is determined by the name of the database. \<open>None\<close>: the worker waits.
\<close>

definition worker_turn ::
  "'s semaphore \<Rightarrow> 'u url_api \<Rightarrow> ('s \<times> ('s prewarm_pool \<times> return_phase) \<times> 'w) backend \<Rightarrow> nat \<Rightarrow> 'u server_inner
     \<Rightarrow> ('s, 'w) run_state \<Rightarrow> (awaited_outcome option \<times> ('s, 'w) run_state) exec option" where
  "worker_turn sem api be now server st =
     (case next_job (rs_queue st) of
        None \<Rightarrow> None
      | Some (None, q) \<Rightarrow> None
      | Some (Some job, q) \<Rightarrow>
          map_option (\<lambda>(r, sessions, t).
              bind_exec (run_cleanup_job sem job (case r of Return outcome \<Rightarrow> Some outcome | Panic _ \<Rightarrow> None) True
                  (share_gate q t))
                (\<lambda>(sent, q'). Return (sent, st\<lparr>rs_sessions := sessions, rs_queue := q', rs_io := t\<rparr>)))
            (database_cleanup_operation sem api be now server [] \<lparr>db_value = job_database_name job, db_kind = Test\<rparr> None
               (rs_sessions st) (session_view st)))"

text \<open>The loop until it waits, one turn for each job; it yields the outcomes it sent.\<close>

fun worker_turns ::
  "nat \<Rightarrow> 's semaphore \<Rightarrow> 'u url_api \<Rightarrow> ('s \<times> ('s prewarm_pool \<times> return_phase) \<times> 'w) backend \<Rightarrow> nat \<Rightarrow> 'u server_inner
     \<Rightarrow> ('s, 'w) run_state \<Rightarrow> (awaited_outcome list \<times> ('s, 'w) run_state) exec option" where
  "worker_turns 0 sem api be now server st = Some (Return ([], st))"
| "worker_turns (Suc n) sem api be now server st =
     (case worker_turn sem api be now server st of
        None \<Rightarrow> None
      | Some (Panic m) \<Rightarrow> Some (Panic m)
      | Some (Return (sent, st')) \<Rightarrow>
          map_option (\<lambda>r. bind_exec r (\<lambda>(outs, st''). Return ((case sent of None \<Rightarrow> outs | Some out \<Rightarrow> out # outs), st'')))
            (worker_turns n sem api be now server st'))"

definition cleanup_worker ::
  "'s semaphore \<Rightarrow> 'u url_api \<Rightarrow> ('s \<times> ('s prewarm_pool \<times> return_phase) \<times> 'w) backend \<Rightarrow> nat \<Rightarrow> 'u server_inner
     \<Rightarrow> ('s, 'w) run_state \<Rightarrow> (awaited_outcome list \<times> ('s, 'w) run_state) exec option" where
  "cleanup_worker sem api be now server st = worker_turns (length (q_jobs (rs_queue st))) sem api be now server st"

section \<open>Giving databases back\<close>

text \<open>A submission waits for the worker while the queue is full.\<close>

definition submit_waiting ::
  "'s semaphore \<Rightarrow> 'u url_api \<Rightarrow> ('s \<times> ('s prewarm_pool \<times> return_phase) \<times> 'w) backend \<Rightarrow> nat \<Rightarrow> 'u server_inner
     \<Rightarrow> ('s cleanup_queue \<Rightarrow> (unit result exec \<times> database_lease \<times> 's cleanup_queue \<times> 's prewarm_pool option) option)
     \<Rightarrow> ('s, 'w) run_state \<Rightarrow> (unit result exec \<times> ('s, 'w) run_state) option" where
  "submit_waiting sem api be now server submit st =
     (case submit (rs_queue st) of
        Some (r, _, q, _) \<Rightarrow> Some (r, st\<lparr>rs_queue := q\<rparr>)
      | None \<Rightarrow>
          (case cleanup_worker sem api be now server st of
             Some (Return (_, st')) \<Rightarrow> map_option (\<lambda>(r, _, q, _). (r, st'\<lparr>rs_queue := q\<rparr>)) (submit (rs_queue st'))
           | _ \<Rightarrow> None))"

definition last_sent :: "awaited_outcome list \<Rightarrow> awaited_outcome option" where
  "last_sent outs = (if outs = [] then None else Some (last outs))"

text \<open>\<open>DatabaseLease::cleanup\<close>: the worker runs, and the caller reads the outcome of its job, the last to enter.\<close>

definition run_cleanup ::
  "'s semaphore \<Rightarrow> 'u url_api \<Rightarrow> ('s \<times> ('s prewarm_pool \<times> return_phase) \<times> 'w) backend \<Rightarrow> nat \<Rightarrow> 'u server_inner
     \<Rightarrow> database_lease \<Rightarrow> ('s, 'w) run_state \<Rightarrow> (unit result exec \<times> ('s, 'w) run_state) option" where
  "run_cleanup sem api be now server lease st =
     (case submit_waiting sem api be now server (cleanup_submitted sem lease None) st of
        None \<Rightarrow> None
      | Some (Panic m, st') \<Rightarrow> Some (Panic m, st')
      | Some (Return (Inl e), st') \<Rightarrow> Some (Return (Inl e), st')
      | Some (Return (Inr _), st') \<Rightarrow>
          (case cleanup_worker sem api be now server st' of
             None \<Rightarrow> None
           | Some (Panic m) \<Rightarrow> Some (await_cleanup None, st')
           | Some (Return (outs, st'')) \<Rightarrow> Some (await_cleanup (last_sent outs), st'')))"

text \<open>\<open>DatabaseLease::defer_cleanup\<close>.\<close>

definition run_defer ::
  "'s semaphore \<Rightarrow> 'u url_api \<Rightarrow> ('s \<times> ('s prewarm_pool \<times> return_phase) \<times> 'w) backend \<Rightarrow> nat \<Rightarrow> 'u server_inner
     \<Rightarrow> database_lease \<Rightarrow> ('s, 'w) run_state \<Rightarrow> (unit result exec \<times> ('s, 'w) run_state) option" where
  "run_defer sem api be now server lease st = submit_waiting sem api be now server (defer_cleanup sem lease None) st"

text \<open>\<open>PostgresHarness::drain_deferred_cleanup\<close>: the worker runs while the drain waits.\<close>

definition run_drain ::
  "'s semaphore \<Rightarrow> 'u url_api \<Rightarrow> ('s \<times> ('s prewarm_pool \<times> return_phase) \<times> 'w) backend \<Rightarrow> nat \<Rightarrow> 'u server_inner
     \<Rightarrow> ('s, 'w) run_state \<Rightarrow> (unit result \<times> ('s, 'w) run_state) option" where
  "run_drain sem api be now server st =
     (case cleanup_worker sem api be now server st of
        Some (Return (_, st')) \<Rightarrow>
          map_option (\<lambda>(r, q). (r, st'\<lparr>rs_queue := q\<rparr>)) (drain_deferred_cleanup (rs_queue st) (rs_queue st'))
      | _ \<Rightarrow> None)"

text \<open>
  \<open>PostgresHarness::shutdown\<close> of a run without prewarm pools. \<open>container\<close> is \<open>None\<close> for an external server, and
  otherwise what stopping the owned container returns. The sequence is one blocking task.
\<close>

definition run_shutdown ::
  "'s semaphore \<Rightarrow> 'u url_api \<Rightarrow> ('s \<times> ('s prewarm_pool \<times> return_phase) \<times> 'w) backend \<Rightarrow> nat \<Rightarrow> 'u server_inner
     \<Rightarrow> unit result option \<Rightarrow> ('s, 'w) run_state \<Rightarrow> (unit result \<times> ('s, 'w) run_state) option" where
  "run_shutdown sem api be now server container st =
     (case begin_owned_container_shutdown sem container (q_admission (rs_queue st)) of
        (None, _) \<Rightarrow> Some (Inr (), st)
      | (Some stopped, gate) \<Rightarrow>
          (let (target, q) = submission_close (rs_queue st\<lparr>q_admission := gate\<rparr>)
           in case cleanup_worker sem api be now server (st\<lparr>rs_queue := q\<rparr>) of
                Some (Return (_, st1)) \<Rightarrow>
                  map_option (\<lambda>(cleanup, q1).
                      case pool_close (rs_sessions st1) of
                        Panic m \<Rightarrow> (Inl (BlockingTask m), st1\<lparr>rs_queue := drain_drop cleanup q1\<rparr>)
                      | Return sessions \<Rightarrow>
                          (let (r, q2) = OwnedShutdownOutcome_finish cleanup stopped q1
                           in (r, st1\<lparr>rs_sessions := sessions, rs_queue := q2\<rparr>)))
                    (wait_and_take target (rs_queue st1))
              | _ \<Rightarrow> None))"

section \<open>Sessions for a single client\<close>

text \<open>With every session in the pool idle, a checkout does not wait.\<close>

lemma acquire_now_granted:
  assumes "pool_inv 0 p" "0 < sp_max_size p"
  shows "fst (acquire_now be dl p s) \<noteq> Waiting"
  using assms by (auto simp: acquire_now_def acquire_checkout_def pool_inv_def)

lemma checkout_loop_returns:
  assumes "pool_inv 0 p" "0 < sp_max_size p" shows "checkout_loop be op dl p s \<noteq> None"
  using assms
proof (induction "length (sp_idle p)" arbitrary: p s rule: less_induct)
  case less
  obtain a s1 where a: "acquire_now be dl p s = (a, s1)" by fastforce
  with acquire_now_granted[OF less.prems, of be dl s] have "a \<noteq> Waiting" by simp
  show ?case
  proof (cases a)
    case (Granted c q)
    show ?thesis
    proof (cases c)
      case (Some client)
      from a Granted Some have q: "length (sp_idle q) < length (sp_idle p)" by (simp add: acquire_now_idle)
      have q': "pool_inv (Suc 0) q" "sp_max_size q = sp_max_size p"
        using acquire_now_inv[OF less.prems(1) a[unfolded Granted]] by simp_all
      have again: "checkout_loop be op dl q' t \<noteq> None" if "release_slot q = Return q'" for q' t
        using that q q' less.prems(2)
        by (intro less.hyps) (auto simp: release_slot_def bind_exec_Return_iff checked_sub_Some_iff pool_inv_def)
      show ?thesis
        using a Granted Some again
        by (subst checkout_loop.simps) (auto split: prod.splits exec.splits sum.splits)
    qed (subst checkout_loop.simps, use a Granted in \<open>auto split: prod.splits exec.splits sum.splits\<close>)
  qed (subst checkout_loop.simps, use a \<open>a \<noteq> Waiting\<close> in simp)+
qed

lemma checkout_returns:
  assumes "pool_inv 0 p" "0 < sp_max_size p" shows "checkout be op p s \<noteq> None"
  using checkout_loop_returns[OF assms] by (auto simp: checkout_def split: prod.split exec.split sum.split)

text \<open>
  A session operation of such a client: it is refused or runs, gives its slot back, and starts from a state
  with every property that setting up sessions keeps.
\<close>

lemma session_operation:
  assumes inv: "pool_inv 0 p" "0 < sp_max_size p"
    and keep: "preserves P (read_clock be)" "\<And>q op'. preserves P (connect_lifecycle be q op')"
      "\<And>q dl c. preserves P (prepare_reused be q dl c)" "P s"
  obtains (refused) e p' t where "execute_with_disposition be op f p s = Some (Return (Inl e), p', t)" "P t"
      "pool_inv 0 p'" "sp_max_size p' = sp_max_size p"
    | (ran) c u out p' t where "execute_with_disposition be op f p s
        = Some (case out of Return (Reuse v) \<Rightarrow> Return (Inr v) | Return (Evict v) \<Rightarrow> Return (Inr v) | Panic m \<Rightarrow> Panic m, p', t)"
      "P u" "f c u = (out, t)" "pool_inv 0 p'" "sp_max_size p' = sp_max_size p"
proof -
  have "execute_with_disposition be op f p s \<noteq> None"
    using checkout_returns[OF inv, of be op s]
    by (auto simp: execute_with_disposition_def Let_def split: option.splits prod.splits exec.splits sum.splits)
  then obtain r p' t where run: "execute_with_disposition be op f p s = Some (r, p', t)" by auto
  note checkout = checkout_preserves[OF keep(1-3) _ keep(4)]
  from inv(1) run show thesis
  proof (cases rule: execute_with_disposition_post)
    case (refused e)
    with run checkout[OF refused(5)] show thesis by (intro that(1)[of e p' t]) auto
  next
    case (ran c s1 out ses q)
    with run checkout[OF ran(6)] show thesis by (intro that(2)[of out p' t s1 c]) auto
  qed
qed

section \<open>What the run relies on\<close>

text \<open>
  The semaphore and the server behave as documented, a database appears only through a \<open>CREATE\<close> statement,
  nobody else uses the gate of the run, and therefore an acquisition waits only for missing permits.
\<close>

definition gate_private :: "('g \<times> 'w) backend \<Rightarrow> bool" where
  "gate_private be \<longleftrightarrow> (\<forall>w. fst (snd (be_now be w)) = fst w \<and> (\<forall>u t. fst (snd (be_connect be u t w)) = fst w)
     \<and> (\<forall>c t q. fst (snd (be_batch be c t q w)) = fst w))"

definition single_client ::
  "'s semaphore \<Rightarrow> ('s \<times> ('s prewarm_pool \<times> return_phase) \<times> 'w) backend \<Rightarrow> ('w \<Rightarrow> string \<Rightarrow> bool) \<Rightarrow> bool" where
  "single_client sem be pres \<longleftrightarrow> semaphore_laws sem \<and> server_laws be (on_server pres)
     \<and> (\<forall>n. only_created be (on_server pres) n) \<and> gate_private be
     \<and> (\<forall>n g. n \<le> sem_available sem g \<longrightarrow> sem_acquire sem n g \<noteq> Acquire_pending)"

lemma single_client_poll: "single_client sem be pres \<Longrightarrow> n \<le> sem_available sem g \<Longrightarrow> sem_acquire sem n g \<noteq> Acquire_pending"
  by (simp add: single_client_def)

text \<open>The gate is \<open>g\<close> and no database of \<open>N\<close> exists.\<close>

definition settled_world ::
  "('w \<Rightarrow> string \<Rightarrow> bool) \<Rightarrow> 's \<Rightarrow> string set \<Rightarrow> ('s \<times> ('s prewarm_pool \<times> return_phase) \<times> 'w) io_state \<Rightarrow> bool" where
  "settled_world pres g N s \<longleftrightarrow> fst (world s) = g \<and> (\<forall>n \<in> N. \<not> on_server pres (world s) n)"

lemma gate_privateD:
  assumes "single_client sem be pres"
  shows "fst (snd (be_now be w)) = fst w" "fst (snd (be_connect be u t w)) = fst w" "fst (snd (be_batch be c t q w)) = fst w"
  using assms unfolding single_client_def gate_private_def by blast+

lemma preserves_settled:
  assumes "\<And>h. preserves (\<lambda>s. fst (world s) = h) m" "\<And>n. preserves (\<lambda>s. \<not> on_server pres (world s) n) m"
  shows "preserves (settled_world pres g N) m"
  using assms unfolding preserves_def settled_world_def by blast

lemma settled_requests:
  assumes client: "single_client sem be pres"
  shows "preserves (settled_world pres g N) (read_clock be)"
    "preserves (settled_world pres g N) (AdminClient_connect be url ct rt op)"
    "take 6 q \<noteq> ''CREATE'' \<Longrightarrow> preserves (settled_world pres g N) (batch_execute_with_timeout be c t op q)"
proof -
  have only: "only_created be (on_server pres) n" for n using client by (simp add: single_client_def)
  have gate: "preserves (\<lambda>s. fst (world s) = h) (read_clock be)"
    "preserves (\<lambda>s. fst (world s) = h) (AdminClient_connect be url ct rt op)"
    "preserves (\<lambda>s. fst (world s) = h) (batch_execute_with_timeout be c t op q)" for h
    by (auto simp: preserves_def read_clock_def AdminClient_connect_def batch_execute_with_timeout_def Let_def
        case_prod_beta gate_privateD[OF client] split: connect_reply.splits)
  show "preserves (settled_world pres g N) (read_clock be)"
    "preserves (settled_world pres g N) (AdminClient_connect be url ct rt op)"
    "take 6 q \<noteq> ''CREATE'' \<Longrightarrow> preserves (settled_world pres g N) (batch_execute_with_timeout be c t op q)"
    by (intro preserves_settled gate only_created_requests[OF only]; assumption?)+
qed

lemma settled_sessions:
  assumes "single_client sem be pres"
  shows "preserves (settled_world pres g N) (connect_lifecycle be p op)"
    "preserves (settled_world pres g N) (prepare_reused be p dl client)"
  by (rule sessions_preserve; rule settled_requests[OF assms]; assumption)+

lemma drop_settled:
  assumes client: "single_client sem be pres" and name: "wf_name name"
    and run: "drop_database be c name s = (Return x, t)" and s: "settled_world pres g N s"
  shows "settled_world pres g (if x = Inr () then insert (db_value name) N else N) t"
proof -
  from client have laws: "server_laws be (on_server pres)" by (simp add: single_client_def)
  have "preserves (settled_world pres g N) (drop_database be c name)"
    unfolding drop_database_def batch_execute_def by (rule settled_requests(3)[OF client]) (simp add: drop_sql_def)
  from preservesD[OF this run s] have "settled_world pres g N t" .
  with drop_database_effect(1)[OF laws name run] show ?thesis by (simp add: settled_world_def)
qed

section \<open>The cleanup of one database\<close>

lemma cleanup_on_session_plain:
  "cleanup_on_session sem api be now server uuid name None client s =
     (case drop_database be client name s of
        (Return (Inl e), t) \<Rightarrow> (Return (Inr (Evict (ResidualPossible e))), t)
      | (Return (Inr _), t) \<Rightarrow> (Return (Inr (Reuse Succeeded)), t)
      | (Panic m, t) \<Rightarrow> (Panic m, t))"
  by (simp add: cleanup_on_session_def bind_readings_try split: prod.split exec.split sum.split)

lemma cleanup_operation_run:
  assumes client: "single_client sem be pres" and inv: "pool_inv 0 p" "0 < sp_max_size p" and name: "wf_name name"
    and s: "settled_world pres g N s"
  obtains outcome p' t where
    "database_cleanup_operation sem api be now server uuid name None p s = Some (Return outcome, p', t)"
    "pool_inv 0 p'" "sp_max_size p' = sp_max_size p" "\<forall>e. outcome \<noteq> NoResidual e"
    "settled_world pres g (if may_leave_residual outcome then N else insert (db_value name) N) t"
proof -
  let ?f = "\<lambda>client. disposition_run (cleanup_on_session sem api be now server uuid name None client)"
  from inv settled_requests(1)[OF client] settled_sessions[OF client] s show thesis
  proof (cases rule: session_operation[where f = ?f and op = "''connect for disposable database cleanup''"])
    case (refused e p' t)
    then show thesis by (intro that[of "ResidualPossible e" p' t])
      (auto simp: database_cleanup_operation_def settled_world_def)
  next
    case (ran c u out p' t)
    obtain x v where d: "drop_database be c name u = (Return x, v)" using drop_database_returns by (metis prod.exhaust)
    note settled = drop_settled[OF client name d ran(2)]
    show thesis
    proof (cases x)
      case (Inl e)
      with d ran(3) have "out = Return (Evict (ResidualPossible e))" "t = v"
        by (simp_all add: disposition_run_def cleanup_on_session_plain)
      with ran settled Inl show thesis by (intro that[of "ResidualPossible e" p' t]) (auto simp: database_cleanup_operation_def)
    next
      case (Inr y)
      with d ran(3) have "out = Return (Reuse Succeeded)" "t = v"
        by (simp_all add: disposition_run_def cleanup_on_session_plain)
      with ran settled Inr show thesis by (intro that[of Succeeded p' t]) (auto simp: database_cleanup_operation_def)
    qed
  qed
qed

section \<open>Turns of the worker\<close>

definition run_available :: "'s semaphore \<Rightarrow> ('s, 'w) run_state \<Rightarrow> nat" where
  "run_available sem st = sem_available sem (q_admission (rs_queue st))"

definition run_closed :: "'s semaphore \<Rightarrow> ('s, 'w) run_state \<Rightarrow> bool" where
  "run_closed sem st = sem_is_closed sem (q_admission (rs_queue st))"

definition absent :: "('w \<Rightarrow> string \<Rightarrow> bool) \<Rightarrow> string set \<Rightarrow> ('s, 'w) run_state \<Rightarrow> bool" where
  "absent pres N st \<longleftrightarrow> (\<forall>n \<in> N. \<not> on_server pres (world (rs_io st)) n)"

text \<open>
  Between two calls of the client: all sessions are idle, the queue accepts submissions, and its jobs are
  the ones that have not completed, in the order of their numbers.
\<close>

definition job_name :: "cleanup_job \<Rightarrow> database_name" where
  "job_name job = \<lparr>db_value = job_database_name job, db_kind = Test\<rparr>"

definition run_inv :: "('s, 'w) run_state \<Rightarrow> bool" where
  "run_inv st \<longleftrightarrow> pool_inv 0 (rs_sessions st) \<and> 0 < sp_max_size (rs_sessions st)
     \<and> \<not> q_closed (rs_queue st) \<and> \<not> q_delivery_in_flight (rs_queue st) \<and> q_out_of_order (rs_queue st) = []
     \<and> 0 < q_capacity (rs_queue st) \<and> q_completed_through (rs_queue st) \<le> q_next_sequence (rs_queue st)
     \<and> map job_sequence (q_jobs (rs_queue st))
        = [Suc (q_completed_through (rs_queue st))..<Suc (q_next_sequence (rs_queue st))]
     \<and> list_all (\<lambda>job. wf_name (job_name job)) (q_jobs (rs_queue st))"

text \<open>What a settled job sends to a waiting caller and leaves for a drain.\<close>

definition sent_of :: "cleanup_job \<Rightarrow> cleanup_outcome \<Rightarrow> awaited_outcome list" where
  "sent_of job outcome = (case job_completion job of
     Awaited \<Rightarrow> [AwaitedCleanupOutcome_new (into_result outcome) (job_sequence job) (job_database_name job)] | Deferred \<Rightarrow> [])"

definition failure_of :: "cleanup_job \<Rightarrow> cleanup_outcome \<Rightarrow> sequenced_failure list" where
  "failure_of job outcome = (case (job_completion job, into_result outcome) of
     (Deferred, Inl e) \<Rightarrow> [\<lparr>sf_sequence = job_sequence job, sf_failure = DeferredCleanupFailure (job_database_name job) e\<rparr>]
   | _ \<Rightarrow> [])"

lemma settle_job_run:
  assumes "semaphore_laws sem"
  obtains q' where
    "settle_job sem job (Some outcome) True q = Return (case failure_of job outcome of [] \<Rightarrow> None | f # _ \<Rightarrow> Some (sf_failure f),
       case sent_of job outcome of [] \<Rightarrow> None | out # _ \<Rightarrow> Some out, q')"
    "q' = q\<lparr>q_admission := q_admission q'\<rparr>"
    "sem_available sem (q_admission q') = sem_available sem (q_admission q) + permits_of job"
    "sem_is_closed sem (q_admission q') \<longleftrightarrow> sem_is_closed sem (q_admission q) \<or> may_leave_residual outcome"
proof -
  define q1 where "q1 = (if may_leave_residual outcome then q\<lparr>q_admission := admission_close sem (q_admission q)\<rparr> else q)"
  define q' where "q' = drop_permit sem (job_permit job) q1"
  have "settle_job sem job (Some outcome) True q = Return (case failure_of job outcome of [] \<Rightarrow> None | f # _ \<Rightarrow> Some (sf_failure f),
       case sent_of job outcome of [] \<Rightarrow> None | out # _ \<Rightarrow> Some out, q')"
    by (simp add: settle_job_def failure_of_def sent_of_def Let_def q'_def q1_def split: cleanup_completion.split sum.split)
  moreover have "q' = q\<lparr>q_admission := q_admission q'\<rparr>"
    by (simp add: q'_def q1_def drop_permit_def split: option.split)
  moreover have "sem_available sem (q_admission q') = sem_available sem (q_admission q) + permits_of job"
    "sem_is_closed sem (q_admission q') \<longleftrightarrow> sem_is_closed sem (q_admission q) \<or> may_leave_residual outcome"
    using semaphore_lawsD(5-8)[OF assms]
    by (auto simp: q'_def q1_def drop_permit_def admission_close_def permits_of_def split: option.split)
  ultimately show thesis by (rule that)
qed

lemma complete_next:
  assumes "q_out_of_order q = []" "n = Suc (q_completed_through q)"
  shows "q_completed_through (complete n f q) = n" "q_out_of_order (complete n f q) = []"
  using assms by (simp_all add: complete_def Let_def catch_up.simps[of _ "[]"] split: option.split)

text \<open>
  What turns of the worker do to the state: the databases of jobs that left no residual are gone, every permit
  is back, a possible residual has closed the gate, and failures of deferred jobs are kept for a drain.
\<close>

definition cleaned :: "cleanup_job list \<Rightarrow> cleanup_outcome list \<Rightarrow> string set" where
  "cleaned jobs outcomes = {job_database_name job | job outcome. (job, outcome) \<in> set (zip jobs outcomes) \<and> \<not> may_leave_residual outcome}"

definition worked ::
  "'s semaphore \<Rightarrow> ('w \<Rightarrow> string \<Rightarrow> bool) \<Rightarrow> string set \<Rightarrow> ('s, 'w) run_state \<Rightarrow> cleanup_job list \<Rightarrow> cleanup_outcome list
     \<Rightarrow> ('s, 'w) run_state \<Rightarrow> bool" where
  "worked sem pres N st jobs outcomes st' \<longleftrightarrow> run_inv st' \<and> length outcomes = length jobs
     \<and> q_jobs (rs_queue st) = jobs @ q_jobs (rs_queue st') \<and> q_next_sequence (rs_queue st') = q_next_sequence (rs_queue st)
     \<and> q_capacity (rs_queue st') = q_capacity (rs_queue st)
     \<and> run_available sem st' = run_available sem st + sum_list (map permits_of jobs)
     \<and> (run_closed sem st' \<longleftrightarrow> run_closed sem st \<or> list_ex may_leave_residual outcomes)
     \<and> q_failures (rs_queue st') = q_failures (rs_queue st) @ concat (map2 failure_of jobs outcomes)
     \<and> absent pres (N \<union> cleaned jobs outcomes) st' \<and> (\<forall>e. NoResidual e \<notin> set outcomes)"

lemma cleaned_Cons [simp]:
  "cleaned [] outcomes = {}"
  "cleaned (job # jobs) (out # outcomes)
     = (if may_leave_residual out then {} else {job_database_name job}) \<union> cleaned jobs outcomes"
  by (auto simp: cleaned_def)

lemma worked_nothing: "run_inv st \<Longrightarrow> absent pres N st \<Longrightarrow> worked sem pres N st [] [] st"
  by (simp add: worked_def)

lemma worked_Cons:
  assumes "worked sem pres N st [job] [out] st1" "worked sem pres (N \<union> cleaned [job] [out]) st1 jobs outcomes st2"
  shows "worked sem pres N st (job # jobs) (out # outcomes) st2"
  using assms by (auto simp: worked_def Un_assoc)

lemma settled_session_view:
  "settled_world pres g N (session_view st) \<longleftrightarrow> g = q_admission (rs_queue st) \<and> absent pres N st"
  by (auto simp: settled_world_def session_view_def set_gate_def absent_def on_server_def)

lemma settled_absent: "settled_world pres g N (rs_io st) \<Longrightarrow> absent pres N st"
  by (simp add: settled_world_def absent_def)

lemma worker_turn_run:
  fixes st :: "('s, 'w) run_state"
  assumes client: "single_client sem be pres" and inv: "run_inv st" and absent: "absent pres N st"
    and jobs: "q_jobs (rs_queue st) = job # rest"
  obtains outcome st' where
    "worker_turn sem api be now server st = Some (Return (case sent_of job outcome of [] \<Rightarrow> None | out # _ \<Rightarrow> Some out, st'))"
    "worked sem pres N st [job] [outcome] st'"
proof -
  let ?q = "rs_queue st\<lparr>q_jobs := rest\<rparr>"
  from client have laws: "semaphore_laws sem" by (simp add: single_client_def)
  from inv jobs have name: "wf_name (job_name job)" by (simp add: run_inv_def)
  from inv have pool: "pool_inv 0 (rs_sessions st)" "0 < sp_max_size (rs_sessions st)" by (simp_all add: run_inv_def)
  have view: "settled_world pres (q_admission (rs_queue st)) N (session_view st)" by (simp add: settled_session_view absent)
  obtain outcome p' t where op:
    "database_cleanup_operation sem api be now server [] (job_name job) None (rs_sessions st) (session_view st)
       = Some (Return outcome, p', t)"
    and p': "pool_inv 0 p'" "sp_max_size p' = sp_max_size (rs_sessions st)" "\<forall>e. outcome \<noteq> NoResidual e"
    and t: "settled_world pres (q_admission (rs_queue st))
        (if may_leave_residual outcome then N else insert (db_value (job_name job)) N) t"
    by (rule cleanup_operation_run[OF client pool name view, where api = api and now = now and server = server and uuid = "[]"])
  from t have gate: "share_gate ?q t = ?q" by (simp add: share_gate_def settled_world_def)
  obtain q' where q': "settle_job sem job (Some outcome) True ?q
      = Return (case failure_of job outcome of [] \<Rightarrow> None | f # _ \<Rightarrow> Some (sf_failure f),
          case sent_of job outcome of [] \<Rightarrow> None | out # _ \<Rightarrow> Some out, q')"
    "q' = ?q\<lparr>q_admission := q_admission q'\<rparr>"
    "sem_available sem (q_admission q') = sem_available sem (q_admission ?q) + permits_of job"
    "sem_is_closed sem (q_admission q') \<longleftrightarrow> sem_is_closed sem (q_admission ?q) \<or> may_leave_residual outcome"
    by (rule settle_job_run[OF laws, where job = job and outcome = outcome and q = ?q])
  define q2 where "q2 = complete (job_sequence job) (case failure_of job outcome of [] \<Rightarrow> None | f # _ \<Rightarrow> Some (sf_failure f)) q'"
  let ?st' = "st\<lparr>rs_sessions := p', rs_queue := q2, rs_io := t\<rparr>"
  have turn: "worker_turn sem api be now server st
      = Some (Return (case sent_of job outcome of [] \<Rightarrow> None | out # _ \<Rightarrow> Some out, ?st'))"
    using op gate q'(1) jobs by (simp add: worker_turn_def next_job_def run_cleanup_job_def job_name_def q2_def)
  have fields: "q_out_of_order q' = q_out_of_order (rs_queue st)" "q_completed_through q' = q_completed_through (rs_queue st)"
    "q_jobs q' = rest" "q_next_sequence q' = q_next_sequence (rs_queue st)" "q_capacity q' = q_capacity (rs_queue st)"
    "q_closed q' = q_closed (rs_queue st)" "q_delivery_in_flight q' = q_delivery_in_flight (rs_queue st)"
    "q_failures q' = q_failures (rs_queue st)"
    by (subst q'(2), simp)+
  have seq: "job_sequence job = Suc (q_completed_through (rs_queue st))"
    "map job_sequence rest = [Suc (job_sequence job)..<Suc (q_next_sequence (rs_queue st))]"
    "job_sequence job \<le> q_next_sequence (rs_queue st)"
    using inv jobs by (auto simp: run_inv_def upt_rec[of "Suc (q_completed_through (rs_queue st))"] split: if_splits)
  have frame: "q_jobs q2 = rest" "q_next_sequence q2 = q_next_sequence (rs_queue st)" "q_capacity q2 = q_capacity (rs_queue st)"
    "q_closed q2 = q_closed (rs_queue st)" "q_delivery_in_flight q2 = q_delivery_in_flight (rs_queue st)"
    "q_admission q2 = q_admission q'"
    by (simp_all add: q2_def fields)
  have through: "q_completed_through q2 = job_sequence job" "q_out_of_order q2 = []"
    using inv fields seq(1) unfolding q2_def by (simp_all add: complete_next run_inv_def)
  have failures: "q_failures q2 = q_failures (rs_queue st) @ failure_of job outcome"
    by (simp add: q2_def complete_failures fields failure_of_def split: cleanup_completion.split sum.split)
  have "run_inv ?st'"
    using inv p'(1,2) frame seq through jobs by (simp add: run_inv_def del: upt_Suc)
  moreover have "absent pres (N \<union> cleaned [job] [outcome]) ?st'"
    using t by (simp add: settled_world_def absent_def job_name_def split: if_splits)
  ultimately have "worked sem pres N st [job] [outcome] ?st'"
    using failures q'(3,4) jobs p'(3) frame by (simp add: worked_def run_available_def run_closed_def) metis
  with turn show thesis by (rule that)
qed

lemma worker_turns_run:
  assumes client: "single_client sem be pres" and inv: "run_inv st" and absent: "absent pres N st"
  obtains outcomes st' where
    "cleanup_worker sem api be now server st = Some (Return (concat (map2 sent_of (q_jobs (rs_queue st)) outcomes), st'))"
    "worked sem pres N st (q_jobs (rs_queue st)) outcomes st'"
proof -
  have "\<exists>outcomes st'. worker_turns (length jobs) sem api be now server st = Some (Return (concat (map2 sent_of jobs outcomes), st'))
      \<and> worked sem pres N st jobs outcomes st'" if "q_jobs (rs_queue st) = jobs" for jobs
    using that inv absent
  proof (induction jobs arbitrary: st N)
    case Nil
    then show ?case by (auto intro!: exI[of _ "[]"] worked_nothing)
  next
    case (Cons job jobs)
    obtain outcome st1 where
      turn: "worker_turn sem api be now server st = Some (Return (case sent_of job outcome of [] \<Rightarrow> None | out # _ \<Rightarrow> Some out, st1))"
      and one: "worked sem pres N st [job] [outcome] st1"
      by (rule worker_turn_run[OF client Cons.prems(2,3,1), where api = api and now = now and server = server])
    from one Cons.prems(1) have "q_jobs (rs_queue st1) = jobs" "run_inv st1" "absent pres (N \<union> cleaned [job] [outcome]) st1"
      by (simp_all add: worked_def)
    from Cons.IH[OF this] obtain outcomes st2 where
      rest: "worker_turns (length jobs) sem api be now server st1 = Some (Return (concat (map2 sent_of jobs outcomes), st2))"
      "worked sem pres (N \<union> cleaned [job] [outcome]) st1 jobs outcomes st2" by blast
    have sent: "sent_of job outcome = [] \<or> (\<exists>out. sent_of job outcome = [out])"
      by (simp add: sent_of_def split: cleanup_completion.split)
    from turn rest(1) sent
    have "worker_turns (length (job # jobs)) sem api be now server st
        = Some (Return (concat (map2 sent_of (job # jobs) (outcome # outcomes)), st2))" by auto
    with worked_Cons[OF one rest(2)] show ?case by blast
  qed
  from this[OF refl] that show thesis by (auto simp: cleanup_worker_def)
qed

section \<open>Leasing a database\<close>

lemma create_on_session_run:
  assumes client: "single_client sem be pres" and name: "wf_name name" "db_value name \<in> N"
    and s: "settled_world pres g N s"
  obtains r t g' where "create_on_session sem be now server source name c s = (Return r, t)"
    "settled_world pres g' (N - {db_value name}) t"
    "case r of Inr _ \<Rightarrow> g' = g \<and> \<not> sem_is_closed sem g | Inl _ \<Rightarrow> g' = g \<and> settled_world pres g N t \<or> g' = admission_close sem g"
proof -
  let ?md = "ResourceMetadata_test now (srv_project server) (srv_owner_key server)"
  from client have laws: "server_laws be (on_server pres)" by (simp add: single_client_def)
  have fresh: "\<not> on_server pres (world s) (db_value name)" "fst (world s) = g" using s name(2) by (auto simp: settled_world_def)
  obtain v t where run: "create_managed_database_classified sem be c name (source_name source) ?md s = (Return (Inr v), t)"
    and sound: "creation_sound (on_server pres) (db_value name) v (world t)"
    and others: "\<And>m. m \<noteq> db_value name \<Longrightarrow> on_server pres (world t) m = on_server pres (world s) m"
    using create_classified_effect[OF laws name(1)] fresh(1) by (metis prod.exhaust)
  from s others have rest: "\<forall>n \<in> N - {db_value name}. \<not> on_server pres (world t) n" by (auto simp: settled_world_def)
  let ?closes = "\<exists>e. v = Inl (CreationResidualPossible e)"
  have gate: "fst (world t) = (if ?closes then admission_close sem g else g)" "v = Inr () \<Longrightarrow> \<not> sem_is_closed sem g"
    using run fresh(2)
    by (auto simp: create_managed_database_classified_def attempt_managed_creation_def ensure_open_def Let_def
        split: if_splits prod.splits sum.splits managed_database_creation_failure.splits)
  have all: "settled_world pres g N t" if "v = Inl (CreationNoResidual e)" for e
    using that sound rest gate(1) by (auto simp: settled_world_def creation_sound_def)
  let ?r = "case v of Inl failure \<Rightarrow> Inl (into_error failure) | Inr _ \<Rightarrow> Inr ()"
  have on: "create_on_session sem be now server source name c s = (Return ?r, t)"
    using run by (simp add: create_on_session_def io_bind_def split: sum.split)
  have cases: "case ?r of Inr _ \<Rightarrow> fst (world t) = g \<and> \<not> sem_is_closed sem g
      | Inl _ \<Rightarrow> fst (world t) = g \<and> settled_world pres g N t \<or> fst (world t) = admission_close sem g"
    using gate all by (auto split: sum.split) (metis managed_database_creation_failure.exhaust)+
  show thesis by (rule that[OF on _ cases]) (use rest in \<open>simp add: settled_world_def\<close>)
qed

lemma test_name_ok:
  assumes "DatabaseName_test p uuid = Return name" shows "wf_name name" "db_kind name = Test"
  using test_name_wf[OF assms] assms by (auto simp: DatabaseName_test_def ok_Some_iff DatabaseName_new_Inr_iff)

text \<open>The queue apart from its gate.\<close>

definition same_queue :: "('s, 'w) run_state \<Rightarrow> ('s, 'w) run_state \<Rightarrow> bool" where
  "same_queue st st' \<longleftrightarrow> (\<exists>g. rs_queue st' = rs_queue st\<lparr>q_admission := g\<rparr>)"

lemma run_inv_same_queue:
  assumes "run_inv st" "same_queue st st'" "pool_inv 0 (rs_sessions st')" "sp_max_size (rs_sessions st') = sp_max_size (rs_sessions st)"
  shows "run_inv st'"
  using assms by (auto simp: same_queue_def run_inv_def)

lemma execute_creation_run:
  assumes client: "single_client sem be pres" and inv: "pool_inv 0 p" "0 < sp_max_size p"
    and name: "wf_name name" "db_value name \<in> N" and s: "settled_world pres g N s"
  obtains r p' t g' where "execute be op (create_on_session sem be now server source name) p s = Some (Return r, p', t)"
    "pool_inv 0 p'" "sp_max_size p' = sp_max_size p" "settled_world pres g' (N - {db_value name}) t"
    "case r of Inr _ \<Rightarrow> g' = g \<and> \<not> sem_is_closed sem g | Inl _ \<Rightarrow> g' = g \<and> settled_world pres g N t \<or> g' = admission_close sem g"
proof -
  let ?f = "\<lambda>client s. let (r, s') = create_on_session sem be now server source name client s in (disposition_of r, s')"
  from inv settled_requests(1)[OF client] settled_sessions[OF client] s show thesis
  proof (cases rule: session_operation[where f = ?f and op = op])
    case (refused e p' t)
    then show thesis by (intro that[of "Inl e" p' t g]) (auto simp: execute_def settled_world_def)
  next
    case (ran c u out p' t)
    obtain r v g' where cr: "create_on_session sem be now server source name c u = (Return r, v)"
      "settled_world pres g' (N - {db_value name}) v"
      "case r of Inr _ \<Rightarrow> g' = g \<and> \<not> sem_is_closed sem g | Inl _ \<Rightarrow> g' = g \<and> settled_world pres g N v \<or> g' = admission_close sem g"
      by (rule create_on_session_run[OF client name ran(2), where now = now and server = server and source = source and c = c])
    from cr(1) ran(3) have "out = disposition_of (Return r)" "t = v" by simp_all
    with ran cr show thesis
      by (intro that[of r p' t g']) (auto simp: execute_def disposition_of_def split: sum.split)
  qed
qed

lemma settled_set_gate: "settled_world pres g N t \<Longrightarrow> settled_world pres h N (set_gate h t)"
  by (simp add: settled_world_def set_gate_def on_server_def)

lemma after_session_run:
  assumes "run_inv st" "pool_inv 0 p" "sp_max_size p = sp_max_size (rs_sessions st)" "settled_world pres g N t"
  shows "run_inv (after_session p t st)" "same_queue st (after_session p t st)" "absent pres N (after_session p t st)"
    "run_available sem (after_session p t st) = sem_available sem g" "run_closed sem (after_session p t st) = sem_is_closed sem g"
proof -
  show same: "same_queue st (after_session p t st)" by (auto simp: after_session_def share_gate_def same_queue_def)
  show "run_inv (after_session p t st)"
    by (rule run_inv_same_queue[OF assms(1) same]) (use assms(2,3) in \<open>simp_all add: after_session_def\<close>)
  show "absent pres N (after_session p t st)" "run_available sem (after_session p t st) = sem_available sem g"
    "run_closed sem (after_session p t st) = sem_is_closed sem g"
    using assms(4) by (auto simp: after_session_def share_gate_def settled_world_def absent_def run_available_def run_closed_def)
qed

lemma run_database_run:
  assumes client: "single_client sem be pres" and inv: "run_inv st" and absent: "absent pres N st"
    and name: "DatabaseName_test (srv_project server) uuid = Return name" "db_value name \<in> N"
    and enough: "k \<le> run_available sem st"
    and k: "k = connections_per_database (srv_connection_limits server)"
  obtains (refused) e st' where "run_database sem api be now server uuid source st = Some (Return (Inl e), st')"
      "run_inv st'" "same_queue st st'" "run_available sem st' = run_available sem st" "run_closed sem st \<Longrightarrow> run_closed sem st'"
      "absent pres (N - {db_value name}) st'" "run_closed sem st' \<or> absent pres N st'"
    | (leased) lease st' where "run_database sem api be now server uuid source st = Some (Return (Inr lease), st')"
      "le_inner lease = Some \<lparr>li_name = name, li_permit = k, li_prewarm_pool = None\<rparr>"
      "run_inv st'" "same_queue st st'" "run_available sem st' + k = run_available sem st" "\<not> run_closed sem st" "\<not> run_closed sem st'"
      "absent pres (N - {db_value name}) st'"
proof -
  let ?g = "q_admission (rs_queue st)"
  from client have laws: "semaphore_laws sem" by (simp add: single_client_def)
  from inv have pool: "pool_inv 0 (rs_sessions st)" "0 < sp_max_size (rs_sessions st)" by (simp_all add: run_inv_def)
  have wf: "wf_name name" by (rule test_name_wf[OF name(1)])
  have gate: "fst (world (session_view st)) = ?g" by (simp add: session_view_def set_gate_def)
  have view: "settled_world pres ?g N (session_view st)" by (simp add: settled_session_view absent)
  note defs = run_database_def create_test_database_def gate acquire_database_permit_def admission_acquire_def k[symmetric]
    run_available_def[of sem st] run_closed_def[of sem st]
  show thesis
  proof (cases "sem_acquire sem k ?g")
    case (Acquired g1)
    obtain r p' t g' where ex: "execute be ''connect for disposable database creation''
        (create_on_session sem be now server source name) (rs_sessions st) (set_gate g1 (session_view st)) = Some (Return r, p', t)"
      and p': "pool_inv 0 p'" "sp_max_size p' = sp_max_size (rs_sessions st)"
      and t: "settled_world pres g' (N - {db_value name}) t"
        "case r of Inr _ \<Rightarrow> g' = g1 \<and> \<not> sem_is_closed sem g1 | Inl _ \<Rightarrow> g' = g1 \<and> settled_world pres g1 N t \<or> g' = admission_close sem g1"
      by (rule execute_creation_run[OF client pool wf name(2) settled_set_gate[OF view, of g1], where now = now and server = server
            and source = source and op = "''connect for disposable database creation''"])
    have world: "fst (world t) = g'" using t(1) by (simp add: settled_world_def)
    note acq = semaphore_lawsD(3)[OF laws Acquired] and sem = semaphore_lawsD(5-8)[OF laws]
    show thesis
    proof (cases r)
      case (Inl e)
      let ?h = "sem_add_permits sem k g'"
      note st' = after_session_run[OF inv p' settled_set_gate[OF t(1), of ?h]]
      have "run_closed sem (after_session p' (set_gate ?h t) st) \<or> absent pres N (after_session p' (set_gate ?h t) st)"
        using t(2) Inl sem after_session_run(3)[OF inv p' settled_set_gate, of pres g1 N t ?h]
        by (auto simp: st'(5) admission_close_def)
      with st' show thesis
        by (intro refused[of e "after_session p' (set_gate ?h t) st"])
          (use Acquired ex name(1) Inl acq t(2) sem in \<open>auto simp: defs Let_def world admission_close_def\<close>)
    next
      case (Inr x)
      let ?lease = "\<lparr>le_inner = Some \<lparr>li_name = name, li_permit = k, li_prewarm_pool = None\<rparr>,
          le_database_url = database_url api (srv_admin_url server) name\<rparr>"
      from after_session_run[OF inv p' t(1)] show thesis
        by (intro leased[of ?lease "after_session p' t st"])
          (use Acquired ex name(1) Inr acq t(2) in \<open>auto simp: defs Let_def\<close>)
    qed
  next
    case Acquire_closed
    from after_session_run[OF inv pool(1) refl view] show thesis
      by (intro refused[of ConnectionBudgetClosed "after_session (rs_sessions st) (session_view st) st"])
        (use Acquire_closed in \<open>auto simp: defs set_gate_def session_view_def absent_def\<close>)
  qed (use single_client_poll[OF client enough[unfolded run_available_def]] in simp)
qed

section \<open>Submitting and waiting\<close>

text \<open>The queue after a submission: an awaited job carries the permit, a deferred one has given it back.\<close>

definition submitted :: "'s semaphore \<Rightarrow> cleanup_completion \<Rightarrow> nat \<Rightarrow> database_name \<Rightarrow> 's cleanup_queue \<Rightarrow> 's cleanup_queue" where
  "submitted sem completion k name q =
     q\<lparr>q_next_sequence := Suc (q_next_sequence q),
       q_jobs := q_jobs q @ [\<lparr>job_sequence = Suc (q_next_sequence q), job_database_name = db_value name,
         job_completion = completion, job_permit = (case completion of Awaited \<Rightarrow> Some k | Deferred \<Rightarrow> None)\<rparr>],
       q_admission := (case completion of Awaited \<Rightarrow> q_admission q | Deferred \<Rightarrow> sem_add_permits sem k (q_admission q))\<rparr>"

definition submission :: "'s semaphore \<Rightarrow> cleanup_completion \<Rightarrow> database_lease \<Rightarrow> 's cleanup_queue
     \<Rightarrow> (unit result exec \<times> database_lease \<times> 's cleanup_queue \<times> 's prewarm_pool option) option" where
  "submission sem completion lease = (case completion of Awaited \<Rightarrow> cleanup_submitted sem lease None | Deferred \<Rightarrow> defer_cleanup sem lease None)"

lemma submission_run:
  assumes "le_inner lease = Some \<lparr>li_name = name, li_permit = k, li_prewarm_pool = None\<rparr>"
    and "\<not> q_closed q" "q_next_sequence q < u64_max"
  shows "submission sem completion lease q =
     (if q_capacity q \<le> length (q_jobs q) then None
      else Some (Return (Inr ()), lease\<lparr>le_inner := None\<rparr>, submitted sem completion k name q, None))"
  using assms
  by (auto simp: submission_def cleanup_submitted_def defer_cleanup_def queue_awaited_cleanup_def queue_deferred_cleanup_def
      after_submission_def begin_lease_return_def submit_awaited_outcome_def submit_deferred_outcome_def enqueue_def
      checked_add_u64_def drop_permit_def submitted_def split: cleanup_completion.split)

lemma run_inv_submitted:
  assumes "run_inv st" "wf_name name" "db_kind name = Test" "length (q_jobs (rs_queue st)) < q_capacity (rs_queue st)"
  shows "run_inv (st\<lparr>rs_queue := submitted sem completion k name (rs_queue st)\<rparr>)"
proof -
  from assms(2,3) have "wf_name \<lparr>db_value = db_value name, db_kind = Test\<rparr>" by (cases name) simp
  with assms show ?thesis by (auto simp: run_inv_def submitted_def job_name_def)
qed

lemma submit_waiting_run:
  fixes st :: "('s, 'w) run_state"
  assumes client: "single_client sem be pres" and inv: "run_inv st" and absent: "absent pres N st"
    and lease: "le_inner lease = Some \<lparr>li_name = name, li_permit = k, li_prewarm_pool = None\<rparr>" "wf_name name" "db_kind name = Test"
    and room: "q_next_sequence (rs_queue st) < u64_max"
  obtains jobs outcomes st1 st' where
    "submit_waiting sem api be now server (submission sem completion lease) st = Some (Return (Inr ()), st')"
    "worked sem pres N st jobs outcomes st1" "st' = st1\<lparr>rs_queue := submitted sem completion k name (rs_queue st1)\<rparr>" "run_inv st'"
proof (cases "length (q_jobs (rs_queue st)) < q_capacity (rs_queue st)")
  case True
  with inv room
  have "submit_waiting sem api be now server (submission sem completion lease) st
      = Some (Return (Inr ()), st\<lparr>rs_queue := submitted sem completion k name (rs_queue st)\<rparr>)"
    by (simp add: submit_waiting_def run_inv_def submission_run[OF lease(1)])
  with worked_nothing[OF inv absent] run_inv_submitted[OF inv lease(2,3) True] show thesis by (intro that) auto
next
  case False
  obtain outcomes st1 where turns: "cleanup_worker sem api be now server st
      = Some (Return (concat (map2 sent_of (q_jobs (rs_queue st)) outcomes), st1))"
    and worked: "worked sem pres N st (q_jobs (rs_queue st)) outcomes st1"
    by (rule worker_turns_run[OF client inv absent, where api = api and now = now and server = server])
  from worked have st1: "run_inv st1" "q_jobs (rs_queue st1) = []" "q_next_sequence (rs_queue st1) < u64_max"
    using room by (simp_all add: worked_def)
  then have space: "length (q_jobs (rs_queue st1)) < q_capacity (rs_queue st1)" by (simp add: run_inv_def)
  have "submission sem completion lease (rs_queue st) = None"
    using False inv room by (simp add: run_inv_def submission_run[OF lease(1)])
  moreover have "submission sem completion lease (rs_queue st1)
      = Some (Return (Inr ()), lease\<lparr>le_inner := None\<rparr>, submitted sem completion k name (rs_queue st1), None)"
    using space st1 by (simp add: run_inv_def submission_run[OF lease(1)])
  ultimately have "submit_waiting sem api be now server (submission sem completion lease) st
      = Some (Return (Inr ()), st1\<lparr>rs_queue := submitted sem completion k name (rs_queue st1)\<rparr>)"
    using turns by (simp add: submit_waiting_def)
  with worked run_inv_submitted[OF st1(1) lease(2,3) space] show thesis by (intro that) auto
qed

text \<open>The permits that no lease holds.\<close>

definition run_permits :: "'s semaphore \<Rightarrow> ('s, 'w) run_state \<Rightarrow> nat" where
  "run_permits sem st = run_available sem st + sum_list (map permits_of (q_jobs (rs_queue st)))"

lemma worked_permits: "worked sem pres N st jobs outcomes st' \<Longrightarrow> run_permits sem st' = run_permits sem st"
  by (simp add: worked_def run_permits_def)

lemma worked_absent: "worked sem pres N st jobs outcomes st' \<Longrightarrow> absent pres N st'"
  by (simp add: worked_def absent_def)

lemma worked_closed: "worked sem pres N st jobs outcomes st' \<Longrightarrow> run_closed sem st \<Longrightarrow> run_closed sem st'"
  by (simp add: worked_def)

lemma submitted_permits:
  assumes "semaphore_laws sem"
  shows "run_permits sem (st\<lparr>rs_queue := submitted sem completion k name (rs_queue st)\<rparr>) = run_permits sem st + k"
    "run_closed sem (st\<lparr>rs_queue := submitted sem completion k name (rs_queue st)\<rparr>) = run_closed sem st"
  using semaphore_lawsD(5,6)[OF assms]
  by (auto simp: run_permits_def run_available_def run_closed_def submitted_def permits_of_def split: cleanup_completion.split)

lemma absent_queue [simp]: "absent pres N (st\<lparr>rs_queue := q\<rparr>) = absent pres N st"
  by (simp add: absent_def)

text \<open>The last job that was settled, when it is an awaited one.\<close>

lemma worked_last:
  assumes "worked sem pres N st (jobs @ [job]) outcomes st'" "job_completion job = Awaited"
  obtains out where
    "await_cleanup (last_sent (concat (map2 sent_of (jobs @ [job]) outcomes))) = Return (into_result out)"
    "may_leave_residual out \<Longrightarrow> run_closed sem st'" "\<not> may_leave_residual out \<Longrightarrow> absent pres (insert (job_database_name job) N) st'"
    "\<forall>e. out \<noteq> NoResidual e"
proof -
  from assms(1) obtain os out where os: "outcomes = os @ [out]" "length os = length jobs"
    unfolding worked_def by (metis length_Suc_conv_rev length_append_singleton)
  have zip: "zip (jobs @ [job]) outcomes = zip jobs os @ [(job, out)]" using os by simp
  have "sent_of job out \<noteq> []" "last (sent_of job out) = AwaitedCleanupOutcome_new (into_result out) (job_sequence job) (job_database_name job)"
    using assms(2) by (simp_all add: sent_of_def)
  then have "await_cleanup (last_sent (concat (map2 sent_of (jobs @ [job]) outcomes)))
      = Return (into_result out)"
    by (simp add: zip last_sent_def await_cleanup_def awaited_finish_def AwaitedCleanupOutcome_new_def)
  moreover have "\<not> may_leave_residual out \<Longrightarrow> job_database_name job \<in> cleaned (jobs @ [job]) outcomes"
    by (auto simp: cleaned_def zip)
  moreover have "may_leave_residual out \<Longrightarrow> run_closed sem st'" "\<forall>e. out \<noteq> NoResidual e"
    "absent pres (N \<union> cleaned (jobs @ [job]) outcomes) st'" using assms(1) by (auto simp: worked_def os(1))
  ultimately show thesis by (intro that[of out]) (auto simp: absent_def)
qed

section \<open>Cleanups and drains\<close>

text \<open>
  The ledger of deferred databases: each one is gone, waits in the queue, or has a failure that a drain will report.
\<close>

definition accounted :: "('w \<Rightarrow> string \<Rightarrow> bool) \<Rightarrow> string set \<Rightarrow> ('s, 'w) run_state \<Rightarrow> bool" where
  "accounted pres D st \<longleftrightarrow>
     (\<forall>n \<in> D. \<not> on_server pres (world (rs_io st)) n
        \<or> (\<exists>job \<in> set (q_jobs (rs_queue st)). job_database_name job = n \<and> job_completion job = Deferred)
        \<or> (\<exists>f \<in> set (q_failures (rs_queue st)). failure_database_name (sf_failure f) = n))
     \<and> (\<forall>f \<in> set (q_failures (rs_queue st)). sf_sequence f \<le> q_next_sequence (rs_queue st))"

definition missing :: "('w \<Rightarrow> string \<Rightarrow> bool) \<Rightarrow> ('s, 'w) run_state \<Rightarrow> string set" where
  "missing pres st = {n. \<not> on_server pres (world (rs_io st)) n}"

lemma absent_missing: "absent pres N st \<longleftrightarrow> N \<subseteq> missing pres st"
  by (auto simp: absent_def missing_def)

lemma failure_of_deferred:
  assumes "job_completion job = Deferred" "may_leave_residual outcome"
  shows "\<exists>f \<in> set (failure_of job outcome). failure_database_name (sf_failure f) = job_database_name job"
  using assms by (cases outcome) (auto simp: failure_of_def)

lemma failure_of_sequence: "f \<in> set (failure_of job outcome) \<Longrightarrow> sf_sequence f = job_sequence job"
  by (auto simp: failure_of_def split: cleanup_completion.splits sum.splits)

lemma run_inv_sequences: "run_inv st \<Longrightarrow> job \<in> set (q_jobs (rs_queue st)) \<Longrightarrow> job_sequence job \<le> q_next_sequence (rs_queue st)"
proof -
  assume "run_inv st" "job \<in> set (q_jobs (rs_queue st))"
  then have "job_sequence job \<in> set [Suc (q_completed_through (rs_queue st))..<Suc (q_next_sequence (rs_queue st))]"
    unfolding run_inv_def by (metis image_eqI list.set_map)
  then show ?thesis by auto
qed

lemma accounted_worked:
  assumes inv: "run_inv st" and acc: "accounted pres D st" and worked: "worked sem pres (missing pres st) st jobs outcomes st'"
  shows "accounted pres D st'"
proof -
  have len: "length outcomes = length jobs" and q: "q_jobs (rs_queue st) = jobs @ q_jobs (rs_queue st')"
    and fl: "q_failures (rs_queue st') = q_failures (rs_queue st) @ concat (map2 failure_of jobs outcomes)"
    and seq: "q_next_sequence (rs_queue st') = q_next_sequence (rs_queue st)"
    and gone: "absent pres (missing pres st \<union> cleaned jobs outcomes) st'"
    using worked by (simp_all add: worked_def)
  have settled: "\<not> on_server pres (world (rs_io st')) (job_database_name job)
      \<or> (\<exists>f \<in> set (q_failures (rs_queue st')). failure_database_name (sf_failure f) = job_database_name job)"
    if job: "job \<in> set jobs" "job_completion job = Deferred" for job
  proof -
    from job(1) len obtain outcome where z: "(job, outcome) \<in> set (zip jobs outcomes)"
      by (metis in_set_impl_in_set_zip1)
    show ?thesis
    proof (cases "may_leave_residual outcome")
      case True
      with failure_of_deferred[OF job(2)] z show ?thesis unfolding fl by fastforce
    next
      case False
      with z have "job_database_name job \<in> cleaned jobs outcomes" by (auto simp: cleaned_def)
      with gone show ?thesis by (simp add: absent_def)
    qed
  qed
  have bounded: "sf_sequence f \<le> q_next_sequence (rs_queue st)" if "f \<in> set (concat (map2 failure_of jobs outcomes))" for f
  proof -
    from that obtain job where "job \<in> set jobs" "sf_sequence f = job_sequence job"
      by (auto simp: failure_of_sequence dest: set_zip_leftD)
    with run_inv_sequences[OF inv] q show ?thesis by simp
  qed
  show ?thesis unfolding accounted_def
  proof (intro conjI ballI)
    fix f assume "f \<in> set (q_failures (rs_queue st'))"
    then show "sf_sequence f \<le> q_next_sequence (rs_queue st')"
      using acc bounded unfolding accounted_def fl seq by (metis Un_iff set_append)
  next
    fix n assume "n \<in> D"
    with acc consider "n \<in> missing pres st"
      | job where "job \<in> set jobs \<union> set (q_jobs (rs_queue st'))" "job_database_name job = n" "job_completion job = Deferred"
      | f where "f \<in> set (q_failures (rs_queue st))" "failure_database_name (sf_failure f) = n"
      unfolding accounted_def missing_def q set_append by blast
    then show "\<not> on_server pres (world (rs_io st')) n
        \<or> (\<exists>job \<in> set (q_jobs (rs_queue st')). job_database_name job = n \<and> job_completion job = Deferred)
        \<or> (\<exists>f \<in> set (q_failures (rs_queue st')). failure_database_name (sf_failure f) = n)"
    proof cases
      case 1
      with gone show ?thesis by (simp add: absent_def)
    next
      case 2
      with settled show ?thesis by blast
    next
      case 3
      with fl show ?thesis by auto
    qed
  qed
qed

lemma accounted_submitted:
  assumes "accounted pres D st"
  shows "accounted pres (insert (db_value name) D) (st\<lparr>rs_queue := submitted sem Deferred k name (rs_queue st)\<rparr>)"
  using assms by (auto simp: accounted_def submitted_def)

lemma run_cleanup_run:
  fixes st :: "('s, 'w) run_state"
  assumes client: "single_client sem be pres" and inv: "run_inv st"
    and lease: "le_inner lease = Some \<lparr>li_name = name, li_permit = k, li_prewarm_pool = None\<rparr>" "wf_name name" "db_kind name = Test"
    and room: "q_next_sequence (rs_queue st) < u64_max"
  obtains r st' where "run_cleanup sem api be now server lease st = Some (Return r, st')" "run_inv st'" "q_jobs (rs_queue st') = []"
    "q_next_sequence (rs_queue st') = Suc (q_next_sequence (rs_queue st))" "run_permits sem st' = run_permits sem st + k"
    "run_closed sem st \<Longrightarrow> run_closed sem st'" "missing pres st \<subseteq> missing pres st'"
    "r = Inr () \<Longrightarrow> db_value name \<in> missing pres st'" "r \<noteq> Inr () \<Longrightarrow> run_closed sem st'"
    "\<And>D. accounted pres D st \<Longrightarrow> accounted pres D st'"
proof -
  from client have laws: "semaphore_laws sem" by (simp add: single_client_def)
  obtain jobs1 outs1 st1 st2 where
    sub: "submit_waiting sem api be now server (submission sem Awaited lease) st = Some (Return (Inr ()), st2)"
    and w1: "worked sem pres (missing pres st) st jobs1 outs1 st1" and st2: "st2 = st1\<lparr>rs_queue := submitted sem Awaited k name (rs_queue st1)\<rparr>" "run_inv st2"
    by (rule submit_waiting_run[OF client inv _ lease room, where N = "missing pres st" and api = api and now = now
          and server = server and completion = Awaited]) (auto simp: absent_missing)
  obtain outs2 st3 where turns: "cleanup_worker sem api be now server st2
      = Some (Return (concat (map2 sent_of (q_jobs (rs_queue st2)) outs2), st3))"
    and w2: "worked sem pres (missing pres st2) st2 (q_jobs (rs_queue st2)) outs2 st3"
    by (rule worker_turns_run[OF client st2(2), where N = "missing pres st2" and api = api and now = now and server = server])
      (auto simp: absent_missing)
  define job where "job = \<lparr>job_sequence = Suc (q_next_sequence (rs_queue st1)), job_database_name = db_value name,
      job_completion = Awaited, job_permit = Some k\<rparr>"
  have jobs: "q_jobs (rs_queue st2) = q_jobs (rs_queue st1) @ [job]" by (simp add: st2 submitted_def job_def)
  have awaited: "job_completion job = Awaited" by (simp add: job_def)
  note w2' = w2[unfolded jobs]
  obtain out where out: "await_cleanup (last_sent (concat (map2 sent_of (q_jobs (rs_queue st1) @ [job]) outs2))) = Return (into_result out)"
    "may_leave_residual out \<Longrightarrow> run_closed sem st3" "\<not> may_leave_residual out \<Longrightarrow> absent pres (insert (job_database_name job) (missing pres st2)) st3"
    "\<forall>e. out \<noteq> NoResidual e"
    by (rule worked_last[OF w2' awaited]) blast
  show thesis
  proof (rule that)
    show "run_cleanup sem api be now server lease st = Some (Return (into_result out), st3)"
      using sub turns[unfolded jobs] out(1) by (simp add: run_cleanup_def submission_def)
    show "run_inv st3" "q_jobs (rs_queue st3) = []" using w2 by (simp_all add: worked_def)
    show "q_next_sequence (rs_queue st3) = Suc (q_next_sequence (rs_queue st))"
      using w1 w2 by (simp add: worked_def st2 submitted_def)
    show "run_permits sem st3 = run_permits sem st + k"
      by (simp add: worked_permits[OF w1] worked_permits[OF w2] submitted_permits(1)[OF laws] st2(1))
    show "run_closed sem st3" if "run_closed sem st"
      by (rule worked_closed[OF w2]) (simp add: worked_closed[OF w1 that] submitted_permits(2)[OF laws] st2(1))
    have "missing pres st \<subseteq> missing pres st2" using worked_absent[OF w1] by (simp add: absent_missing[symmetric] st2)
    moreover have "missing pres st2 \<subseteq> missing pres st3" using worked_absent[OF w2] by (simp add: absent_missing)
    ultimately show "missing pres st \<subseteq> missing pres st3" by blast
    show "db_value name \<in> missing pres st3" if "into_result out = Inr ()"
      using that out(3) by (cases out) (auto simp: job_def absent_missing)
    show "run_closed sem st3" if "into_result out \<noteq> Inr ()"
      using that out(2,4) by (cases out) auto
    show "accounted pres D st3" if "accounted pres D st" for D
      by (rule accounted_worked[OF st2(2) _ w2])
        (use accounted_worked[OF inv that w1] in \<open>auto simp: st2 accounted_def submitted_def\<close>)
  qed
qed

lemma run_defer_run:
  assumes client: "single_client sem be pres" and inv: "run_inv st" and acc: "accounted pres D st"
    and lease: "le_inner lease = Some \<lparr>li_name = name, li_permit = k, li_prewarm_pool = None\<rparr>" "wf_name name" "db_kind name = Test"
    and room: "q_next_sequence (rs_queue st) < u64_max"
  obtains st' where "run_defer sem api be now server lease st = Some (Return (Inr ()), st')" "run_inv st'"
    "q_next_sequence (rs_queue st') = Suc (q_next_sequence (rs_queue st))" "run_permits sem st' = run_permits sem st + k"
    "run_closed sem st \<Longrightarrow> run_closed sem st'" "missing pres st \<subseteq> missing pres st'" "accounted pres (insert (db_value name) D) st'"
proof -
  from client have laws: "semaphore_laws sem" by (simp add: single_client_def)
  obtain jobs outcomes st1 st' where
    sub: "submit_waiting sem api be now server (submission sem Deferred lease) st = Some (Return (Inr ()), st')"
    and w: "worked sem pres (missing pres st) st jobs outcomes st1"
    and st': "st' = st1\<lparr>rs_queue := submitted sem Deferred k name (rs_queue st1)\<rparr>" "run_inv st'"
    by (rule submit_waiting_run[OF client inv _ lease room, where N = "missing pres st" and api = api and now = now
          and server = server and completion = Deferred]) (auto simp: absent_missing)
  show thesis
  proof (rule that)
    show "run_defer sem api be now server lease st = Some (Return (Inr ()), st')" using sub by (simp add: run_defer_def submission_def)
    show "run_inv st'" by (rule st'(2))
    show "q_next_sequence (rs_queue st') = Suc (q_next_sequence (rs_queue st))" using w by (simp add: worked_def st' submitted_def)
    show "run_permits sem st' = run_permits sem st + k" by (simp add: st' submitted_permits[OF laws] worked_permits[OF w])
    show "run_closed sem st'" if "run_closed sem st" by (simp add: st' submitted_permits[OF laws] worked_closed[OF w that])
    show "missing pres st \<subseteq> missing pres st'" using worked_absent[OF w] by (simp add: absent_missing[symmetric] st')
    show "accounted pres (insert (db_value name) D) st'"
      unfolding st'(1) by (rule accounted_submitted[OF accounted_worked[OF inv acc w]])
  qed
qed

lemma run_drain_run:
  assumes client: "single_client sem be pres" and inv: "run_inv st" and acc: "accounted pres D st"
  obtains r st' where "run_drain sem api be now server st = Some (r, st')" "run_inv st'" "q_jobs (rs_queue st') = []"
    "q_failures (rs_queue st') = []" "run_permits sem st' = run_permits sem st" "run_closed sem st \<Longrightarrow> run_closed sem st'"
    "missing pres st \<subseteq> missing pres st'" "r = Inr () \<Longrightarrow> absent pres D st'"
    "r \<noteq> Inr () \<Longrightarrow> \<exists>fs. r = Inl (Error_deferred_cleanup fs) \<and> fs \<noteq> [] \<and> (\<forall>n \<in> D. absent pres {n} st' \<or> n \<in> failure_database_name ` set fs)"
proof -
  obtain outcomes st1 where turns: "cleanup_worker sem api be now server st
      = Some (Return (concat (map2 sent_of (q_jobs (rs_queue st)) outcomes), st1))"
    and w: "worked sem pres (missing pres st) st (q_jobs (rs_queue st)) outcomes st1"
    by (rule worker_turns_run[OF client inv, where N = "missing pres st" and api = api and now = now and server = server])
      (auto simp: absent_missing)
  have st1: "run_inv st1" "q_jobs (rs_queue st1) = []" "q_next_sequence (rs_queue st1) = q_next_sequence (rs_queue st)"
    using w by (simp_all add: worked_def)
  note acc1 = accounted_worked[OF inv acc w]
  have through: "\<not> q_completed_through (rs_queue st1) < q_next_sequence (rs_queue st)" "\<not> q_delivery_in_flight (rs_queue st1)"
    using st1 by (auto simp: run_inv_def split: if_splits)
  let ?fs = "sort_key sf_sequence (q_failures (rs_queue st1))"
  have all: "filter (\<lambda>f. sf_sequence f \<le> q_next_sequence (rs_queue st)) (q_failures (rs_queue st1)) = q_failures (rs_queue st1)"
    "filter (\<lambda>f. \<not> sf_sequence f \<le> q_next_sequence (rs_queue st)) (q_failures (rs_queue st1)) = []"
    using acc1 st1(3) by (simp_all add: accounted_def)
  let ?st' = "st1\<lparr>rs_queue := rs_queue st1\<lparr>q_failures := []\<rparr>\<rparr>"
  let ?r = "if q_failures (rs_queue st1) = [] then Inr () else Inl (Error_deferred_cleanup (map sf_failure ?fs))"
  have sorted: "sort_key sf_sequence fs = [] \<longleftrightarrow> fs = []" for fs :: "sequenced_failure list"
    by (metis length_0_conv length_sort)
  have drain: "run_drain sem api be now server st = Some (?r, ?st')"
    using turns through
    by (simp add: run_drain_def drain_deferred_cleanup_def wait_and_take_def current_target_def drain_finish_def
        acknowledge_delivery_def all[unfolded not_le] sorted not_le Let_def)
  show thesis
  proof (rule that[OF drain])
    show "run_inv ?st'" "q_jobs (rs_queue ?st') = []" "q_failures (rs_queue ?st') = []" using st1(1,2) by (simp_all add: run_inv_def)
    show "run_permits sem ?st' = run_permits sem st"
      using worked_permits[OF w] by (simp add: run_permits_def run_available_def)
    show "run_closed sem ?st'" if "run_closed sem st" using worked_closed[OF w that] by (simp add: run_closed_def)
    show "missing pres st \<subseteq> missing pres ?st'" using worked_absent[OF w] by (simp add: absent_missing[symmetric])
    show "absent pres D ?st'" if "?r = Inr ()"
      using that acc1 st1(2) by (auto simp: accounted_def absent_def split: if_splits)
    show "\<exists>fs. ?r = Inl (Error_deferred_cleanup fs) \<and> fs \<noteq> [] \<and> (\<forall>n \<in> D. absent pres {n} ?st' \<or> n \<in> failure_database_name ` set fs)"
      if "?r \<noteq> Inr ()"
      using that acc1 st1(2) by (intro exI[of _ "map sf_failure ?fs"]) (auto simp: accounted_def absent_def sorted image_iff split: if_splits)
  qed
qed

text \<open>A shutdown after a drain finds nothing to clean up.\<close>

lemma run_shutdown_run:
  assumes laws: "semaphore_laws sem" and inv: "run_inv st" and drained: "q_jobs (rs_queue st) = []" "q_failures (rs_queue st) = []"
  obtains st' where
    "run_shutdown sem api be now server container st = Some (case container of None \<Rightarrow> Inr () | Some stopped \<Rightarrow> stopped, st')"
    "rs_io st' = rs_io st" "q_jobs (rs_queue st') = []" "q_failures (rs_queue st') = []"
    "run_permits sem st' = run_permits sem st" "run_closed sem st' \<longleftrightarrow> run_closed sem st \<or> container \<noteq> None"
    "container \<noteq> None \<Longrightarrow> sp_closed (rs_sessions st') \<and> sp_idle (rs_sessions st') = []"
proof (cases container)
  case None
  with drained show thesis by (intro that[of st]) (simp_all add: run_shutdown_def begin_owned_container_shutdown_def)
next
  case (Some stopped)
  have idle: "q_completed_through (rs_queue st) = q_next_sequence (rs_queue st)" "\<not> q_delivery_in_flight (rs_queue st)"
    using inv drained(1) by (auto simp: run_inv_def split: if_splits)
  have pool: "pool_close (rs_sessions st) = Return (rs_sessions st\<lparr>sp_closed := True, sp_total := 0, sp_idle := []\<rparr>)"
    using inv by (simp add: run_inv_def pool_inv_def pool_close_def checked_sub_def)
  have combine: "combine_cleanup_and_shutdown (Inr ()) stopped = stopped"
    by (auto simp: combine_cleanup_and_shutdown_def split: sum.split)
  let ?st' = "st\<lparr>rs_sessions := rs_sessions st\<lparr>sp_closed := True, sp_total := 0, sp_idle := []\<rparr>,
      rs_queue := rs_queue st\<lparr>q_admission := admission_close sem (q_admission (rs_queue st)), q_closed := True, q_failures := []\<rparr>\<rparr>"
  have "run_shutdown sem api be now server container st = Some (stopped, ?st')"
    using idle pool combine Some drained
    by (simp add: run_shutdown_def begin_owned_container_shutdown_def submission_close_def cleanup_worker_def
        wait_and_take_def OwnedShutdownOutcome_finish_def drain_finish_def)
  then show thesis
    using Some drained semaphore_lawsD(7,8)[OF laws]
    by (intro that[of ?st']) (simp_all add: run_permits_def run_available_def run_closed_def admission_close_def)
qed

section \<open>A small run\<close>

lemma small_names:
  "DatabaseName_test (srv_project demo_server) ''0'' = Return \<lparr>db_value = ''pgh_a_test_0'', db_kind = Test\<rparr>"
  "DatabaseName_test (srv_project demo_server) ''1'' = Return \<lparr>db_value = ''pgh_a_test_1'', db_kind = Test\<rparr>"
  by (simp_all add: DatabaseName_test_def DatabaseName_new_def demo_server_def test_prefix_def identifier_char_def std_defs
      IDENTIFIER_MAX_LEN_def)

lemma pooled_single_client: "single_client counting_semaphore pooled_server (\<lambda>w n. n \<in> set w)"
proof -
  have "gate_private pooled_server"
    by (auto simp: gate_private_def pooled_server_def lift_backend_def lift_reply_def mini_server_def case_prod_beta Let_def)
  moreover have "\<forall>n g. n \<le> sem_available counting_semaphore g \<longrightarrow> sem_acquire counting_semaphore n g \<noteq> Acquire_pending"
    by (auto simp: counting_semaphore_def split: prod.splits)
  ultimately show ?thesis
    by (simp add: single_client_def counting_semaphore_laws pooled_server_laws pooled_only_created)
qed

definition small_run :: "nat \<Rightarrow> (nat \<times> bool, string list) run_state" where
  "small_run permits = \<lparr>rs_sessions = demo_pool, rs_queue = new_queue 4 (sem_new counting_semaphore permits),
     rs_io = \<lparr>world = (sem_new counting_semaphore permits, (PrewarmPool_new counting_semaphore 1, Complete), []), trace = []\<rparr>\<rparr>"

lemma small_run_start:
  "run_inv (small_run n)" "accounted pres {} (small_run n)" "q_next_sequence (rs_queue (small_run n)) = 0"
  "q_jobs (rs_queue (small_run n)) = []"
  "run_available counting_semaphore (small_run n) = n" "run_permits counting_semaphore (small_run n) = n"
  "snd (snd (world (rs_io (small_run n)))) = []"
  by (simp_all add: small_run_def run_inv_def pool_inv_def demo_pool_def AdminSessionPool_new_def new_queue_def accounted_def
      run_available_def run_permits_def counting_semaphore_def)

end
