(* ===== verification/Examples.thy ===== *)
theory Examples
  imports Test_Runs
begin

text \<open>
  The two example programs that use the harness the way a test suite does:
  \<open>examples/downstream_adapter.rs\<close> (one harness and one template per process, an isolated test, a teardown that
  always runs) and \<open>examples/derived_scenarios.rs\<close> (a tree of derived templates whose clones are checked).
  What they run on the databases goes through \<open>tokio_postgres\<close>, the record \<open>application\<close>.
\<close>

section \<open>Errors and the application's connection\<close>

text \<open>
  \<open>BoxError\<close> by what was boxed. \<open>Scenario_mismatch\<close> is the \<open>io::Error\<close> that prints the expected and the actual
  rows.
\<close>

type_synonym scenario_row = "int \<times> string \<times> int \<times> string \<times> int \<times> string \<times> string"

datatype box_error =
    Box_harness error
  | Box_client pg_error
  | Box_io string
  | Box_join string
  | Scenario_mismatch "scenario_row list" "scenario_row list"
  | OperationAndCleanupError (oc_operation: box_error) (oc_cleanup: box_error)

type_synonym 'a box_result = "box_error + 'a"

text \<open>
  A connection to a database of the server in state \<open>'w\<close>: connect, run statements, read a count or rows, and
  close. Closing drops the client and yields what joining the connection's task returns.
\<close>

record ('c, 'w) application =
  ap_connect :: "string \<Rightarrow> 'w \<Rightarrow> (pg_error + 'c) \<times> 'w"
  ap_batch :: "'c \<Rightarrow> string \<Rightarrow> 'w \<Rightarrow> (pg_error + unit) \<times> 'w"
  ap_count :: "'c \<Rightarrow> string \<Rightarrow> 'w \<Rightarrow> (pg_error + int) \<times> 'w"
  ap_rows :: "'c \<Rightarrow> string \<Rightarrow> 'w \<Rightarrow> (pg_error + scenario_row list) \<times> 'w"
  ap_join :: "'c \<Rightarrow> 'w \<Rightarrow> (string + (pg_error + unit)) \<times> 'w"

definition box_client :: "(pg_error + 'a) \<Rightarrow> 'a box_result" where
  "box_client r = (case r of Inl e \<Rightarrow> Inl (Box_client e) | Inr x \<Rightarrow> Inr x)"

definition box_harness :: "'a result \<Rightarrow> 'a box_result" where
  "box_harness r = (case r of Inl e \<Rightarrow> Inl (Box_harness e) | Inr x \<Rightarrow> Inr x)"

definition finish_connection :: "string + (pg_error + unit) \<Rightarrow> unit box_result" where
  "finish_connection joined = (case joined of Inl e \<Rightarrow> Inl (Box_join e) | Inr r \<Rightarrow> box_client r)"

text \<open>An operation and a cleanup that runs whatever the operation returned; both errors are kept.\<close>

definition combine :: "'a box_result \<Rightarrow> unit box_result \<Rightarrow> 'a box_result" where
  "combine operation cleanup =
     (case (operation, cleanup) of
        (Inr v, Inr _) \<Rightarrow> Inr v
      | (Inl e, Inr _) \<Rightarrow> Inl e
      | (Inr _, Inl e) \<Rightarrow> Inl e
      | (Inl e, Inl c) \<Rightarrow> Inl (OperationAndCleanupError e c))"

definition adapter_combine :: "unit box_result \<Rightarrow> unit box_result \<Rightarrow> unit box_result" where
  "adapter_combine operation cleanup =
     (case (operation, cleanup) of
        (Inr _, Inr _) \<Rightarrow> Inr ()
      | (Inl e, Inr _) \<Rightarrow> Inl e
      | (Inr _, Inl e) \<Rightarrow> Inl e
      | (Inl e, Inl c) \<Rightarrow> Inl (OperationAndCleanupError e c))"

text \<open>Connect, operate, close; the close runs on every path once a connection exists.\<close>

definition on_connection ::
  "('c, 'w) application \<Rightarrow> string \<Rightarrow> ('c \<Rightarrow> 'w \<Rightarrow> unit box_result \<times> 'w) \<Rightarrow> 'w \<Rightarrow> unit box_result \<times> 'w" where
  "on_connection app url operation w =
     (case ap_connect app url w of
        (Inl e, w1) \<Rightarrow> (Inl (Box_client e), w1)
      | (Inr client, w1) \<Rightarrow>
          (let (r, w2) = operation client w1; (joined, w3) = ap_join app client w2
           in (combine r (finish_connection joined), w3)))"

section \<open>The downstream adapter\<close>

definition PROJECT :: string where "PROJECT = ''adapter_example''"
definition APPLICATION_POOL_MAX :: "32 word" where "APPLICATION_POOL_MAX = 8"
definition STANDALONE_CONNECTIONS :: "32 word" where "STANDALONE_CONNECTIONS = 1"
definition CONNECTIONS_PER_DATABASE :: "32 word" where
  "CONNECTIONS_PER_DATABASE = APPLICATION_POOL_MAX + STANDALONE_CONNECTIONS"
definition MAX_PARALLEL_DATABASES :: nat where "MAX_PARALLEL_DATABASES = 8"
definition CONNECTION_BUDGET :: nat where
  "CONNECTION_BUDGET = MAX_PARALLEL_DATABASES * unat CONNECTIONS_PER_DATABASE"

definition text_lines :: "string list \<Rightarrow> string" where
  "text_lines ls = concat (map (\<lambda>l. l @ [CHR 0x0A]) ls)"

definition CREATE_WIDGETS :: string where
  "CREATE_WIDGETS = text_lines
     [''CREATE TABLE widgets ('',
      ''    id bigint GENERATED ALWAYS AS IDENTITY PRIMARY KEY,'',
      ''    name text NOT NULL,'',
      ''    created_at timestamptz NOT NULL DEFAULT now()'',
      '');'']"

definition INDEX_WIDGETS :: string where
  "INDEX_WIDGETS = text_lines [''CREATE UNIQUE INDEX widgets_name_idx ON widgets (name);'']"

definition adapter_harness_config :: "harness_config result" where
  "adapter_harness_config =
     bind_result (HarnessConfig_new PROJECT) (\<lambda>config.
     bind_result (with_connection_budget config CONNECTION_BUDGET) (\<lambda>config.
     with_connections_per_database config CONNECTIONS_PER_DATABASE))"

definition schema_spec :: "(bytes \<Rightarrow> bytes) \<Rightarrow> root_spec" where
  "schema_spec sha256 =
     finish_root sha256
       (FingerprintBuilder_add
          (FingerprintBuilder_add (FingerprintBuilder_new (bytes_of_string ''adapter-example-schema-v1''))
             (bytes_of_string ''0001_create_widgets.sql'') (bytes_of_string CREATE_WIDGETS))
          (bytes_of_string ''0002_index_widgets.sql'') (bytes_of_string INDEX_WIDGETS))"

definition apply_migrations :: "('c, 'w) application \<Rightarrow> string \<Rightarrow> 'w \<Rightarrow> unit box_result \<times> 'w" where
  "apply_migrations app url =
     on_connection app url (\<lambda>client w.
       let (r, w') = ap_batch app client (CREATE_WIDGETS @ [CHR 0x0A] @ INDEX_WIDGETS) w in (box_client r, w'))"

definition ensure_widget_table_is_empty :: "int \<Rightarrow> unit box_result" where
  "ensure_widget_table_is_empty rows =
     (if rows = 0 then Inr ()
      else Inl (Box_io (''expected an empty widgets table, found '' @ show_int rows @ '' row(s)'')))"

definition run_test_body :: "('c, 'w) application \<Rightarrow> string \<Rightarrow> 'w \<Rightarrow> unit box_result \<times> 'w" where
  "run_test_body app url =
     on_connection app url (\<lambda>client w.
       let (r, w') = ap_count app client ''SELECT count(*) FROM widgets'' w
       in (case box_client r of Inl e \<Rightarrow> Inl e | Inr rows \<Rightarrow> ensure_widget_table_is_empty rows, w'))"

section \<open>A test on a database of its own\<close>

text \<open>
  The shape of \<open>run_isolated_test\<close> and of \<open>check_clone\<close>: lease a clone of a template, run the body on its URL, and
  clean up whatever the body returned.
\<close>

definition on_application :: "('w \<Rightarrow> 'a \<times> 'w) \<Rightarrow> ('s, 'w) run_state \<Rightarrow> 'a \<times> ('s, 'w) run_state" where
  "on_application f st =
     (let (g, p, w) = world (rs_io st); (r, w') = f w
      in (r, st\<lparr>rs_io := (rs_io st)\<lparr>world := (g, p, w')\<rparr>\<rparr>))"

definition on_clone ::
  "'s semaphore \<Rightarrow> 'u url_api \<Rightarrow> ('s \<times> ('s prewarm_pool \<times> return_phase) \<times> 'w) backend \<Rightarrow> nat \<Rightarrow> 'u server_inner
     \<Rightarrow> string \<Rightarrow> database_name \<Rightarrow> (string \<Rightarrow> 'w \<Rightarrow> unit box_result \<times> 'w) \<Rightarrow> ('s, 'w) run_state
     \<Rightarrow> (unit box_result exec \<times> ('s, 'w) run_state) option" where
  "on_clone sem api be now server uuid template body st =
     (case run_database sem api be now server uuid (Template_source template) st of
        None \<Rightarrow> None
      | Some (Panic m, st1) \<Rightarrow> Some (Panic m, st1)
      | Some (Return (Inl e), st1) \<Rightarrow> Some (Return (Inl (Box_harness e)), st1)
      | Some (Return (Inr lease), st1) \<Rightarrow>
          (let (operation, st2) = on_application (body (le_database_url lease)) st1
           in map_option (\<lambda>(r, st3). (bind_exec r (\<lambda>cleanup. Return (combine operation (box_harness cleanup))), st3))
                (run_cleanup sem api be now server lease st2)))"

text \<open>\<open>template\<close> is what \<open>template().await\<close> returned.\<close>

definition run_isolated_test ::
  "'s semaphore \<Rightarrow> 'u url_api \<Rightarrow> ('s \<times> ('s prewarm_pool \<times> return_phase) \<times> 'w) backend \<Rightarrow> nat \<Rightarrow> 'u server_inner
     \<Rightarrow> string \<Rightarrow> ('c, 'w) application \<Rightarrow> database_name result \<Rightarrow> ('s, 'w) run_state
     \<Rightarrow> (unit box_result exec \<times> ('s, 'w) run_state) option" where
  "run_isolated_test sem api be now server uuid app template st =
     (case template of
        Inl e \<Rightarrow> Some (Return (Inl (Box_harness e)), st)
      | Inr name \<Rightarrow> on_clone sem api be now server uuid name (run_test_body app) st)"

text \<open>\<open>main\<close> of the adapter after the start: the teardown runs whatever the test returned.\<close>

definition adapter_main ::
  "'s semaphore \<Rightarrow> 'u url_api \<Rightarrow> ('s \<times> ('s prewarm_pool \<times> return_phase) \<times> 'w) backend \<Rightarrow> nat \<Rightarrow> 'u server_inner
     \<Rightarrow> string \<Rightarrow> ('c, 'w) application \<Rightarrow> database_name result \<Rightarrow> unit result option \<Rightarrow> ('s, 'w) run_state
     \<Rightarrow> (unit box_result exec \<times> ('s, 'w) run_state) option" where
  "adapter_main sem api be now server uuid app template container st =
     (case run_isolated_test sem api be now server uuid app template st of
        None \<Rightarrow> None
      | Some (Panic m, st1) \<Rightarrow> Some (Panic m, st1)
      | Some (Return test, st1) \<Rightarrow>
          (case run_drain sem api be now server st1 of
             None \<Rightarrow> None
           | Some (drain, st2) \<Rightarrow>
               map_option (\<lambda>(shutdown, st3).
                   (Return (adapter_combine test (adapter_combine (box_harness drain) (box_harness shutdown))), st3))
                 (run_shutdown sem api be now server container st2)))"

section \<open>Derived scenarios\<close>

definition quoted :: "string \<Rightarrow> string" where "quoted s = [CHR 0x27] @ s @ [CHR 0x27]"

text \<open>The multi-line literals start with a line break and end with one.\<close>

definition SCHEMA :: string where
  "SCHEMA = [CHR 0x0A] @ text_lines
     [''    CREATE TABLE organizations (id integer PRIMARY KEY, name text NOT NULL);'',
      ''    CREATE TABLE users ('',
      ''        id integer PRIMARY KEY,'',
      ''        organization_id integer NOT NULL REFERENCES organizations,'',
      ''        email text NOT NULL'',
      ''    );'',
      ''    CREATE TABLE subscriptions ('',
      ''        id integer PRIMARY KEY,'',
      ''        user_id integer NOT NULL REFERENCES users,'',
      ''        state text NOT NULL CHECK (state IN ('' @ quoted ''active'' @ '', '' @ quoted ''cancelled'' @ '')),'',
      ''        due_on date NOT NULL'',
      ''    );'']"

definition ORGANIZATION :: string where
  "ORGANIZATION = [CHR 0x0A] @ text_lines
     [''    INSERT INTO organizations VALUES (1, '' @ quoted ''Example Co'' @ '');'',
      ''    INSERT INTO users VALUES (10, 1, '' @ quoted ''alice@example.test'' @ '');'']"

definition ACTIVE :: string where
  "ACTIVE = ''INSERT INTO subscriptions VALUES (100, 10, '' @ quoted ''active'' @ '', DATE '' @ quoted ''2030-01-01'' @ '');''"
definition CANCELLED :: string where
  "CANCELLED = ''INSERT INTO subscriptions VALUES (100, 10, '' @ quoted ''cancelled'' @ '', DATE '' @ quoted ''2030-01-01'' @ '');''"
definition OVERDUE :: string where
  "OVERDUE = ''UPDATE subscriptions SET due_on = DATE '' @ quoted ''2000-01-01'' @ '' WHERE id = 100;''"

definition scenario_setup :: "string \<Rightarrow> fingerprint_builder" where
  "scenario_setup sql =
     FingerprintBuilder_add (FingerprintBuilder_new (bytes_of_string ''derived-scenarios-sql-v1''))
       (bytes_of_string ''setup.sql'') (bytes_of_string sql)"

definition scenario_execute :: "('c, 'w) application \<Rightarrow> string \<Rightarrow> string \<Rightarrow> 'w \<Rightarrow> unit box_result \<times> 'w" where
  "scenario_execute app url sql =
     on_connection app url (\<lambda>client w. let (r, w') = ap_batch app client sql w in (box_client r, w'))"

text \<open>The identities of the templates that \<open>run_scenarios\<close> asks for, from the schema down its branches.\<close>

definition scenario :: "(bytes \<Rightarrow> bytes) \<Rightarrow> template_identity \<Rightarrow> string \<Rightarrow> template_identity" where
  "scenario sha256 parent sql = identity_derived sha256 (id_fingerprint parent) (finish_step sha256 (scenario_setup sql))"

definition scenario_templates :: "(bytes \<Rightarrow> bytes) \<Rightarrow> template_identity list" where
  "scenario_templates sha256 =
     (let root = identity_root (finish_root sha256 (scenario_setup SCHEMA));
          organization = scenario sha256 root ORGANIZATION;
          active = scenario sha256 organization ACTIVE;
          cancelled = scenario sha256 organization CANCELLED;
          overdue = scenario sha256 active OVERDUE
      in [root, organization, active, cancelled, overdue])"

definition expected_rows :: "string \<Rightarrow> string \<Rightarrow> scenario_row list" where
  "expected_rows state due_on = [(1, ''Example Co'', 10, ''alice@example.test'', 100, state, due_on)]"

definition INSPECT_SQL :: string where
  "INSPECT_SQL = ''SELECT o.id, o.name, u.id, u.email, s.id, s.state, s.due_on::text FROM organizations o ''
     @ ''JOIN users u ON u.organization_id = o.id JOIN subscriptions s ON s.user_id = u.id ORDER BY s.id''"

definition inspect :: "('c, 'w) application \<Rightarrow> string \<Rightarrow> string \<Rightarrow> bool \<Rightarrow> string \<Rightarrow> 'w \<Rightarrow> unit box_result \<times> 'w" where
  "inspect app state due_on mutate url =
     on_connection app url (\<lambda>client w.
       case ap_rows app client INSPECT_SQL w of
         (Inl e, w1) \<Rightarrow> (Inl (Box_client e), w1)
       | (Inr actual, w1) \<Rightarrow>
           if actual \<noteq> expected_rows state due_on then (Inl (Scenario_mismatch (expected_rows state due_on) actual), w1)
           else if \<not> mutate then (Inr (), w1)
           else (case ap_batch app client ''DELETE FROM subscriptions'' w1 of
                   (Inl e, w2) \<Rightarrow> (Inl (Box_client e), w2)
                 | (Inr _, w2) \<Rightarrow>
                     (case ap_count app client ''SELECT count(*) FROM subscriptions'' w2 of
                        (Inl e, w3) \<Rightarrow> (Inl (Box_client e), w3)
                      | (Inr remaining, w3) \<Rightarrow>
                          (if remaining \<noteq> 0 then Inl (Box_io ''clone mutation did not remove the subscription'') else Inr (), w3))))"

definition check_clone ::
  "'s semaphore \<Rightarrow> 'u url_api \<Rightarrow> ('s \<times> ('s prewarm_pool \<times> return_phase) \<times> 'w) backend \<Rightarrow> nat \<Rightarrow> 'u server_inner
     \<Rightarrow> ('c, 'w) application \<Rightarrow> string \<times> database_name \<times> string \<times> string \<times> bool \<Rightarrow> ('s, 'w) run_state
     \<Rightarrow> (unit box_result exec \<times> ('s, 'w) run_state) option" where
  "check_clone sem api be now server app check =
     (case check of (uuid, template, state, due_on, mutate) \<Rightarrow> on_clone sem api be now server uuid template (inspect app state due_on mutate))"

text \<open>The checks of \<open>run_scenarios\<close> once its templates exist; the first error ends them.\<close>

fun check_clones ::
  "'s semaphore \<Rightarrow> 'u url_api \<Rightarrow> ('s \<times> ('s prewarm_pool \<times> return_phase) \<times> 'w) backend \<Rightarrow> nat \<Rightarrow> 'u server_inner
     \<Rightarrow> ('c, 'w) application \<Rightarrow> (string \<times> database_name \<times> string \<times> string \<times> bool) list \<Rightarrow> ('s, 'w) run_state
     \<Rightarrow> (unit box_result exec \<times> ('s, 'w) run_state) option" where
  "check_clones sem api be now server app [] st = Some (Return (Inr ()), st)"
| "check_clones sem api be now server app (check # checks) st =
     (case check_clone sem api be now server app check st of
        Some (Return (Inr _), st') \<Rightarrow> check_clones sem api be now server app checks st'
      | other \<Rightarrow> other)"

definition scenario_checks ::
  "(nat \<Rightarrow> string) \<Rightarrow> database_name \<Rightarrow> database_name \<Rightarrow> database_name \<Rightarrow> (string \<times> database_name \<times> string \<times> string \<times> bool) list" where
  "scenario_checks uuids active cancelled overdue =
     [(uuids 0, active, ''active'', ''2030-01-01'', True), (uuids 1, active, ''active'', ''2030-01-01'', False),
      (uuids 2, cancelled, ''cancelled'', ''2030-01-01'', False), (uuids 3, overdue, ''active'', ''2000-01-01'', False)]"

text \<open>\<open>run_scenarios\<close> on the templates of its branches.\<close>

definition run_scenarios ::
  "'s semaphore \<Rightarrow> 'u url_api \<Rightarrow> ('s \<times> ('s prewarm_pool \<times> return_phase) \<times> 'w) backend \<Rightarrow> nat \<Rightarrow> 'u server_inner
     \<Rightarrow> (nat \<Rightarrow> string) \<Rightarrow> ('c, 'w) application \<Rightarrow> database_name \<times> database_name \<times> database_name \<Rightarrow> ('s, 'w) run_state
     \<Rightarrow> (unit box_result exec \<times> ('s, 'w) run_state) option" where
  "run_scenarios sem api be now server uuids app templates =
     (case templates of (active, cancelled, overdue) \<Rightarrow>
        check_clones sem api be now server app (scenario_checks uuids active cancelled overdue))"

section \<open>What the programs leave behind\<close>

lemma adapter_combine_eq: "adapter_combine = combine"
  by (auto simp: fun_eq_iff adapter_combine_def combine_def split: sum.split)

lemma combine_Inr_iff: "combine operation cleanup = Inr v \<longleftrightarrow> operation = Inr v \<and> cleanup = Inr ()"
  by (auto simp: combine_def split: sum.split)

lemma box_harness_Inr_iff [simp]: "box_harness r = Inr x \<longleftrightarrow> r = Inr x"
  by (cases r) (auto simp: box_harness_def)

text \<open>The templates of the scenarios are those of their chains of setup steps.\<close>

definition scenario_inputs :: "string \<Rightarrow> inputs" where
  "scenario_inputs sql = (bytes_of_string ''derived-scenarios-sql-v1'', [(bytes_of_string ''setup.sql'', bytes_of_string sql)])"

lemma scenario_templates_lineages:
  "scenario_templates sha256 = map (lineage_identity sha256)
     (let root = Root_of (scenario_inputs SCHEMA);
          organization = Derive_from root (scenario_inputs ORGANIZATION);
          active = Derive_from organization (scenario_inputs ACTIVE)
      in [root, organization, active, Derive_from organization (scenario_inputs CANCELLED),
          Derive_from active (scenario_inputs OVERDUE)])"
proof -
  have "scenario_setup sql = build (scenario_inputs sql)" for sql
    by (simp add: scenario_setup_def build_def scenario_inputs_def)
  then show ?thesis by (simp add: scenario_templates_def scenario_def Let_def)
qed

text \<open>The geometry that the adapter's worksheet promises.\<close>

lemma adapter_geometry:
  "\<exists>config limits. adapter_harness_config = Inr config \<and> resolve_connection_limits config = Inr limits
     \<and> connection_budget limits = CONNECTION_BUDGET \<and> connections_per_database limits = unat CONNECTIONS_PER_DATABASE
     \<and> max_simultaneous_leases limits = MAX_PARALLEL_DATABASES
     \<and> max_simultaneous_leases limits * connections_per_database limits = connection_budget limits"
  by (simp add: adapter_harness_config_def HarnessConfig_new_def ProjectName_new_def PROJECT_def with_connection_budget_def
      with_connections_per_database_def resolve_connection_limits_def max_simultaneous_leases_def CONNECTION_BUDGET_def
      CONNECTIONS_PER_DATABASE_def APPLICATION_POOL_MAX_def STANDALONE_CONNECTIONS_def MAX_PARALLEL_DATABASES_def
      project_char_def MAX_PROJECT_NAME_LEN_def u32_max_def std_defs)

lemma on_application_frame:
  assumes "on_application f st = (r, st')"
  shows "rs_queue st' = rs_queue st" "rs_sessions st' = rs_sessions st" "\<exists>w w'. f w = (r, w')"
  using assms by (auto simp: on_application_def Let_def split: prod.splits)

lemma on_application_missing:
  assumes "on_application f st = (r, st')" "\<forall>w. \<forall>n \<in> N. \<not> pres w n \<longrightarrow> \<not> pres (snd (f w)) n" "N \<subseteq> missing pres st"
  shows "N \<subseteq> missing pres st'"
proof -
  obtain g p w where w: "world (rs_io st) = (g, p, w)" by (metis prod.collapse)
  with assms(1) have "world (rs_io st') = (g, p, snd (f w))" by (auto simp: on_application_def Let_def split: prod.splits)
  with assms(2,3) w show ?thesis by (auto simp: missing_def on_server_def)
qed

lemma on_clone_run:
  assumes client: "single_client sem be pres" and inv: "run_inv st"
    and name: "DatabaseName_test (srv_project server) uuid = Return name" "db_value name \<in> missing pres st"
    and room: "q_next_sequence (rs_queue st) < u64_max"
    and enough: "connections_per_database (srv_connection_limits server) \<le> run_available sem st"
  obtains r st' where "on_clone sem api be now server uuid template body st = Some (Return r, st')" "run_inv st'"
    "run_permits sem st' = run_permits sem st" "run_closed sem st \<longrightarrow> run_closed sem st'"
    "q_next_sequence (rs_queue st') \<le> Suc (q_next_sequence (rs_queue st))"
    "accounted pres {} st \<longrightarrow> accounted pres {} st'" "run_closed sem st' \<or> db_value name \<in> missing pres st'"
    "r = Inr () \<longrightarrow> db_value name \<in> missing pres st' \<and> (\<exists>url w w'. body url w = (Inr (), w'))"
    "q_jobs (rs_queue st) = [] \<longrightarrow> q_jobs (rs_queue st') = []"
    "\<forall>N. (\<forall>url w. \<forall>n \<in> N. \<not> pres w n \<longrightarrow> \<not> pres (snd (body url w)) n) \<longrightarrow> N \<subseteq> missing pres st - {db_value name}
       \<longrightarrow> N \<subseteq> missing pres st'"
proof -
  let ?k = "connections_per_database (srv_connection_limits server)"
  have absent: "absent pres (missing pres st) st" by (simp add: absent_missing)
  note wf = test_name_ok[OF name(1)]
  from client inv absent name enough refl show thesis
  proof (cases rule: run_database_run[where api = api and now = now and source = "Template_source template"])
    case (refused e st')
    from refused(3) have q: "q_jobs (rs_queue st') = q_jobs (rs_queue st)" "q_next_sequence (rs_queue st') = q_next_sequence (rs_queue st)"
      "q_failures (rs_queue st') = q_failures (rs_queue st)" by (auto simp: same_queue_def)
    from refused q name(2) show thesis
      by (intro that[of "Inl (Box_harness e)" st']) (auto simp: on_clone_def run_permits_def accounted_def absent_missing)
  next
    case (leased lease st1)
    from leased(4) have q: "q_jobs (rs_queue st1) = q_jobs (rs_queue st)" "q_next_sequence (rs_queue st1) = q_next_sequence (rs_queue st)"
      "q_failures (rs_queue st1) = q_failures (rs_queue st)" by (auto simp: same_queue_def)
    obtain out st2 where app: "on_application (body (le_database_url lease)) st1 = (out, st2)" by fastforce
    note frame = on_application_frame[OF app]
    have inv2: "run_inv st2" using leased(3) frame by (simp add: run_inv_def)
    have room2: "q_next_sequence (rs_queue st2) < u64_max" using room q frame by simp
    obtain r st' where run: "run_cleanup sem api be now server lease st2 = Some (Return r, st')" "run_inv st'"
      "q_jobs (rs_queue st') = []" "q_next_sequence (rs_queue st') = Suc (q_next_sequence (rs_queue st2))"
      "run_permits sem st' = run_permits sem st2 + ?k" "run_closed sem st2 \<Longrightarrow> run_closed sem st'"
      "missing pres st2 \<subseteq> missing pres st'" "r = Inr () \<Longrightarrow> db_value name \<in> missing pres st'" "r \<noteq> Inr () \<Longrightarrow> run_closed sem st'"
      "\<And>D. accounted pres D st2 \<Longrightarrow> accounted pres D st'"
      using run_cleanup_run[OF client inv2 leased(2) wf room2, where api = api and now = now and server = server] by blast
    show thesis
    proof (rule that)
      show "on_clone sem api be now server uuid template body st = Some (Return (combine out (box_harness r)), st')"
        using leased(1) app run(1) by (simp add: on_clone_def)
      show "run_inv st'" by (rule run(2))
      show "run_permits sem st' = run_permits sem st"
        using run(5) leased(5) q frame by (simp add: run_permits_def run_available_def)
      show "run_closed sem st \<longrightarrow> run_closed sem st'" using leased(6) by simp
      show "q_next_sequence (rs_queue st') \<le> Suc (q_next_sequence (rs_queue st))" using run(4) q frame by simp
      show "accounted pres {} st \<longrightarrow> accounted pres {} st'" using q frame by (intro impI run(10)) (simp add: accounted_def)
      show "run_closed sem st' \<or> db_value name \<in> missing pres st'" using run(8,9) by blast
      show "combine out (box_harness r) = Inr () \<longrightarrow> db_value name \<in> missing pres st' \<and> (\<exists>url w w'. body url w = (Inr (), w'))"
        using run(8) frame(3) unfolding combine_Inr_iff by auto
      show "q_jobs (rs_queue st) = [] \<longrightarrow> q_jobs (rs_queue st') = []" using run(3) by simp
      show "\<forall>N. (\<forall>url w. \<forall>n \<in> N. \<not> pres w n \<longrightarrow> \<not> pres (snd (body url w)) n) \<longrightarrow> N \<subseteq> missing pres st - {db_value name}
          \<longrightarrow> N \<subseteq> missing pres st'"
      proof (intro allI impI)
        fix N assume that: "\<forall>url w. \<forall>n \<in> N. \<not> pres w n \<longrightarrow> \<not> pres (snd (body url w)) n" "N \<subseteq> missing pres st - {db_value name}"
        have "N \<subseteq> missing pres st1" using leased(8) that(2) by (auto simp: absent_missing)
        with on_application_missing[OF app] that(1) have "N \<subseteq> missing pres st2" by blast
        with run(7) show "N \<subseteq> missing pres st'" by blast
      qed
    qed
  qed
qed


text \<open>A database that answers every count with zero.\<close>

definition quiet_application :: "(unit, string list) application" where
  "quiet_application = \<lparr>ap_connect = (\<lambda>_ w. (Inr (), w)), ap_batch = (\<lambda>_ _ w. (Inr (), w)), ap_count = (\<lambda>_ _ w. (Inr 0, w)),
     ap_rows = (\<lambda>_ _ w. (Inr [], w)), ap_join = (\<lambda>_ w. (Inr (Inr ()), w))\<rparr>"


section \<open>The scenario checks\<close>

text \<open>An application that creates no database of \<open>N\<close>.\<close>

definition creates_none :: "('c, 'w) application \<Rightarrow> ('w \<Rightarrow> string \<Rightarrow> bool) \<Rightarrow> string set \<Rightarrow> bool" where
  "creates_none app pres N \<longleftrightarrow> (\<forall>w. \<forall>n \<in> N. \<not> pres w n \<longrightarrow>
     (\<forall>url. \<not> pres (snd (ap_connect app url w)) n) \<and> (\<forall>c sql. \<not> pres (snd (ap_batch app c sql w)) n)
   \<and> (\<forall>c sql. \<not> pres (snd (ap_count app c sql w)) n) \<and> (\<forall>c sql. \<not> pres (snd (ap_rows app c sql w)) n)
   \<and> (\<forall>c. \<not> pres (snd (ap_join app c w)) n))"

lemma creates_noneD:
  assumes "creates_none app pres N" "n \<in> N" "\<not> pres w n"
  shows "ap_connect app url w = (r1, w') \<Longrightarrow> \<not> pres w' n" "ap_batch app c sql w = (r2, w') \<Longrightarrow> \<not> pres w' n"
    "ap_count app c sql w = (r3, w') \<Longrightarrow> \<not> pres w' n" "ap_rows app c sql w = (r4, w') \<Longrightarrow> \<not> pres w' n"
    "ap_join app c w = (r5, w') \<Longrightarrow> \<not> pres w' n"
  using assms unfolding creates_none_def by (metis snd_conv)+

lemma on_connection_creates_none:
  assumes "creates_none app pres N" "\<And>c w n. n \<in> N \<Longrightarrow> \<not> pres w n \<Longrightarrow> \<not> pres (snd (operation c w)) n"
  shows "\<forall>w. \<forall>n \<in> N. \<not> pres w n \<longrightarrow> \<not> pres (snd (on_connection app url operation w)) n"
proof (intro allI ballI impI)
  fix w n assume n: "n \<in> N" "\<not> pres w n"
  note keep = creates_noneD[OF assms(1) n(1)]
  obtain r w1 where con: "ap_connect app url w = (r, w1)" by fastforce
  show "\<not> pres (snd (on_connection app url operation w)) n"
  proof (cases r)
    case (Inl e)
    with con keep(1)[OF n(2) con] show ?thesis by (simp add: on_connection_def)
  next
    case (Inr c)
    obtain r2 w2 where op: "operation c w1 = (r2, w2)" by fastforce
    obtain r3 w3 where jn: "ap_join app c w2 = (r3, w3)" by fastforce
    have "\<not> pres w2 n" using assms(2)[OF n(1) keep(1)[OF n(2) con], of c] op by simp
    from keep(5)[OF this jn] con Inr op jn show ?thesis by (simp add: on_connection_def)
  qed
qed

lemma inspect_creates_none:
  assumes "creates_none app pres N"
  shows "\<forall>url w. \<forall>n \<in> N. \<not> pres w n \<longrightarrow> \<not> pres (snd (inspect app state due_on mutate url w)) n"
  unfolding inspect_def
  by (intro allI on_connection_creates_none[OF assms, THEN spec])
    (auto split: prod.split sum.split dest: creates_noneD[OF assms])

lemma inspect_passed:
  assumes "inspect app state due_on mutate url w = (Inr (), w')"
  shows "\<exists>c u u'. ap_rows app c INSPECT_SQL u = (Inr (expected_rows state due_on), u')"
  using assms unfolding inspect_def on_connection_def
  by (auto simp: combine_Inr_iff split: prod.splits sum.splits if_splits)

definition check_passed :: "('c, 'w) application \<Rightarrow> string \<times> database_name \<times> string \<times> string \<times> bool \<Rightarrow> bool" where
  "check_passed app check = (case check of (_, _, state, due_on, _) \<Rightarrow>
     \<exists>c u u'. ap_rows app c INSPECT_SQL u = (Inr (expected_rows state due_on), u'))"

lemma check_clones_run:
  fixes st :: "('s, 'w) run_state" and app :: "('c, 'w) application"
  assumes client: "single_client sem be pres" and none: "creates_none app pres N"
    and names: "list_all2 (\<lambda>check name. DatabaseName_test (srv_project server) (fst check) = Return name \<and> db_value name \<in> N) checks names"
    and start: "N \<subseteq> missing pres st" "run_inv st" "q_jobs (rs_queue st) = []"
      "connections_per_database (srv_connection_limits server) \<le> run_available sem st"
      "q_next_sequence (rs_queue st) + length checks \<le> u64_max"
  shows "\<exists>r st'. check_clones sem api be now server app checks st = Some (Return r, st') \<and> q_jobs (rs_queue st') = []
     \<and> run_available sem st' = run_available sem st \<and> (run_closed sem st' \<or> N \<subseteq> missing pres st')
     \<and> (r = Inr () \<longrightarrow> N \<subseteq> missing pres st' \<and> list_all (check_passed app) checks)"
  using names start
proof (induction checks names arbitrary: st rule: list_all2_induct)
  case Nil
  then show ?case by simp
next
  case (Cons check checks name names)
  obtain uuid tpl state due_on mutate where check: "check = (uuid, tpl, state, due_on, mutate)" by (metis prod_cases5)
  from Cons.hyps(1) check Cons.prems(1) have name: "DatabaseName_test (srv_project server) uuid = Return name" "db_value name \<in> missing pres st"
    "db_value name \<in> N" by auto
  have room: "q_next_sequence (rs_queue st) < u64_max" using Cons.prems(5) by simp
  obtain r st1 where run: "on_clone sem api be now server uuid tpl (inspect app state due_on mutate) st = Some (Return r, st1)"
    and st1: "run_inv st1" "run_permits sem st1 = run_permits sem st" "q_next_sequence (rs_queue st1) \<le> Suc (q_next_sequence (rs_queue st))"
      "run_closed sem st1 \<or> db_value name \<in> missing pres st1"
      "r = Inr () \<longrightarrow> db_value name \<in> missing pres st1 \<and> (\<exists>url w w'. inspect app state due_on mutate url w = (Inr (), w'))"
      and jobs: "q_jobs (rs_queue st) = [] \<longrightarrow> q_jobs (rs_queue st1) = []"
      and kept: "\<forall>N. (\<forall>url w. \<forall>n \<in> N. \<not> pres w n \<longrightarrow> \<not> pres (snd (inspect app state due_on mutate url w)) n)
         \<longrightarrow> N \<subseteq> missing pres st - {db_value name} \<longrightarrow> N \<subseteq> missing pres st1"
    by (rule on_clone_run[OF client Cons.prems(2) name(1,2) room Cons.prems(4), where api = api and now = now and template = tpl
          and body = "inspect app state due_on mutate"])
  note st1 = st1 jobs[rule_format, OF Cons.prems(3)]
  have others: "N - {db_value name} \<subseteq> missing pres st1"
    by (rule kept[rule_format, OF inspect_creates_none[OF none, THEN spec, THEN spec, THEN bspec, rule_format]]) (use Cons.prems(1) in auto)
  note st1 = st1 others
  have available: "run_available sem st1 = run_available sem st" using st1(2,6) Cons.prems(3) by (simp add: run_permits_def)
  show ?case
  proof (cases r)
    case (Inl e)
    with run available st1(4,6,7) show ?thesis by (auto simp: check check_clone_def)
  next
    case (Inr u)
    then have r: "r = Inr ()" by simp
    from r st1(5,7) have miss: "N \<subseteq> missing pres st1" by blast
    have "q_next_sequence (rs_queue st1) + length checks \<le> u64_max" using st1(3) Cons.prems(5) by simp
    from Cons.IH[OF miss st1(1,6) _ this] available Cons.prems(4) obtain r' st' where
      "check_clones sem api be now server app checks st1 = Some (Return r', st')" "q_jobs (rs_queue st') = []"
      "run_available sem st' = run_available sem st" "run_closed sem st' \<or> N \<subseteq> missing pres st'"
      "r' = Inr () \<longrightarrow> N \<subseteq> missing pres st' \<and> list_all (check_passed app) checks" by auto
    moreover obtain url w w' where "inspect app state due_on mutate url w = (Inr (), w')" using st1(5) r by blast
    from inspect_passed[OF this] have "check_passed app check" by (simp add: check check_passed_def)
    ultimately show ?thesis using run r by (simp add: check check_clone_def)
  qed
qed

text \<open>The scenario checks run in isolation. Let one client own the harness, let the four names of the clones be
  new, let the permits of one database be available, and let the application create none of these databases.
  Then the checks return a result with no cleanup left in the queue and all permits back, and the four clones are
  gone unless admission has been closed. A successful result means that the clones are gone and that each check
  has read exactly the one row of its scenario.\<close>

lemma run_scenarios_clean:
  fixes st :: "('s, 'w) run_state"
  assumes "single_client sem be pres" "\<forall>i < 4. DatabaseName_test (srv_project server) (uuids i) = Return (names i)"
    and "creates_none app pres (db_value ` names ` {..<4})"
    and "\<forall>i < 4. \<not> pres (snd (snd (world (rs_io st)))) (db_value (names i))"
    and "run_inv st" "q_jobs (rs_queue st) = []" "q_next_sequence (rs_queue st) + 4 \<le> u64_max"
    and "connections_per_database (srv_connection_limits server) \<le> run_available sem st"
  shows "\<exists>r st'. run_scenarios sem api be now server uuids app templates st = Some (Return r, st')
     \<and> q_jobs (rs_queue st') = [] \<and> run_available sem st' = run_available sem st
     \<and> (run_closed sem st' \<or> (\<forall>i < 4. \<not> pres (snd (snd (world (rs_io st')))) (db_value (names i))))
     \<and> (r = Inr () \<longrightarrow> (\<forall>i < 4. \<not> pres (snd (snd (world (rs_io st')))) (db_value (names i)))
          \<and> (\<forall>(state, due) \<in> {(''active'', ''2030-01-01''), (''cancelled'', ''2030-01-01''), (''active'', ''2000-01-01'')}.
               \<exists>c u u'. ap_rows app c INSPECT_SQL u = (Inr (expected_rows state due), u')))"
proof -
  obtain active cancelled overdue where tpl: "templates = (active, cancelled, overdue)" by (metis prod_cases3)
  let ?N = "db_value ` names ` {..<4}" and ?checks = "scenario_checks uuids active cancelled overdue"
  have miss: "?N \<subseteq> missing pres s \<longleftrightarrow> (\<forall>i < 4. \<not> pres (snd (snd (world (rs_io s)))) (db_value (names i)))" for s :: "('s, 'w) run_state"
    by (auto simp: missing_def on_server_def)
  have names: "list_all2 (\<lambda>check name. DatabaseName_test (srv_project server) (fst check) = Return name \<and> db_value name \<in> ?N)
      ?checks [names 0, names 1, names 2, names 3]"
    using assms(2) by (simp add: scenario_checks_def)
  have "q_next_sequence (rs_queue st) + length ?checks \<le> u64_max" using assms(7) by (simp add: scenario_checks_def)
  from check_clones_run[OF assms(1,3) names assms(4)[folded miss] assms(5,6,8) this, where api = api and now = now]
  obtain r st' where run: "check_clones sem api be now server app ?checks st = Some (Return r, st')" "q_jobs (rs_queue st') = []"
    "run_available sem st' = run_available sem st" "run_closed sem st' \<or> ?N \<subseteq> missing pres st'"
    "r = Inr () \<longrightarrow> ?N \<subseteq> missing pres st' \<and> list_all (check_passed app) ?checks" by (elim exE conjE) (rule that)
  have main: "run_scenarios sem api be now server uuids app templates st = Some (Return r, st')"
    using run(1) by (simp add: run_scenarios_def tpl)
  have ok: "r = Inr () \<longrightarrow> (\<forall>i < 4. \<not> pres (snd (snd (world (rs_io st')))) (db_value (names i)))
      \<and> (\<forall>(state, due) \<in> {(''active'', ''2030-01-01''), (''cancelled'', ''2030-01-01''), (''active'', ''2000-01-01'')}.
           \<exists>c u u'. ap_rows app c INSPECT_SQL u = (Inr (expected_rows state due), u'))"
  proof (intro impI conjI)
    assume r: "r = Inr ()"
    with run(5) miss show "\<forall>i < 4. \<not> pres (snd (snd (world (rs_io st')))) (db_value (names i))" by simp
    from r run(5) have "list_all (check_passed app) ?checks" by simp
    then show "\<forall>(state, due) \<in> {(''active'', ''2030-01-01''), (''cancelled'', ''2030-01-01''), (''active'', ''2000-01-01'')}.
        \<exists>c u u'. ap_rows app c INSPECT_SQL u = (Inr (expected_rows state due), u')" by (simp add: scenario_checks_def check_passed_def)
  qed
  show ?thesis
    by (intro exI[of _ r] exI[of _ st'] conjI) (rule main run(2,3) run(4)[unfolded miss] ok)+
qed

end
