(* ===== verification/Benchmark_Phases.thy ===== *)
theory Benchmark_Phases
  imports Test_Runs Benchmark_Report
begin

text \<open>
  Measured phases of the benchmark (\<open>examples/performance.rs\<close>): sequential leases with awaited cleanups, and a
  batch of deferred cleanups behind a drain, which the benchmark then checks on the server. The observer is the
  benchmark's own connection, a parameter; instants are readings \<open>tk\<close> of a clock in the server's world. Rates in
  floating point are not modelled.
\<close>

section \<open>The observer\<close>

datatype 'a observed = Answered "pg_error + 'a" | Not_in_time

record 'w observer =
  ob_timeout :: duration
  ob_snapshot :: "'w \<Rightarrow> session_snapshot observed \<times> 'w"
  ob_remaining :: "string list \<Rightarrow> 'w \<Rightarrow> int observed \<times> 'w"

definition run_observer_operation :: "string \<Rightarrow> duration \<Rightarrow> 'a observed \<Rightarrow> 'a bench_result" where
  "run_observer_operation operation timeout answer =
     (case answer of
        Answered (Inr x) \<Rightarrow> Inr x
      | Answered (Inl e) \<Rightarrow> Inl (Bench_client e)
      | Not_in_time \<Rightarrow> Inl (Bench_timed_out operation (as_millis timeout)))"

definition observe_world :: "('w \<Rightarrow> 'a \<times> 'w) \<Rightarrow> ('s, 'w) run_state \<Rightarrow> 'a \<times> ('s, 'w) run_state" where
  "observe_world f st =
     (let (g, p, w) = world (rs_io st); (x, w') = f w in (x, st\<lparr>rs_io := (rs_io st)\<lparr>world := (g, p, w')\<rparr>\<rparr>))"

definition observer_snapshot :: "'w observer \<Rightarrow> ('s, 'w) run_state \<Rightarrow> session_snapshot bench_result \<times> ('s, 'w) run_state" where
  "observer_snapshot ob st =
     (let (answer, st') = observe_world (ob_snapshot ob) st
      in (run_observer_operation ''read administrative session counters'' (ob_timeout ob) answer, st'))"

definition ensure_databases_are_absent ::
  "'w observer \<Rightarrow> string list \<Rightarrow> ('s, 'w) run_state \<Rightarrow> unit bench_result \<times> ('s, 'w) run_state" where
  "ensure_databases_are_absent ob names st =
     (let (answer, st') = observe_world (ob_remaining ob names) st
      in (bench_bind (run_observer_operation ''verify deferred cleanup barrier'' (ob_timeout ob) answer)
            (\<lambda>remaining. if remaining = 0 then Inr () else Inl (Bench_still_present remaining)), st'))"

definition clock_of :: "('w \<Rightarrow> nat) \<Rightarrow> ('s, 'w) run_state \<Rightarrow> nat" where
  "clock_of tk st = tk (snd (snd (world (rs_io st))))"

section \<open>Sequential leases\<close>

fun sequential_loop ::
  "('w \<Rightarrow> nat) \<Rightarrow> 's semaphore \<Rightarrow> 'u url_api \<Rightarrow> ('s \<times> ('s prewarm_pool \<times> return_phase) \<times> 'w) backend \<Rightarrow> nat
     \<Rightarrow> 'u server_inner \<Rightarrow> database_name \<Rightarrow> string list \<Rightarrow> nat list \<Rightarrow> ('s, 'w) run_state
     \<Rightarrow> (nat list bench_result exec \<times> ('s, 'w) run_state) option" where
  "sequential_loop tk sem api be now server template [] individual st = Some (Return (Inr individual), st)"
| "sequential_loop tk sem api be now server template (uuid # uuids) individual st =
     (case run_database sem api be now server uuid (Template_source template) st of
        None \<Rightarrow> None
      | Some (Panic m, st1) \<Rightarrow> Some (Panic m, st1)
      | Some (Return (Inl e), st1) \<Rightarrow> Some (Return (Inl (Bench_harness e)), st1)
      | Some (Return (Inr lease), st1) \<Rightarrow>
          (case run_cleanup sem api be now server lease st1 of
             None \<Rightarrow> None
           | Some (Panic m, st2) \<Rightarrow> Some (Panic m, st2)
           | Some (Return (Inl e), st2) \<Rightarrow> Some (Return (Inl (Bench_harness e)), st2)
           | Some (Return (Inr _), st2) \<Rightarrow>
               sequential_loop tk sem api be now server template uuids
                 (individual @ [clock_of tk st2 - clock_of tk st]) st2))"

definition run_sequential ::
  "('w \<Rightarrow> nat) \<Rightarrow> 's semaphore \<Rightarrow> 'u url_api \<Rightarrow> ('s \<times> ('s prewarm_pool \<times> return_phase) \<times> 'w) backend \<Rightarrow> nat
     \<Rightarrow> 'u server_inner \<Rightarrow> database_name \<Rightarrow> 'w observer \<Rightarrow> string list \<Rightarrow> ('s, 'w) run_state
     \<Rightarrow> (batch_operation bench_result exec \<times> ('s, 'w) run_state) option" where
  "run_sequential tk sem api be now server template ob uuids st =
     (case observer_snapshot ob st of
        (Inl e, st1) \<Rightarrow> Some (Return (Inl e), st1)
      | (Inr before, st1) \<Rightarrow>
          (case sequential_loop tk sem api be now server template uuids [] st1 of
             None \<Rightarrow> None
           | Some (Panic m, st2) \<Rightarrow> Some (Panic m, st2)
           | Some (Return (Inl e), st2) \<Rightarrow> Some (Return (Inl e), st2)
           | Some (Return (Inr individual), st2) \<Rightarrow>
               (let (after, st3) = observer_snapshot ob st2
                in Some (Return (bench_bind after (\<lambda>after. Inr
                      \<lparr>bo_operations = length uuids, bo_method = caller_bounded 1,
                       bo_elapsed_ns = clock_of tk st2 - clock_of tk st1, bo_individual_elapsed_ns = individual,
                       bo_admin_sessions = snapshot_delta before after\<rparr>)), st3))))"

section \<open>Deferred cleanups behind a drain\<close>

text \<open>Leases that go out of scope are dropped in the order of their vector.\<close>

definition run_drop :: "'s semaphore \<Rightarrow> database_lease \<Rightarrow> ('s, 'w) run_state \<Rightarrow> ('s, 'w) run_state" where
  "run_drop sem lease st = (case lease_drop sem lease None (rs_queue st) of None \<Rightarrow> st | Some (q, _) \<Rightarrow> st\<lparr>rs_queue := q\<rparr>)"

definition drop_leases :: "'s semaphore \<Rightarrow> database_lease list \<Rightarrow> ('s, 'w) run_state \<Rightarrow> ('s, 'w) run_state" where
  "drop_leases sem leases st = fold (run_drop sem) leases st"

fun lease_all ::
  "'s semaphore \<Rightarrow> 'u url_api \<Rightarrow> ('s \<times> ('s prewarm_pool \<times> return_phase) \<times> 'w) backend \<Rightarrow> nat
     \<Rightarrow> 'u server_inner \<Rightarrow> database_name \<Rightarrow> string list \<Rightarrow> database_lease list \<Rightarrow> ('s, 'w) run_state
     \<Rightarrow> (database_lease list bench_result exec \<times> ('s, 'w) run_state) option" where
  "lease_all sem api be now server template [] leases st = Some (Return (Inr leases), st)"
| "lease_all sem api be now server template (uuid # uuids) leases st =
     (case run_database sem api be now server uuid (Template_source template) st of
        None \<Rightarrow> None
      | Some (Panic m, st1) \<Rightarrow> Some (Panic m, drop_leases sem leases st1)
      | Some (Return (Inl e), st1) \<Rightarrow> Some (Return (Inl (Bench_harness e)), drop_leases sem leases st1)
      | Some (Return (Inr lease), st1) \<Rightarrow> lease_all sem api be now server template uuids (leases @ [lease]) st1)"

fun defer_all ::
  "('w \<Rightarrow> nat) \<Rightarrow> 's semaphore \<Rightarrow> 'u url_api \<Rightarrow> ('s \<times> ('s prewarm_pool \<times> return_phase) \<times> 'w) backend \<Rightarrow> nat
     \<Rightarrow> 'u server_inner \<Rightarrow> database_lease list \<Rightarrow> nat list \<Rightarrow> ('s, 'w) run_state
     \<Rightarrow> (nat list bench_result exec \<times> ('s, 'w) run_state) option" where
  "defer_all tk sem api be now server [] individual st = Some (Return (Inr individual), st)"
| "defer_all tk sem api be now server (lease # leases) individual st =
     (case run_defer sem api be now server lease st of
        None \<Rightarrow> None
      | Some (Panic m, st1) \<Rightarrow> Some (Panic m, drop_leases sem leases st1)
      | Some (Return (Inl e), st1) \<Rightarrow> Some (Return (Inl (Bench_harness e)), drop_leases sem leases st1)
      | Some (Return (Inr _), st1) \<Rightarrow>
          defer_all tk sem api be now server leases (individual @ [clock_of tk st1 - clock_of tk st]) st1)"

text \<open>
  A drain whose caller stopped waiting: the barrier runs on, and what it would have delivered is put back.
\<close>

definition run_drain_cancelled ::
  "'s semaphore \<Rightarrow> 'u url_api \<Rightarrow> ('s \<times> ('s prewarm_pool \<times> return_phase) \<times> 'w) backend \<Rightarrow> nat \<Rightarrow> 'u server_inner
     \<Rightarrow> ('s, 'w) run_state \<Rightarrow> ('s, 'w) run_state option" where
  "run_drain_cancelled sem api be now server st =
     (case cleanup_worker sem api be now server st of
        Some (Return (_, st')) \<Rightarrow>
          map_option (\<lambda>(outcome, q). st'\<lparr>rs_queue := drain_drop outcome q\<rparr>)
            (wait_and_take (current_target (rs_queue st)) (rs_queue st'))
      | _ \<Rightarrow> None)"

text \<open>\<open>tokio::time::timeout\<close> around the drain: the drain's result counts when it came within the limit.\<close>

definition drain_within ::
  "('w \<Rightarrow> nat) \<Rightarrow> 's semaphore \<Rightarrow> 'u url_api \<Rightarrow> ('s \<times> ('s prewarm_pool \<times> return_phase) \<times> 'w) backend \<Rightarrow> nat
     \<Rightarrow> 'u server_inner \<Rightarrow> ('s, 'w) run_state \<Rightarrow> (unit bench_result \<times> ('s, 'w) run_state) option" where
  "drain_within tk sem api be now server st =
     (case run_drain sem api be now server st of
        None \<Rightarrow> None
      | Some (r, st') \<Rightarrow>
          if clock_of tk st' - clock_of tk st \<le> DEFERRED_DRAIN_TIMEOUT then Some (bench_from r, st')
          else map_option (\<lambda>st''. (Inl (Bench_timed_out ''deferred cleanup barrier'' (as_millis DEFERRED_DRAIN_TIMEOUT)), st''))
                 (run_drain_cancelled sem api be now server st))"

definition lease_name :: "database_lease \<Rightarrow> string" where
  "lease_name lease = (case le_inner lease of None \<Rightarrow> [] | Some inner \<Rightarrow> db_value (li_name inner))"

text \<open>The phase from the deferrals on, with the snapshot taken before them.\<close>

definition defer_and_drain ::
  "('w \<Rightarrow> nat) \<Rightarrow> 's semaphore \<Rightarrow> 'u url_api \<Rightarrow> ('s \<times> ('s prewarm_pool \<times> return_phase) \<times> 'w) backend \<Rightarrow> nat
     \<Rightarrow> 'u server_inner \<Rightarrow> 'w observer \<Rightarrow> session_snapshot \<Rightarrow> database_lease list \<Rightarrow> ('s, 'w) run_state
     \<Rightarrow> (deferred_cleanup_operation bench_result exec \<times> ('s, 'w) run_state) option" where
  "defer_and_drain tk sem api be now server ob before leases st =
     (case defer_all tk sem api be now server leases [] st of
        None \<Rightarrow> None
      | Some (Panic m, st1) \<Rightarrow> Some (Panic m, st1)
      | Some (Return (Inl e), st1) \<Rightarrow> Some (Return (Inl e), st1)
      | Some (Return (Inr individual), st1) \<Rightarrow>
          (case drain_within tk sem api be now server st1 of
             None \<Rightarrow> None
           | Some (Inl e, st2) \<Rightarrow> Some (Return (Inl e), st2)
           | Some (Inr _, st2) \<Rightarrow>
               (case ensure_databases_are_absent ob (map lease_name leases) st2 of
                  (Inl e, st3) \<Rightarrow> Some (Return (Inl e), st3)
                | (Inr _, st3) \<Rightarrow>
                    (let (after, st4) = observer_snapshot ob st3
                     in Some (Return (bench_bind after (\<lambda>after. Inr
                           \<lparr>dc_operations = length leases, dc_method = implementation_managed_barrier,
                            dc_caller_return_elapsed_ns = clock_of tk st1 - clock_of tk st,
                            dc_individual_caller_return_elapsed_ns = individual,
                            dc_final_drain_elapsed_ns = clock_of tk st2 - clock_of tk st1,
                            dc_total_elapsed_ns = clock_of tk st2 - clock_of tk st,
                            dc_admin_sessions = snapshot_delta before after\<rparr>)), st4)))))"

definition run_deferred_cleanup ::
  "('w \<Rightarrow> nat) \<Rightarrow> 's semaphore \<Rightarrow> 'u url_api \<Rightarrow> ('s \<times> ('s prewarm_pool \<times> return_phase) \<times> 'w) backend \<Rightarrow> nat
     \<Rightarrow> 'u server_inner \<Rightarrow> database_name \<Rightarrow> 'w observer \<Rightarrow> string list \<Rightarrow> ('s, 'w) run_state
     \<Rightarrow> (deferred_cleanup_operation bench_result exec \<times> ('s, 'w) run_state) option" where
  "run_deferred_cleanup tk sem api be now server template ob uuids st =
     (case lease_all sem api be now server template uuids [] st of
        None \<Rightarrow> None
      | Some (Panic m, st1) \<Rightarrow> Some (Panic m, st1)
      | Some (Return (Inl e), st1) \<Rightarrow> Some (Return (Inl e), st1)
      | Some (Return (Inr leases), st1) \<Rightarrow>
          (case observer_snapshot ob st1 of
             (Inl e, st2) \<Rightarrow> Some (Return (Inl e), drop_leases sem leases st2)
           | (Inr before, st2) \<Rightarrow> defer_and_drain tk sem api be now server ob before leases st2))"

section \<open>Permits and names through a phase\<close>

text \<open>A live lease of a database with \<open>k\<close> permits.\<close>

definition lease_ok :: "nat \<Rightarrow> database_lease \<Rightarrow> string \<Rightarrow> bool" where
  "lease_ok k lease n \<longleftrightarrow> (\<exists>name. le_inner lease = Some \<lparr>li_name = name, li_permit = k, li_prewarm_pool = None\<rparr>
     \<and> wf_name name \<and> db_kind name = Test \<and> db_value name = n)"

lemma lease_ok_name: "lease_ok k lease n \<Longrightarrow> lease_name lease = n"
  by (auto simp: lease_ok_def lease_name_def)

lemma observe_world_frame:
  assumes "observe_world f st = (x, st')"
  shows "rs_queue st' = rs_queue st" "rs_sessions st' = rs_sessions st"
    "f (snd (snd (world (rs_io st)))) = (x, snd (snd (world (rs_io st'))))"
  using assms by (auto simp: observe_world_def Let_def split: prod.splits)

lemma run_drop_run:
  assumes laws: "semaphore_laws sem" and inv: "run_inv st" and lease: "lease_ok k lease n" and room: "q_next_sequence (rs_queue st) < u64_max"
  shows "run_inv (run_drop sem lease st)" "run_permits sem (run_drop sem lease st) = run_permits sem st + k"
    "q_next_sequence (rs_queue (run_drop sem lease st)) = Suc (q_next_sequence (rs_queue st))"
proof -
  from lease obtain name where name: "le_inner lease = Some \<lparr>li_name = name, li_permit = k, li_prewarm_pool = None\<rparr>"
    "wf_name name" "db_kind name = Test" by (auto simp: lease_ok_def)
  let ?job = "\<lparr>job_sequence = Suc (q_next_sequence (rs_queue st)), job_database_name = db_value name,
      job_completion = Deferred, job_permit = Some k\<rparr>"
  have drop: "run_drop sem lease st = st\<lparr>rs_queue := rs_queue st\<lparr>q_next_sequence := Suc (q_next_sequence (rs_queue st)),
      q_jobs := q_jobs (rs_queue st) @ [?job]\<rparr>\<rparr>"
    using inv room name(1)
    by (simp add: run_drop_def lease_drop_def queue_fallback_cleanup_def after_submission_def begin_lease_return_def
        submit_fallback_outcome_def enqueue_def checked_add_u64_def run_inv_def)
  from name(2,3) have "wf_name \<lparr>db_value = db_value name, db_kind = Test\<rparr>" by (cases name) simp
  with inv show "run_inv (run_drop sem lease st)" by (auto simp: drop run_inv_def job_name_def)
  show "run_permits sem (run_drop sem lease st) = run_permits sem st + k"
    "q_next_sequence (rs_queue (run_drop sem lease st)) = Suc (q_next_sequence (rs_queue st))"
    by (simp_all add: drop run_permits_def run_available_def permits_of_def)
qed

lemma drop_leases_run:
  assumes laws: "semaphore_laws sem" and "list_all2 (lease_ok k) leases names" "run_inv st"
    and "q_next_sequence (rs_queue st) + length leases \<le> u64_max"
  shows "run_permits sem (drop_leases sem leases st) = run_permits sem st + length leases * k"
  using assms(2-)
proof (induction leases names arbitrary: st rule: list_all2_induct)
  case (Cons lease leases n names)
  have room: "q_next_sequence (rs_queue st) < u64_max" using Cons.prems(2) by simp
  note step = run_drop_run[OF laws Cons.prems(1) Cons.hyps(1) room]
  from Cons.IH[OF step(1)] step(2,3) Cons.prems(2) show ?case by (simp add: drop_leases_def)
qed (simp add: drop_leases_def)

text \<open>
  Leasing a batch: it fails with the harness's error and gives everything back, or it holds the permits of every
  database.
\<close>

definition batch_leased ::
  "'s semaphore \<Rightarrow> ('w \<Rightarrow> string \<Rightarrow> bool) \<Rightarrow> nat \<Rightarrow> ('s, 'w) run_state \<Rightarrow> nat \<Rightarrow> nat \<Rightarrow> string list
     \<Rightarrow> database_lease list bench_result \<Rightarrow> ('s, 'w) run_state \<Rightarrow> bool" where
  "batch_leased sem pres k st held asked names r st' \<longleftrightarrow>
     (case r of
        Inl e \<Rightarrow> (\<exists>h. e = Bench_harness h) \<and> run_permits sem st' = run_permits sem st + held * k
      | Inr leases \<Rightarrow> list_all2 (lease_ok k) leases names \<and> run_inv st' \<and> accounted pres {} st'
          \<and> run_permits sem st' + asked * k = run_permits sem st
          \<and> q_next_sequence (rs_queue st') = q_next_sequence (rs_queue st))"

lemma lease_all_run:
  fixes st :: "('s, 'w) run_state"
  assumes client: "single_client sem be pres" and k: "k = connections_per_database (srv_connection_limits server)"
    and names: "list_all2 (\<lambda>uuid name. DatabaseName_test (srv_project server) uuid = Return name) uuids names"
    and start: "run_inv st" "set (map db_value names) \<subseteq> missing pres st" "distinct (map db_value names)"
      "length uuids * k \<le> run_available sem st" "list_all2 (lease_ok k) leases ns"
      "q_next_sequence (rs_queue st) + length leases + length uuids \<le> u64_max" "accounted pres {} st"
  shows "\<exists>r st'. lease_all sem api be now server template uuids leases st = Some (Return r, st')
     \<and> batch_leased sem pres k st (length leases) (length uuids) (ns @ map db_value names) r st'"
  using names start
proof (induction uuids names arbitrary: st leases ns rule: list_all2_induct)
  case Nil
  then show ?case by (simp add: batch_leased_def)
next
  case (Cons uuid uuids name names)
  from client have laws: "semaphore_laws sem" by (simp add: single_client_def)
  have absent: "absent pres (missing pres st) st" by (simp add: absent_missing)
  have name: "db_value name \<in> missing pres st" "k \<le> run_available sem st" using Cons.prems(2,4) by auto
  note wf = test_name_ok[OF Cons.hyps(1)]
  from client Cons.prems(1) absent Cons.hyps(1) name k show ?case
  proof (cases rule: run_database_run[where api = api and now = now and source = "Template_source template"])
    case (refused e st1)
    then have "q_next_sequence (rs_queue st1) = q_next_sequence (rs_queue st)" "run_permits sem st1 = run_permits sem st"
      by (auto simp: same_queue_def run_permits_def)
    with refused(1) drop_leases_run[OF laws Cons.prems(5) refused(2)] Cons.prems(6) show ?thesis
      by (simp add: batch_leased_def)
  next
    case (leased lease st1)
    from leased(4) have q: "q_jobs (rs_queue st1) = q_jobs (rs_queue st)" "q_next_sequence (rs_queue st1) = q_next_sequence (rs_queue st)"
      "q_failures (rs_queue st1) = q_failures (rs_queue st)" by (auto simp: same_queue_def)
    have permits: "run_permits sem st1 + k = run_permits sem st" using leased(5) q by (simp add: run_permits_def)
    have ok: "list_all2 (lease_ok k) (leases @ [lease]) (ns @ [db_value name])"
      by (rule list_all2_appendI[OF Cons.prems(5)]) (use leased(2) wf in \<open>auto simp: lease_ok_def\<close>)
    have others: "set (map db_value names) \<subseteq> missing pres st1"
    proof -
      have "set (map db_value names) \<subseteq> missing pres st - {db_value name}"
        using Cons.prems(2,3) by (simp add: subset_Diff_insert)
      also have "\<dots> \<subseteq> missing pres st1" using leased(8) by (simp add: absent_missing)
      finally show ?thesis .
    qed
    have "accounted pres {} st1" "q_next_sequence (rs_queue st1) + length (leases @ [lease]) + length uuids \<le> u64_max"
      "length uuids * k \<le> run_available sem st1" "distinct (map db_value names)"
      using Cons.prems(3,4,6,7) leased(5) q by (simp_all add: accounted_def)
    from Cons.IH[OF leased(3) others this(4,3) ok this(2,1)] obtain r st' where
      rest: "lease_all sem api be now server template uuids (leases @ [lease]) st1 = Some (Return r, st')"
        "batch_leased sem pres k st1 (length (leases @ [lease])) (length uuids) ((ns @ [db_value name]) @ map db_value names) r st'"
      by blast
    from rest(2) permits q
    have "batch_leased sem pres k st (length leases) (length (uuid # uuids)) (ns @ map db_value (name # names)) r st'"
      by (cases r) (simp_all add: batch_leased_def flip: permits)
    with leased(1) rest(1) show ?thesis by simp
  qed
qed

lemma defer_all_run:
  fixes st :: "('s, 'w) run_state"
  assumes client: "single_client sem be pres" and leases: "list_all2 (lease_ok k) leases names"
    and start: "run_inv st" "accounted pres D st" "q_next_sequence (rs_queue st) + length leases \<le> u64_max"
  shows "\<exists>times st'. defer_all tk sem api be now server leases individual st = Some (Return (Inr (individual @ times)), st')
     \<and> length times = length leases \<and> run_inv st' \<and> accounted pres (D \<union> set names) st'
     \<and> run_permits sem st' = run_permits sem st + length leases * k"
  using leases start
proof (induction leases names arbitrary: st D individual rule: list_all2_induct)
  case Nil
  then show ?case by simp
next
  case (Cons lease leases n names)
  from Cons.hyps(1) obtain name where name: "le_inner lease = Some \<lparr>li_name = name, li_permit = k, li_prewarm_pool = None\<rparr>"
    "wf_name name" "db_kind name = Test" "db_value name = n" by (auto simp: lease_ok_def)
  have room: "q_next_sequence (rs_queue st) < u64_max" using Cons.prems(3) by simp
  obtain st1 where st1: "run_defer sem api be now server lease st = Some (Return (Inr ()), st1)" "run_inv st1"
    "q_next_sequence (rs_queue st1) = Suc (q_next_sequence (rs_queue st))" "run_permits sem st1 = run_permits sem st + k"
    "accounted pres (insert n D) st1"
    by (rule run_defer_run[OF client Cons.prems(1,2) name(1-3) room, where api = api and now = now and server = server], rule that)
      (simp_all add: name(4))
  have "q_next_sequence (rs_queue st1) + length leases \<le> u64_max" using st1(3) Cons.prems(3) by simp
  from Cons.IH[OF st1(2,5) this, of "individual @ [clock_of tk st1 - clock_of tk st]"] obtain times st' where
    rest: "defer_all tk sem api be now server leases (individual @ [clock_of tk st1 - clock_of tk st]) st1
        = Some (Return (Inr ((individual @ [clock_of tk st1 - clock_of tk st]) @ times)), st')"
      "length times = length leases" "run_inv st'" "accounted pres (insert n D \<union> set names) st'"
      "run_permits sem st' = run_permits sem st1 + length leases * k" by blast
  from rest st1(1,4) show ?case
    by (intro exI[of _ "(clock_of tk st1 - clock_of tk st) # times"] exI[of _ st']) simp
qed

lemma drain_within_run:
  assumes client: "single_client sem be pres" and inv: "run_inv st" and acc: "accounted pres D st"
  shows "\<exists>r st'. drain_within tk sem api be now server st = Some (r, st') \<and> run_permits sem st' = run_permits sem st
     \<and> (r = Inr () \<longrightarrow> absent pres D st') \<and> (\<forall>i. r \<noteq> Inl (Bench_still_present i))"
proof -
  obtain r st' where dr: "run_drain sem api be now server st = Some (r, st')" "run_permits sem st' = run_permits sem st"
    "r = Inr () \<longrightarrow> absent pres D st'"
    by (rule run_drain_run[OF client inv acc, where api = api and now = now and server = server], rule that) (assumption | simp)+
  show ?thesis
  proof (cases "clock_of tk st' - clock_of tk st \<le> DEFERRED_DRAIN_TIMEOUT")
    case True
    with dr show ?thesis by (auto simp: drain_within_def bench_from_def split: sum.splits)
  next
    case False
    obtain outcomes st1 where turns: "cleanup_worker sem api be now server st
        = Some (Return (concat (map2 sent_of (q_jobs (rs_queue st)) outcomes), st1))"
      and w: "worked sem pres (missing pres st) st (q_jobs (rs_queue st)) outcomes st1"
      by (rule worker_turns_run[OF client inv, where N = "missing pres st" and api = api and now = now and server = server])
        (auto simp: absent_missing)
    from dr(1) turns obtain outcome q where take: "wait_and_take (current_target (rs_queue st)) (rs_queue st1) = Some (outcome, q)"
      by (auto simp: run_drain_def drain_deferred_cleanup_def)
    then have "q_admission q = q_admission (rs_queue st1)" "q_jobs q = q_jobs (rs_queue st1)"
      by (auto simp: wait_and_take_def Let_def split: if_splits)
    then have "run_permits sem (st1\<lparr>rs_queue := drain_drop outcome q\<rparr>) = run_permits sem st"
      using worked_permits[OF w]
      by (simp add: run_permits_def run_available_def drain_drop_def restore_delivery_def split: option.split)
    with False dr(1) turns take show ?thesis by (auto simp: drain_within_def run_drain_cancelled_def)
  qed
qed

text \<open>A count of the databases that exist.\<close>

definition observer_counts :: "'w observer \<Rightarrow> ('w \<Rightarrow> string \<Rightarrow> bool) \<Rightarrow> bool" where
  "observer_counts ob pres \<longleftrightarrow> (\<forall>names w i w'. ob_remaining ob names w = (Answered (Inr i), w')
     \<longrightarrow> i = int (length (filter (pres w) (remdups names))))"

lemma observer_snapshot_error: "observer_snapshot ob st = (Inl e, st') \<Longrightarrow> e \<noteq> Bench_still_present i"
  by (auto simp: observer_snapshot_def run_observer_operation_def split: prod.splits observed.splits sum.splits)

lemma observer_snapshot_ok: "observer_snapshot ob st \<noteq> (Inl (Bench_still_present i), st')"
  using observer_snapshot_error by blast

lemma observer_snapshot_frame:
  assumes "observer_snapshot ob st = (r, st')" shows "rs_queue st' = rs_queue st" "rs_sessions st' = rs_sessions st"
  using assms observe_world_frame by (auto simp: observer_snapshot_def split: prod.splits)

lemma ensure_absent_run:
  assumes law: "observer_counts ob pres" and absent: "absent pres (set names) st"
    and run: "ensure_databases_are_absent ob names st = (r, st')"
  shows "r \<noteq> Inl (Bench_still_present i)" "rs_queue st' = rs_queue st"
proof -
  obtain answer where obs: "observe_world (ob_remaining ob names) st = (answer, st')"
    "r = bench_bind (run_observer_operation ''verify deferred cleanup barrier'' (ob_timeout ob) answer)
       (\<lambda>remaining. if remaining = 0 then Inr () else Inl (Bench_still_present remaining))"
    using run by (auto simp: ensure_databases_are_absent_def split: prod.splits)
  note frame = observe_world_frame[OF obs(1)]
  show "rs_queue st' = rs_queue st" by (rule frame)
  have "filter (pres (snd (snd (world (rs_io st))))) (remdups names) = []"
    using absent by (auto simp: absent_def on_server_def filter_empty_conv)
  with law frame(3) have "remaining = 0" if "answer = Answered (Inr remaining)" for remaining
    using that unfolding observer_counts_def by fastforce
  then show "r \<noteq> Inl (Bench_still_present i)"
    by (auto simp: obs(2) run_observer_operation_def split: observed.splits sum.splits)
qed

section \<open>The deferred phase\<close>

lemma observer_snapshot_run:
  assumes "observer_snapshot ob st = (r, st')"
  shows "run_inv st' = run_inv st" "accounted pres {} st' = accounted pres {} st" "run_permits sem st' = run_permits sem st"
    "rs_queue st' = rs_queue st"
  using observer_snapshot_frame[OF assms] by (simp_all add: run_inv_def accounted_def run_permits_def run_available_def)

text \<open>A result that a phase may end with after \<open>n\<close> deferrals.\<close>

definition phase_result :: "nat \<Rightarrow> deferred_cleanup_operation bench_result \<Rightarrow> bool" where
  "phase_result n r \<longleftrightarrow> (case r of Inl e \<Rightarrow> \<forall>i. e \<noteq> Bench_still_present i
     | Inr report \<Rightarrow> length (dc_individual_caller_return_elapsed_ns report) = n)"

lemma defer_and_drain_run:
  assumes client: "single_client sem be pres" and law: "observer_counts ob pres"
    and leases: "list_all2 (lease_ok k) leases names"
    and start: "run_inv st" "accounted pres {} st" "q_next_sequence (rs_queue st) + length leases \<le> u64_max"
  shows "\<exists>r st'. defer_and_drain tk sem api be now server ob before leases st = Some (Return r, st')
     \<and> run_permits sem st' = run_permits sem st + length leases * k \<and> phase_result (length leases) r"
proof -
  have names: "map lease_name leases = names"
    using leases by (induction leases names rule: list_all2_induct) (auto dest: lease_ok_name)
  obtain times st1 where df: "defer_all tk sem api be now server leases [] st = Some (Return (Inr times), st1)"
    "length times = length leases" "run_inv st1" "accounted pres (set names) st1"
    "run_permits sem st1 = run_permits sem st + length leases * k"
    using defer_all_run[OF client leases start, where individual = "[]" and tk = tk and api = api and now = now and server = server]
    by auto
  obtain r2 st2 where dr: "drain_within tk sem api be now server st1 = Some (r2, st2)" "run_permits sem st2 = run_permits sem st1"
    "r2 = Inr () \<longrightarrow> absent pres (set names) st2" "\<forall>i. r2 \<noteq> Inl (Bench_still_present i)"
    using drain_within_run[OF client df(3,4), where tk = tk and api = api and now = now and server = server] by blast
  show ?thesis
  proof (cases r2)
    case (Inl e)
    with df(1,5) dr show ?thesis by (auto simp: defer_and_drain_def phase_result_def)
  next
    case (Inr u)
    obtain r3 st3 where en: "ensure_databases_are_absent ob names st2 = (r3, st3)" by fastforce
    have absent: "absent pres (set names) st2" using dr(3) Inr by simp
    note ens = ensure_absent_run[OF law absent en]
    have permits: "run_permits sem st3 = run_permits sem st + length leases * k"
      using ens(2) dr(2) df(5) by (simp add: run_permits_def run_available_def)
    show ?thesis
    proof (cases r3)
      case (Inl e)
      with df(1) dr(1) \<open>r2 = _\<close> names en ens(1) permits show ?thesis by (simp add: defer_and_drain_def phase_result_def)
    next
      case r3: (Inr v)
      obtain r4 st4 where fin: "observer_snapshot ob st3 = (r4, st4)" by fastforce
      have "phase_result (length leases) (bench_bind r4 (\<lambda>after. Inr
          \<lparr>dc_operations = length leases, dc_method = implementation_managed_barrier,
           dc_caller_return_elapsed_ns = clock_of tk st1 - clock_of tk st, dc_individual_caller_return_elapsed_ns = times,
           dc_final_drain_elapsed_ns = clock_of tk st2 - clock_of tk st1, dc_total_elapsed_ns = clock_of tk st2 - clock_of tk st,
           dc_admin_sessions = snapshot_delta before after\<rparr>))"
        using fin df(2) by (cases r4) (auto simp: phase_result_def observer_snapshot_ok)
      with df(1) dr(1) \<open>r2 = _\<close> names en r3 fin permits observer_snapshot_run(3)[OF fin] show ?thesis
        by (simp add: defer_and_drain_def)
    qed
  qed
qed


text \<open>An observer of the little server.\<close>

definition small_observer :: "string list observer" where
  "small_observer = \<lparr>ob_timeout = from_secs 1, ob_snapshot = (\<lambda>w. (Answered (Inr \<lparr>ss_cumulative = 0, ss_active = 0\<rparr>), w)),
     ob_remaining = (\<lambda>names w. (Answered (Inr (int (length (filter (\<lambda>n. n \<in> set w) (remdups names))))), w))\<rparr>"


section \<open>The sequential phase\<close>

lemma sequential_loop_run:
  fixes st :: "('s, 'w) run_state"
  assumes client: "single_client sem be pres"
    and names: "list_all2 (\<lambda>uuid name. DatabaseName_test (srv_project server) uuid = Return name \<and> db_value name \<in> N) uuids names"
    and start: "N \<subseteq> missing pres st" "run_inv st" "q_jobs (rs_queue st) = []"
      "connections_per_database (srv_connection_limits server) \<le> run_available sem st"
      "q_next_sequence (rs_queue st) + length uuids \<le> u64_max"
  shows "\<exists>r st'. sequential_loop tk sem api be now server template uuids individual st = Some (Return r, st')
     \<and> run_available sem st' = run_available sem st
     \<and> (\<forall>times. r = Inr times \<longrightarrow> length times = length individual + length uuids \<and> N \<subseteq> missing pres st')"
  using names start
proof (induction uuids names arbitrary: st individual rule: list_all2_induct)
  case Nil
  then show ?case by simp
next
  case (Cons uuid uuids name names)
  let ?k = "connections_per_database (srv_connection_limits server)"
  have absent: "absent pres (missing pres st) st" by (simp add: absent_missing)
  from Cons.hyps(1) Cons.prems(1) have name: "DatabaseName_test (srv_project server) uuid = Return name"
    "db_value name \<in> missing pres st" by auto
  note wf = test_name_ok[OF name(1)]
  from client Cons.prems(2) absent name Cons.prems(4) refl show ?case
  proof (cases rule: run_database_run[where api = api and now = now and source = "Template_source template"])
    case (refused e st1)
    then show ?thesis by simp
  next
    case (leased lease st1)
    from leased(4) have q: "q_jobs (rs_queue st1) = q_jobs (rs_queue st)" "q_next_sequence (rs_queue st1) = q_next_sequence (rs_queue st)"
      by (auto simp: same_queue_def)
    have room: "q_next_sequence (rs_queue st1) < u64_max" using q Cons.prems(5) by simp
    obtain r st2 where run: "run_cleanup sem api be now server lease st1 = Some (Return r, st2)" "run_inv st2"
      "q_jobs (rs_queue st2) = []" "q_next_sequence (rs_queue st2) = Suc (q_next_sequence (rs_queue st1))"
      "run_permits sem st2 = run_permits sem st1 + ?k" "missing pres st1 \<subseteq> missing pres st2"
      "r = Inr () \<Longrightarrow> db_value name \<in> missing pres st2"
      by (rule run_cleanup_run[OF client leased(3,2) wf room, where api = api and now = now and server = server], rule that) assumption+
    have available: "run_available sem st2 = run_available sem st"
      using run(3,5) leased(5) q Cons.prems(3) by (simp add: run_permits_def)
    show ?thesis
    proof (cases r)
      case (Inl e)
      with leased(1) run(1) available show ?thesis by simp
    next
      case (Inr u)
      have "N - {db_value name} \<subseteq> missing pres st1" using Cons.prems(1) leased(8) by (auto simp: absent_missing)
      with run(6,7) Inr have kept: "N \<subseteq> missing pres st2" by auto
      have "?k \<le> run_available sem st2" "q_next_sequence (rs_queue st2) + length uuids \<le> u64_max"
        using Cons.prems(4,5) available run(4) q by simp_all
      from Cons.IH[OF kept run(2,3) this, of "individual @ [clock_of tk st2 - clock_of tk st]"] obtain r' st' where
        "sequential_loop tk sem api be now server template uuids (individual @ [clock_of tk st2 - clock_of tk st]) st2 = Some (Return r', st')"
        "run_available sem st' = run_available sem st"
        "\<forall>times. r' = Inr times \<longrightarrow> length times = length individual + 1 + length uuids \<and> N \<subseteq> missing pres st'"
        using available by auto
      with leased(1) run(1) Inr show ?thesis by simp
    qed
  qed
qed

end
