(* ===== verification/Scenario_Strategies.thy ===== *)
theory Scenario_Strategies
  imports Benchmark_Phases
begin

text \<open>
  The scenario comparison of the benchmark (\<open>examples/performance/scenarios.rs\<close>): a workload, the construction of
  the templates of a strategy, the life of its tests, and the checks on what was set up. A template call of the
  harness is the parameter \<open>acquire\<close>: it may run the initializer it is given, on the server and on the counters of
  the caller. Branches are the indices 0 and 1.
\<close>

section \<open>The workload\<close>

definition MIGRATION :: string where
  "MIGRATION = ''CREATE TABLE scenario_rows ('' @ [CHR 0x0A]
     @ ''    id bigint PRIMARY KEY, payload text NOT NULL, state text NOT NULL'' @ [CHR 0x0A]
     @ ''); CREATE INDEX scenario_state_idx ON scenario_rows (state);''"

definition BRANCHES :: "string list" where "BRANCHES = [''active'', ''cancelled'']"

datatype step = Migration | Shared | Branch nat

record workload =
  wl_domain :: string
  wl_shared_sql :: string
  wl_branch_sql :: "string list"
  wl_rows :: int
  wl_tests :: nat

definition apostrophes :: "string \<Rightarrow> string" where "apostrophes s = [CHR 0x27] @ s @ [CHR 0x27]"

definition Workload_new :: "benchmark_config \<Rightarrow> string \<Rightarrow> nat \<Rightarrow> workload bench_result" where
  "Workload_new config invocation sample =
     (if int (bc_representative_rows config) > i64_max then Inl (Bench_other ''out of range integral type conversion attempted'')
      else Inr
        \<lparr>wl_domain = ''scenario-reuse-v1:'' @ invocation @ '':'' @ show_nat sample,
         wl_shared_sql = ''INSERT INTO scenario_rows SELECT id, repeat('' @ apostrophes ''payload-'' @ '' || id::text, 8), ''
           @ apostrophes ''base'' @ '' FROM generate_series(1, '' @ show_nat (bc_representative_rows config) @ '') AS id;'',
         wl_branch_sql = map (\<lambda>state. ''UPDATE scenario_rows SET state = '' @ apostrophes state @ '' WHERE id = 1;'') BRANCHES,
         wl_rows = int (bc_representative_rows config),
         wl_tests = bc_sequential_operations config\<rparr>)"

fun workload_sql :: "workload \<Rightarrow> step \<Rightarrow> string" where
  "workload_sql self Migration = MIGRATION"
| "workload_sql self Shared = wl_shared_sql self"
| "workload_sql self (Branch branch) = wl_branch_sql self ! branch"

definition workload_fingerprint :: "workload \<Rightarrow> strategy \<Rightarrow> step list \<Rightarrow> fingerprint_builder" where
  "workload_fingerprint self strategy steps =
     foldl (\<lambda>builder step. FingerprintBuilder_add builder (bytes_of_string ''setup.sql'') (bytes_of_string (workload_sql self step)))
       (FingerprintBuilder_add (FingerprintBuilder_new (bytes_of_string (wl_domain self)))
          (bytes_of_string ''strategy'') (bytes_of_string (strategy_name strategy))) steps"

text \<open>
  The connection of the benchmark to a database; \<open>bp_close\<close> is what waiting for the connection's task yields,
  \<open>None\<close> when it takes too long.
\<close>

record ('c, 'w) probe =
  bp_connect :: "string \<Rightarrow> 'w \<Rightarrow> 'c observed \<times> 'w"
  bp_batch :: "'c \<Rightarrow> string \<Rightarrow> 'w \<Rightarrow> unit observed \<times> 'w"
  bp_rows :: "'c \<Rightarrow> int \<Rightarrow> string \<Rightarrow> 'w \<Rightarrow> (int \<times> bool) observed \<times> 'w"
  bp_close :: "'c \<Rightarrow> 'w \<Rightarrow> (string + (pg_error + unit)) option \<times> 'w"

definition observer_close :: "(string + (pg_error + unit)) option \<Rightarrow> unit bench_result" where
  "observer_close joined =
     (case joined of
        None \<Rightarrow> Inl (Bench_timed_out ''close connection'' (as_millis BENCH_OPERATION_TIMEOUT))
      | Some (Inl e) \<Rightarrow> Inl (Bench_other e)
      | Some (Inr (Inl e)) \<Rightarrow> Inl (Bench_client e)
      | Some (Inr (Inr _)) \<Rightarrow> Inr ())"

definition count_step :: "step \<Rightarrow> initializer_counts \<Rightarrow> initializer_counts" where
  "count_step step counts =
     (case step of
        Migration \<Rightarrow> counts\<lparr>ic_root_migrations := ic_root_migrations counts + 1\<rparr>
      | Shared \<Rightarrow> counts\<lparr>ic_shared_fixtures := ic_shared_fixtures counts + 1\<rparr>
      | Branch branch \<Rightarrow>
          (let (a, c) = ic_branch_steps counts
           in counts\<lparr>ic_branch_steps := (if branch = 0 then (a + 1, c) else (a, c + 1))\<rparr>))"

fun workload_setup ::
  "('c, 'w) probe \<Rightarrow> workload \<Rightarrow> 'c \<Rightarrow> step list \<Rightarrow> initializer_counts \<times> 'w \<Rightarrow> unit bench_result \<times> initializer_counts \<times> 'w" where
  "workload_setup pr self client [] s = (Inr (), s)"
| "workload_setup pr self client (step # steps) (counts, w) =
     (let (answer, w') = bp_batch pr client (workload_sql self step) w; counts' = count_step step counts
      in case run_observer_operation ''apply scenario setup'' BENCH_OPERATION_TIMEOUT answer of
           Inl e \<Rightarrow> (Inl e, counts', w')
         | Inr _ \<Rightarrow> workload_setup pr self client steps (counts', w'))"

text \<open>An operation on a fresh connection, which is closed whatever the operation returned.\<close>

definition on_probe ::
  "('c, 'w) probe \<Rightarrow> string \<Rightarrow> ('c \<Rightarrow> 'x \<times> 'w \<Rightarrow> unit bench_result \<times> 'x \<times> 'w) \<Rightarrow> 'x \<times> 'w \<Rightarrow> unit bench_result \<times> 'x \<times> 'w" where
  "on_probe pr url operation s =
     (let (x, w) = s; (answer, w1) = bp_connect pr url w
      in case run_observer_operation ''connect'' BENCH_OPERATION_TIMEOUT answer of
           Inl e \<Rightarrow> (Inl e, x, w1)
         | Inr client \<Rightarrow>
             (let (r, x2, w2) = operation client (x, w1); (joined, w3) = bp_close pr client w2
              in (bench_bind (combine_operation_and_cleanup r (observer_close joined)) (\<lambda>_. Inr ()), x2, w3)))"

definition workload_initialize ::
  "('c, 'w) probe \<Rightarrow> workload \<Rightarrow> step list \<Rightarrow> string \<Rightarrow> initializer_counts \<times> 'w \<Rightarrow> unit bench_result \<times> initializer_counts \<times> 'w" where
  "workload_initialize pr self steps url = on_probe pr url (\<lambda>client. workload_setup pr self client steps)"

definition workload_validate :: "('c, 'w) probe \<Rightarrow> workload \<Rightarrow> 'c \<Rightarrow> nat \<Rightarrow> 'w \<Rightarrow> unit bench_result \<times> 'w" where
  "workload_validate pr self client branch w =
     (let (answer, w') = bp_rows pr client (wl_rows self) (BRANCHES ! branch) w
      in (bench_bind (run_observer_operation ''validate scenario rows'' BENCH_OPERATION_TIMEOUT answer) (\<lambda>(found, contents_match).
            if found \<noteq> wl_rows self \<or> \<not> contents_match
            then Inl (Bench_other (BRANCHES ! branch @ '' scenario has incorrect data'')) else Inr ()), w'))"

section \<open>Constructing the templates of a strategy\<close>

datatype node_spec = Root_node root_spec | Derived_node nat step_spec

record template_node =
  nd_template :: database_name
  nd_spec :: node_spec
  nd_role :: string

record constructed =
  co_nodes :: "template_node list"
  co_branches :: "nat \<times> nat"
  co_root_acquisition_ns :: "nat option"

text \<open>A call of \<open>PostgresHarness::template\<close>, or of \<open>DatabaseTemplate::derive\<close> on a template.\<close>

datatype template_call = Call_root root_spec | Call_derive database_name step_spec

type_synonym ('s, 'w) acquisition =
  "template_call \<Rightarrow> (string \<Rightarrow> initializer_counts \<times> 'w \<Rightarrow> unit bench_result \<times> initializer_counts \<times> 'w)
     \<Rightarrow> initializer_counts \<Rightarrow> ('s, 'w) run_state \<Rightarrow> (database_name bench_result \<times> initializer_counts \<times> ('s, 'w) run_state) option"

fun step_role :: "step \<Rightarrow> string" where
  "step_role Migration = ''root''"
| "step_role Shared = ''shared''"
| "step_role (Branch branch) = BRANCHES ! branch"

text \<open>\<open>Constructed::add\<close>; the steps of a call are not empty and its parent exists.\<close>

definition Constructed_add ::
  "(bytes \<Rightarrow> bytes) \<Rightarrow> ('c, 'w) probe \<Rightarrow> ('s, 'w) acquisition \<Rightarrow> workload \<Rightarrow> strategy \<Rightarrow> nat option \<times> step list
     \<Rightarrow> constructed \<Rightarrow> initializer_counts \<Rightarrow> ('s, 'w) run_state
     \<Rightarrow> (constructed bench_result \<times> initializer_counts \<times> ('s, 'w) run_state) option" where
  "Constructed_add sha256 pr acquire workload strategy call self counts st =
     (let (source, steps) = call;
          fingerprint = workload_fingerprint workload strategy steps;
          (request, spec) =
            (case source of
               Some parent \<Rightarrow> (Call_derive (nd_template (co_nodes self ! parent)) (finish_step sha256 fingerprint),
                  Derived_node parent (finish_step sha256 fingerprint))
             | None \<Rightarrow> (Call_root (finish_root sha256 fingerprint), Root_node (finish_root sha256 fingerprint)))
      in map_option (\<lambda>(r, counts', st').
            (bench_bind r (\<lambda>template. Inr (self\<lparr>co_nodes := co_nodes self
                @ [\<lparr>nd_template = template, nd_spec = spec, nd_role = step_role (last steps)\<rparr>]\<rparr>)), counts', st'))
           (acquire request (workload_initialize pr workload steps) counts st))"

fun add_all ::
  "(bytes \<Rightarrow> bytes) \<Rightarrow> ('c, 'w) probe \<Rightarrow> ('s, 'w) acquisition \<Rightarrow> workload \<Rightarrow> strategy \<Rightarrow> (nat option \<times> step list) list
     \<Rightarrow> constructed \<Rightarrow> initializer_counts \<Rightarrow> ('s, 'w) run_state
     \<Rightarrow> (constructed bench_result \<times> initializer_counts \<times> ('s, 'w) run_state) option" where
  "add_all sha256 pr acquire workload strategy [] self counts st = Some (Inr self, counts, st)"
| "add_all sha256 pr acquire workload strategy (call # calls) self counts st =
     (case Constructed_add sha256 pr acquire workload strategy call self counts st of
        Some (Inr self', counts', st') \<Rightarrow> add_all sha256 pr acquire workload strategy calls self' counts' st'
      | other \<Rightarrow> other)"

fun construction_calls :: "strategy \<Rightarrow> (nat option \<times> step list) list" where
  "construction_calls PerTest = []"
| "construction_calls FlatCached = map (\<lambda>branch. (None, [Migration, Shared, Branch branch])) [0, 1]"
| "construction_calls Derived = (Some 0, [Shared]) # map (\<lambda>branch. (Some 1, [Branch branch])) [0, 1]"

fun strategy_branches :: "strategy \<Rightarrow> nat \<times> nat" where
  "strategy_branches PerTest = (0, 0)"
| "strategy_branches FlatCached = (0, 1)"
| "strategy_branches Derived = (2, 3)"

definition construct ::
  "('w \<Rightarrow> nat) \<Rightarrow> (bytes \<Rightarrow> bytes) \<Rightarrow> ('c, 'w) probe \<Rightarrow> ('s, 'w) acquisition \<Rightarrow> workload \<Rightarrow> strategy
     \<Rightarrow> initializer_counts \<Rightarrow> ('s, 'w) run_state \<Rightarrow> (constructed bench_result \<times> initializer_counts \<times> ('s, 'w) run_state) option" where
  "construct tk sha256 pr acquire workload strategy counts st =
     (let built = \<lparr>co_nodes = [], co_branches = (0, 0), co_root_acquisition_ns = None\<rparr>;
          finish = (\<lambda>built counts st. map_option (\<lambda>(r, counts', st').
              (bench_bind r (\<lambda>b. Inr (b\<lparr>co_branches := strategy_branches strategy\<rparr>)), counts', st'))
            (add_all sha256 pr acquire workload strategy (construction_calls strategy) built counts st))
      in if strategy = FlatCached then finish built counts st
         else (case Constructed_add sha256 pr acquire workload strategy (None, [Migration]) built counts st of
                 Some (Inr built', counts', st') \<Rightarrow>
                   finish (built'\<lparr>co_root_acquisition_ns := Some (clock_of tk st' - clock_of tk st)\<rparr>) counts' st'
               | other \<Rightarrow> other))"

text \<open>\<open>Constructed::warm\<close>: every handle is asked for again with an initializer that must not run.\<close>

fun warm_nodes ::
  "('s, 'w) acquisition \<Rightarrow> template_node list \<Rightarrow> template_node list \<Rightarrow> initializer_counts \<Rightarrow> ('s, 'w) run_state
     \<Rightarrow> (unit bench_result \<times> initializer_counts \<times> ('s, 'w) run_state) option" where
  "warm_nodes acquire all [] counts st = Some (Inr (), counts, st)"
| "warm_nodes acquire all (node # nodes) counts st =
     (let request = (case nd_spec node of
          Derived_node parent step \<Rightarrow> Call_derive (nd_template (all ! parent)) step | Root_node root \<Rightarrow> Call_root root)
      in case acquire request (\<lambda>_ s. (Inl (Bench_other ''scenario warm initializer unexpectedly ran''), s)) counts st of
           None \<Rightarrow> None
         | Some (Inl e, counts', st') \<Rightarrow> Some (Inl e, counts', st')
         | Some (Inr template, counts', st') \<Rightarrow>
             if db_value template \<noteq> db_value (nd_template node)
             then Some (Inl (Bench_other ''warm scenario changed its database identity''), counts', st')
             else warm_nodes acquire all nodes counts' st')"

section \<open>The life of the tests\<close>

record lifecycle_timings =
  lt_lease_acquisition_ns :: nat
  lt_repeated_test_setup_ns :: nat
  lt_cleanup_ns :: nat
  lt_names :: "string list"

definition default_timings :: lifecycle_timings where
  "default_timings = \<lparr>lt_lease_acquisition_ns = 0, lt_repeated_test_setup_ns = 0, lt_cleanup_ns = 0, lt_names = []\<rparr>"

text \<open>\<open>use_database\<close>; a test of \<open>PerTest\<close> sets its database up first.\<close>

definition use_database ::
  "('w \<Rightarrow> nat) \<Rightarrow> ('c, 'w) probe \<Rightarrow> string \<Rightarrow> workload \<Rightarrow> nat \<Rightarrow> strategy \<Rightarrow> (initializer_counts \<times> lifecycle_timings) \<times> 'w
     \<Rightarrow> unit bench_result \<times> (initializer_counts \<times> lifecycle_timings) \<times> 'w" where
  "use_database tk pr url workload branch strategy =
     on_probe pr url (\<lambda>client ((counts, timings), w).
       if strategy = PerTest
       then (case workload_setup pr workload client [Shared, Branch branch] (counts, w) of
               (Inl e, counts', w1) \<Rightarrow> (Inl e, (counts', timings), w1)
             | (Inr _, counts', w1) \<Rightarrow>
                 (let timings' = timings\<lparr>lt_repeated_test_setup_ns := lt_repeated_test_setup_ns timings + (tk w1 - tk w)\<rparr>;
                      (r, w2) = workload_validate pr workload client branch w1
                  in (r, (counts', timings'), w2)))
       else (let (r, w1) = workload_validate pr workload client branch w in (r, (counts, timings), w1)))"

text \<open>The nested loops of \<open>test_lifecycles\<close> as one list of branches with the names their leases will get.\<close>

definition lifecycle_plan :: "nat \<Rightarrow> (nat \<Rightarrow> nat \<Rightarrow> string) \<Rightarrow> (nat \<times> string) list" where
  "lifecycle_plan tests uuids = concat (map (\<lambda>branch. map (\<lambda>test. (branch, uuids branch test)) [0..<tests]) [0, 1])"

fun test_lifecycles ::
  "('w \<Rightarrow> nat) \<Rightarrow> ('c, 'w) probe \<Rightarrow> 's semaphore \<Rightarrow> 'u url_api \<Rightarrow> ('s \<times> ('s prewarm_pool \<times> return_phase) \<times> 'w) backend
     \<Rightarrow> nat \<Rightarrow> 'u server_inner \<Rightarrow> constructed \<Rightarrow> workload \<Rightarrow> strategy \<Rightarrow> (nat \<times> string) list
     \<Rightarrow> initializer_counts \<Rightarrow> lifecycle_timings \<Rightarrow> ('s, 'w) run_state
     \<Rightarrow> (lifecycle_timings bench_result exec \<times> initializer_counts \<times> ('s, 'w) run_state) option" where
  "test_lifecycles tk pr sem api be now server built workload strategy [] counts timings st
     = Some (Return (Inr timings), counts, st)"
| "test_lifecycles tk pr sem api be now server built workload strategy ((branch, uuid) # plan) counts timings st =
     (let node = co_nodes built ! (if branch = 0 then fst (co_branches built) else snd (co_branches built))
      in case run_database sem api be now server uuid (Template_source (nd_template node)) st of
           None \<Rightarrow> None
         | Some (Panic m, st1) \<Rightarrow> Some (Panic m, counts, st1)
         | Some (Return (Inl e), st1) \<Rightarrow> Some (Return (Inl (Bench_harness e)), counts, st1)
         | Some (Return (Inr lease), st1) \<Rightarrow>
             (let timings1 = timings\<lparr>lt_lease_acquisition_ns := lt_lease_acquisition_ns timings + (clock_of tk st1 - clock_of tk st),
                    lt_names := lt_names timings @ [lease_name lease]\<rparr>;
                  ((operation, counts', timings2), st2) =
                    observe_world (\<lambda>w. let (r, (c, t), w') =
                      use_database tk pr (le_database_url lease) workload branch strategy ((counts, timings1), w) in ((r, c, t), w')) st1
              in case run_cleanup sem api be now server lease st2 of
                   None \<Rightarrow> None
                 | Some (Panic m, st3) \<Rightarrow> Some (Panic m, counts', st3)
                 | Some (Return cleanup, st3) \<Rightarrow>
                     (let timings3 = timings2\<lparr>lt_cleanup_ns := lt_cleanup_ns timings2 + (clock_of tk st3 - clock_of tk st2)\<rparr>
                      in case combine_operation_and_cleanup operation (bench_from cleanup) of
                           Inl e \<Rightarrow> Some (Return (Inl e), counts', st3)
                         | Inr _ \<Rightarrow> test_lifecycles tk pr sem api be now server built workload strategy plan counts' timings3 st3)))"

text \<open>\<open>Constructed::storage\<close>; the sizes are those of a few databases, whose sum fits an \<open>i64\<close>.\<close>

fun nodes_storage ::
  "(string \<Rightarrow> 'w \<Rightarrow> int observed \<times> 'w) \<Rightarrow> template_node list \<Rightarrow> ('s, 'w) run_state \<Rightarrow> template_storage list bench_result \<times> ('s, 'w) run_state" where
  "nodes_storage db_size [] st = (Inr [], st)"
| "nodes_storage db_size (node # nodes) st =
     (let name = db_value (nd_template node); (answer, st1) = observe_world (db_size name) st
      in case run_observer_operation ''read template database size'' BENCH_OPERATION_TIMEOUT answer of
           Inl e \<Rightarrow> (Inl e, st1)
         | Inr bytes \<Rightarrow>
             (let (rest, st2) = nodes_storage db_size nodes st1
              in (bench_bind rest (\<lambda>templates. Inr
                    (\<lparr>ts_database_name = name, ts_role = nd_role node, ts_size_bytes = bytes\<rparr> # templates)), st2)))"

text \<open>The drain runs also when a test has failed; the diagnostics come after the checks on the finished workload.\<close>

definition run_strategy ::
  "('w \<Rightarrow> nat) \<Rightarrow> (bytes \<Rightarrow> bytes) \<Rightarrow> ('c, 'w) probe \<Rightarrow> ('s, 'w) acquisition \<Rightarrow> (string \<Rightarrow> 'w \<Rightarrow> int observed \<times> 'w)
     \<Rightarrow> 's semaphore \<Rightarrow> 'u url_api \<Rightarrow> ('s \<times> ('s prewarm_pool \<times> return_phase) \<times> 'w) backend \<Rightarrow> nat \<Rightarrow> 'u server_inner
     \<Rightarrow> 'w observer \<Rightarrow> workload \<Rightarrow> strategy \<Rightarrow> (nat \<Rightarrow> nat \<Rightarrow> string) \<Rightarrow> ('s, 'w) run_state
     \<Rightarrow> (strategy_report bench_result exec \<times> ('s, 'w) run_state) option" where
  "run_strategy tk sha256 pr acquire db_size sem api be now server ob workload strategy uuids st =
     (case construct tk sha256 pr acquire workload strategy default_counts st of
        None \<Rightarrow> None
      | Some (Inl e, _, st1) \<Rightarrow> Some (Return (Inl e), st1)
      | Some (Inr built, counts, st1) \<Rightarrow>
          (case test_lifecycles tk pr sem api be now server built workload strategy
                  (lifecycle_plan (wl_tests workload) uuids) counts default_timings st1 of
             None \<Rightarrow> None
           | Some (Panic m, _, st2) \<Rightarrow> Some (Panic m, st2)
           | Some (Return lifecycles, counts', st2) \<Rightarrow>
               (case run_drain sem api be now server st2 of
                  None \<Rightarrow> None
                | Some (drain, st3) \<Rightarrow>
                    (case bench_bind (combine_operation_and_cleanup lifecycles (bench_from drain))
                            (\<lambda>(timings, _). bench_bind (counts_validate counts' strategy (wl_tests workload)) (\<lambda>_. Inr timings)) of
                       Inl e \<Rightarrow> Some (Return (Inl e), st3)
                     | Inr timings \<Rightarrow>
                         (case ensure_databases_are_absent ob (lt_names timings) st3 of
                            (Inl e, st4) \<Rightarrow> Some (Return (Inl e), st4)
                          | (Inr _, st4) \<Rightarrow>
                              (case warm_nodes acquire (co_nodes built) (co_nodes built) counts' st4 of
                                 None \<Rightarrow> None
                               | Some (Inl e, _, st5) \<Rightarrow> Some (Return (Inl e), st5)
                               | Some (Inr _, _, st5) \<Rightarrow>
                                   (let (storage, st6) = nodes_storage db_size (co_nodes built) st5
                                    in Some (Return (bench_bind storage (\<lambda>templates. Inr
                                         \<lparr>sy_strategy = strategy, sy_construction_ns = clock_of tk st1 - clock_of tk st,
                                          sy_root_acquisition_ns = co_root_acquisition_ns built,
                                          sy_warm_acquisition_ns = clock_of tk st5 - clock_of tk st4,
                                          sy_lease_acquisition_ns = lt_lease_acquisition_ns timings,
                                          sy_repeated_test_setup_ns = lt_repeated_test_setup_ns timings,
                                          sy_test_lifecycles_ns = clock_of tk st2 - clock_of tk st1,
                                          sy_cleanup_ns = lt_cleanup_ns timings,
                                          sy_drain_ns = clock_of tk st3 - clock_of tk st2,
                                          sy_total_ns = clock_of tk st3 - clock_of tk st,
                                          sy_initializer_counts = counts', sy_templates = templates,
                                          sy_template_storage_bytes = sum_list (map ts_size_bytes templates)\<rparr>)), st6))))))))"

section \<open>Every setup is counted as the strategy demands\<close>

text \<open>A template that is acquired has run its initializer once, successfully.\<close>

definition cold_acquisition :: "('s, 'w) acquisition \<Rightarrow> bool" where
  "cold_acquisition acquire \<longleftrightarrow> (\<forall>request init counts st name counts' st'.
     acquire request init counts st = Some (Inr name, counts', st') \<longrightarrow> (\<exists>url w w'. init url (counts, w) = (Inr (), counts', w')))"

definition count_steps :: "step list \<Rightarrow> initializer_counts \<Rightarrow> initializer_counts" where
  "count_steps steps counts = fold count_step steps counts"

lemma count_steps_simps [simp]:
  "count_steps [] counts = counts" "count_steps (step # steps) counts = count_steps steps (count_step step counts)"
  "count_steps (xs @ ys) counts = count_steps ys (count_steps xs counts)"
  by (simp_all add: count_steps_def)

lemma bench_combine_Inr_iff: "combine_operation_and_cleanup r c = Inr x \<longleftrightarrow> (\<exists>v u. r = Inr v \<and> c = Inr u \<and> x = (v, u))"
  by (auto simp: combine_operation_and_cleanup_def split: sum.splits)

lemma workload_setup_counts:
  "workload_setup pr self client steps (counts, w) = (Inr (), counts', w') \<Longrightarrow> counts' = count_steps steps counts"
  by (induction steps arbitrary: counts w) (auto simp: Let_def split: prod.splits sum.splits)

lemma on_probe_ok:
  assumes "on_probe pr url operation s = (Inr (), x, w)"
  obtains client x1 w1 w2 where "operation client (fst s, w1) = (Inr (), x, w2)"
proof -
  obtain x0 w0 where s: "s = (x0, w0)" by fastforce
  with assms that show thesis
    by (auto simp: on_probe_def Let_def bench_bind_Inr_iff bench_combine_Inr_iff split: prod.splits sum.splits)
qed

lemma workload_initialize_counts:
  assumes "workload_initialize pr self steps url (counts, w) = (Inr (), counts', w')"
  shows "counts' = count_steps steps counts"
  using assms[unfolded workload_initialize_def] by (rule on_probe_ok) (auto dest: workload_setup_counts)

lemma Constructed_add_counts:
  assumes "cold_acquisition acquire"
    and "Constructed_add sha256 pr acquire workload strategy call self counts st = Some (Inr self', counts', st')"
  shows "counts' = count_steps (snd call) counts"
proof -
  from assms(2) obtain request name where "acquire request (workload_initialize pr workload (snd call)) counts st = Some (Inr name, counts', st')"
    by (auto simp: Constructed_add_def Let_def bench_bind_Inr_iff split: prod.splits)
  with assms(1) obtain url w w' where "workload_initialize pr workload (snd call) url (counts, w) = (Inr (), counts', w')"
    unfolding cold_acquisition_def by blast
  then show ?thesis by (rule workload_initialize_counts)
qed

lemma add_all_counts:
  assumes "cold_acquisition acquire" "add_all sha256 pr acquire workload strategy calls self counts st = Some (Inr self', counts', st')"
  shows "counts' = count_steps (concat (map snd calls)) counts"
  using assms(2)
proof (induction calls arbitrary: self counts st)
  case Nil
  then show ?case by simp
next
  case (Cons call calls)
  then show ?case
    by (auto dest: Constructed_add_counts[OF assms(1)] split: option.splits prod.splits sum.splits)
qed

lemma construct_counts:
  assumes "cold_acquisition acquire" "construct tk sha256 pr acquire workload strategy counts st = Some (Inr built, counts', st')"
  shows "counts' = count_steps (concat (map snd ((if strategy = FlatCached then [] else [(None, [Migration])]) @ construction_calls strategy))) counts"
  using assms(2)
  by (auto simp: construct_def Let_def bench_bind_Inr_iff
      dest!: add_all_counts[OF assms(1)] Constructed_add_counts[OF assms(1)] split: if_splits option.splits prod.splits sum.splits)

lemma use_database_counts:
  assumes "use_database tk pr url workload branch strategy ((counts, timings), w) = (Inr (), (counts', timings'), w')"
  shows "counts' = count_steps (if strategy = PerTest then [Shared, Branch branch] else []) counts" "lt_names timings' = lt_names timings"
proof -
  from assms[unfolded use_database_def] have "counts' = count_steps (if strategy = PerTest then [Shared, Branch branch] else []) counts
      \<and> lt_names timings' = lt_names timings"
    by (rule on_probe_ok)
      (auto simp: Let_def dest!: workload_setup_counts split: prod.splits sum.splits if_splits)
  then show "counts' = count_steps (if strategy = PerTest then [Shared, Branch branch] else []) counts" "lt_names timings' = lt_names timings"
    by simp_all
qed

text \<open>The steps that one test of a plan runs itself.\<close>

fun test_steps :: "strategy \<Rightarrow> nat \<times> string \<Rightarrow> step list" where
  "test_steps PerTest (branch, _) = [Shared, Branch branch]"
| "test_steps _ _ = []"

lemma test_lifecycles_counts:
  assumes "test_lifecycles tk pr sem api be now server built workload strategy plan counts timings st
      = Some (Return (Inr timings'), counts', st')"
  shows "counts' = count_steps (concat (map (test_steps strategy) plan)) counts"
    and "length (lt_names timings') = length (lt_names timings) + length plan"
proof -
  have "counts' = count_steps (concat (map (test_steps strategy) plan)) counts
      \<and> length (lt_names timings') = length (lt_names timings) + length plan"
    using assms
  proof (induction plan arbitrary: counts timings st)
    case Nil
    then show ?case by simp
  next
    case (Cons entry plan)
    obtain branch uuid where entry: "entry = (branch, uuid)" by fastforce
    from Cons.prems obtain lease counts1 timings2 t1 t3 st3 w w' where
      use: "use_database tk pr (le_database_url lease) workload branch strategy ((counts, t1), w) = (Inr (), (counts1, timings2), w')"
      and rest: "test_lifecycles tk pr sem api be now server built workload strategy plan counts1 t3 st3 = Some (Return (Inr timings'), counts', st')"
      and names: "lt_names t1 = lt_names timings @ [lease_name lease]" "lt_names t3 = lt_names timings2"
      by (auto simp: entry observe_world_def Let_def bench_combine_Inr_iff split: option.splits prod.splits exec.splits sum.splits)
    note step = use_database_counts[OF use]
    from Cons.IH[OF rest] step names show ?case by (cases strategy) (simp_all add: entry)
  qed
  then show "counts' = count_steps (concat (map (test_steps strategy) plan)) counts"
    "length (lt_names timings') = length (lt_names timings) + length plan" by simp_all
qed

lemma counted_tests:
  "count_steps (concat (map (\<lambda>_. [Shared, Branch branch]) [0..<n])) counts
     = counts\<lparr>ic_shared_fixtures := ic_shared_fixtures counts + n,
         ic_branch_steps := (let (a, c) = ic_branch_steps counts in if branch = 0 then (a + n, c) else (a, c + n))\<rparr>"
  by (induction n) (auto simp: count_step_def split: prod.split)

lemma test_steps_none: "strategy \<noteq> PerTest \<Longrightarrow> concat (map (test_steps strategy) plan) = []"
  by (cases strategy) auto

text \<open>What a finished workload has set up is what its strategy demands, if no template came from elsewhere.\<close>

lemma strategy_counts_exact:
  assumes "cold_acquisition acquire"
    and "construct tk sha256 pr acquire workload strategy default_counts st = Some (Inr built, counts, st1)"
    and "test_lifecycles tk pr sem api be now server built workload strategy (lifecycle_plan tests uuids) counts default_timings st1
      = Some (Return (Inr timings), counts', st2)"
  shows "counts' = expected_counts strategy tests" "counts_validate counts' strategy tests = Inr ()"
    and "length (lt_names timings) = 2 * tests"
proof -
  note construct = construct_counts[OF assms(1,2)] and run = test_lifecycles_counts[OF assms(3)]
  show "length (lt_names timings) = 2 * tests" using run(2) by (simp add: default_timings_def lifecycle_plan_def)
  show exact: "counts' = expected_counts strategy tests"
  proof (cases "strategy = PerTest")
    case True
    with run(1) construct show ?thesis
      by (simp add: lifecycle_plan_def counted_tests comp_def count_step_def default_counts_def)
  next
    case False
    with run(1)[unfolded test_steps_none[OF False]] construct show ?thesis
      by (cases strategy) (simp_all add: count_step_def default_counts_def)
  qed
  then show "counts_validate counts' strategy tests = Inr ()" by (simp add: counts_validate_def)
qed

text \<open>So a report shows exactly the setups of its strategy.\<close>

lemma run_strategy_counts:
  assumes "run_strategy tk sha256 pr acquire db_size sem api be now server ob workload strategy uuids st = Some (Return (Inr report), st')"
  shows "sy_initializer_counts report = expected_counts strategy (wl_tests workload)" "sy_strategy report = strategy"
  using assms
  by (auto simp: run_strategy_def bench_bind_Inr_iff counts_validate_def Let_def
      split: option.splits prod.splits exec.splits sum.splits if_splits)

end
