(* ===== verification/Spec2Isabelle.thy ===== *)
theory Spec2Isabelle
  imports Cleanup_Properties Session_Properties Stale Prewarm Template_Cache Template_Properties
    Server_Properties Container_Properties Diagnosis Shutdown_Properties Pool_Properties
    Lease_System Facade Benchmark_Report Report_Output Examples Scenario_Strategies
begin

text \<open>
  A verification library for the Rust crate \<open>postgres-test-harness\<close>, which gives tests disposable
  PostgreSQL databases, cloned from content-addressed template databases, on an external server or on
  a container that the crate owns.

  \<^bold>\<open>Parts of the program.\<close> A configuration (\<open>src/config.rs\<close>) starts a server (\<open>src/server.rs\<close>), which holds
  the connection budget (\<open>src/admission.rs\<close>), a pool of administrative sessions (\<open>src/admin.rs\<close>), a
  queue of deferred cleanups (\<open>src/cleanup.rs\<close>), a cache of live templates, the registered prewarm pools
  and, if it is owned, the container. Databases are identified by names (\<open>src/name.rs\<close>), by metadata in
  their comments (\<open>src/metadata.rs\<close>) and by fingerprints of their setup (\<open>src/fingerprint.rs\<close>). The
  public operations (\<open>src/harness.rs\<close>) create templates, leases and prewarm pools, give databases back to
  the cleanup queue, remove stale databases of dead runs and shut the server down.

  \<^bold>\<open>Theories and sources.\<close>
  \<^item> \<open>Prelude\<close>: results, panics (\<open>exec\<close>), bounded integers, durations, strings and the reachability of
    transition systems, with the locales \<open>invariant_system\<close> for invariants and \<open>forward_simulation\<close> for
    refinements.
  \<^item> \<open>Errors\<close>, \<open>Config\<close>, \<open>Fingerprint\<close>, \<open>Names\<close>, \<open>Metadata\<close>: \<open>src/error.rs\<close>, \<open>src/config.rs\<close>,
    \<open>src/fingerprint.rs\<close>, \<open>src/name.rs\<close>, \<open>src/metadata.rs\<close>.
  \<^item> \<open>Admission\<close>: \<open>src/admission.rs\<close>, over any semaphore that obeys \<open>semaphore_laws\<close>.
  \<^item> \<open>Cleanup\<close>, \<open>Cleanup_System\<close>, \<open>Cleanup_Properties\<close>: \<open>src/cleanup.rs\<close>; the operations, their
    interleaving as the step relation \<open>cleanup_step\<close>, and what holds in all reachable states.
  \<^item> \<open>Client\<close>, \<open>Admin\<close>, \<open>Admin_Properties\<close>: requests with timeouts over a backend, SQL statements and their
    classification (\<open>src/admin.rs\<close>). \<open>Sessions\<close>, \<open>Session_Properties\<close>: the session pool of the same file.
  \<^item> \<open>Stale\<close>: \<open>cleanup_stale_databases\<close> and everything below it (\<open>src/harness.rs\<close>).
  \<^item> \<open>Prewarm\<close>: the pool state and its guards (\<open>src/harness.rs\<close>). \<open>Leases\<close>, \<open>Lease_Properties\<close>,
    \<open>Pool_Properties\<close>: leases, their creation and cleanup, and filling a pool. \<open>Lease_System\<close>: the life of
    all leases as the step relation \<open>lease_step\<close>, which refines the cleanup system. \<open>Facade\<close>: the public
    calls that combine these parts.
  \<^item> \<open>Template_Cache\<close>: the in-process cache (\<open>src/server.rs\<close>). \<open>Templates\<close>, \<open>Template_Properties\<close>,
    \<open>Request_Invariants\<close>, \<open>Demo_Server\<close>: coordination of templates through advisory locks
    (\<open>begin_template\<close>, \<open>finish\<close>, \<open>abort\<close>, \<open>get_or_initialize_template\<close> of \<open>src/harness.rs\<close>).
  \<^item> \<open>Server\<close>, \<open>Server_Properties\<close>: the end of a start and the shared state of \<open>src/server.rs\<close>.
  \<^item> \<open>Container\<close>, \<open>Diagnosis\<close>, \<open>Container_Start\<close>, \<open>Startup\<close>, \<open>Container_Properties\<close>: the container request,
    exit diagnosis, worker thread, readiness loop, start and process-exit cleanup of \<open>src/server.rs\<close>.
  \<^item> \<open>Shutdown\<close>, \<open>Shutdown_Properties\<close>: \<open>shutdown_container\<close> with the closing of prewarm pools.
  \<^item> \<open>Benchmark_Config\<close>, \<open>Benchmark_Cleanup\<close>, \<open>Benchmark_Report\<close>, \<open>Report_Output\<close>: the benchmark program
    (\<open>examples/performance.rs\<close>, \<open>examples/performance/scenarios.rs\<close>): its configuration, the sweep of an
    external server, summaries and the publication of the report.
  \<^item> \<open>Test_Runs\<close>: the harness as one client sees it, with the loop of the cleanup worker, leases, cleanups, drains
    and the shutdown over one state \<open>run_state\<close> (sessions, queue, server). \<open>Examples\<close>: the programs
    \<open>examples/downstream_adapter.rs\<close> and \<open>examples/derived_scenarios.rs\<close> on top of it. \<open>Benchmark_Phases\<close>: the
    sequential and the deferred phase of the benchmark; \<open>Scenario_Strategies\<close>: its comparison of setup strategies,
    where each report shows exactly the setups of its strategy.

  \<^bold>\<open>State and effects.\<close> Structures are records and enums are datatypes with the fields and constructors of
  the code. A section under a mutex is a function on the protected record. Fallible code returns
  \<open>error + 'a\<close>; a panic is the value \<open>Panic\<close>; a call that blocks is \<open>None\<close> in the states in which it
  blocks. Code that talks to PostgreSQL is a state transformer over an arbitrary world, with a trace of
  its requests; the driver is the record \<open>backend\<close>, whose replies may depend on the world in any way.
  Threads are interleaved by step relations at the granularity of the mutex sections and atomic
  operations (\<open>cleanup_step\<close>, \<open>cache_step\<close>, \<open>prewarm_step\<close>, \<open>pool_step\<close>, \<open>process_step\<close>, \<open>shutdown_step\<close>,
  \<open>lease_step\<close>),
  and invariants are proved for every reachable state through interpretations of \<open>invariant_system\<close>.

  \<^bold>\<open>What the lemmas show.\<close>
  \<^item> Cleanup: drains are barriers, failures are reported exactly once, permits are conserved, a possible
    residue closes admission, no panic, bounded queue, drains can always return, and the completion
    counter implements the set of completed jobs.
  \<^item> SQL and sessions: creations are classified soundly, the databases present while the gate is open are
    the successful creations, slots of the session pool are returned, sessions are prepared before use.
  \<^item> Stale cleanup: every \<open>DROP\<close> follows a lock and a fresh reading that revalidates the record.
  \<^item> Templates: single flight in the process, exact lock states and publication order across processes,
    abort after a failed initializer, termination of the coordination loop.
  \<^item> Pools and leases: slot and token accounting, exact leases, all-or-nothing filling, and outcomes of
    cleanups that agree with the databases that exist. Every history of leases is a history of the
    cleanup system, so that the guarantees of the latter hold for the permits of leases.
  \<^item> Containers: the readiness loop decides, a failed start releases the container, the exit handler stops
    every owned container, and a shutdown stops the container last.
  \<^item> Data: names, metadata, fingerprints, quoting and configuration round trips and exactness.
  \<^item> Benchmark: a configuration that is accepted fits the connection budget, the sweep ends within 126
    attempts, summaries are exact, and the report file is published atomically. The check behind the drain of
    the deferred phase never finds a database.
  \<^item> Runs: with one client and a worker that runs while the client waits, leasing, cleaning up, deferring, draining
    and shutting down return whatever the server answers; permits are conserved, each database is gone, still
    queued or named by a failure, and every possible residue has closed admission. Hence the programs that use
    the harness end, and their success means what it says.

  \<^bold>\<open>Loops.\<close> Loops over data are structural recursion. Loops that wait for the outside are partial functions
  in the option monad (\<open>begin_template_loop\<close>, \<open>checkout_loop\<close>, \<open>rust_loop\<close>), so that not returning is the
  value \<open>None\<close>; that they return is proved under the laws that the code relies on (a template that stays
  ready, a clock that does not go back and sleeps that last, an idle list that shrinks). The bound of 126 sweeps
  follows from delays that double from 25 milliseconds to one second in a window of two minutes. No fuel is used;
  where a thread reacts to others over time (\<open>monitor_container_startup\<close>, \<open>get_or_initialize_template\<close>), the
  list of what it observes is an argument.

  \<^bold>\<open>Parameters.\<close> The semaphore of tokio, the PostgreSQL driver and server, SHA-256, UUIDs, URL parsing, the
  container engine, thread spawning, \<open>atexit\<close>, failures of the file system, the clock and the callers' initializers are arguments; what
  a theorem needs of them is a named hypothesis (\<open>semaphore_laws\<close>, \<open>server_laws\<close>, \<open>clock_laws\<close>, \<dots>) that
  a concrete instance satisfies.

  \<^bold>\<open>Not modelled.\<close> \<open>Display\<close> and \<open>Debug\<close> formatting, log output, read-only accessors, re-exports
  (\<open>src/lib.rs\<close>), the polling of futures (a cancelled future is the drop of what it owns), the wording of
  third-party errors, the concurrent phases of the
  benchmark, the samples around the phases, its rates in floating point and the commands it runs for metadata. In \<open>Test_Runs\<close>, several clients
  and workers at once are not modelled (\<open>Cleanup_System\<close> and \<open>Lease_System\<close> do that), nor are prewarm pools.
\<close>

end
